(* ===== verification/Prelude.thy ===== *)
theory Prelude
  imports Main "HOL-Library.Word" "HOL-Library.Monad_Syntax"
begin

text \<open>
  The shared base of the development: the C integer types of the program as machine words, the
  checked signed increment and decrement of a C \<open>int\<close>, the conversion of an \<open>int\<close> to
  \<open>size_t\<close>, the single-precision comparison with zero on the bits of a \<open>float\<close>, arrays
  whose cells start uninitialised, and the lemmas on them that several components use.
  Undefined behaviour of C (a NULL or dangling dereference, an access outside an array, the
  read of an uninitialised cell, signed overflow) is the value \<open>None\<close> of an option
  everywhere in the development.
\<close>

section \<open>Integers\<close>

type_synonym i32 = "32 word"
type_synonym u32 = "32 word"
type_synonym addr = nat
type_synonym ptr = "addr option"

named_theorems cmd_defs "the commands of the client program, which the proofs about all of them unfold"

abbreviation int_max :: int where
  "int_max \<equiv> 2147483647"

text \<open>\<open>x + 1\<close> and \<open>x - 1\<close> on a C \<open>int\<close>: leaving its range is undefined.\<close>

definition int_inc :: "i32 \<Rightarrow> i32 option" where
  "int_inc x = (if sint x = int_max then None else Some (x + 1))"

definition int_dec :: "i32 \<Rightarrow> i32 option" where
  "int_dec x = (if sint x = - int_max - 1 then None else Some (x - 1))"

text \<open>\<open>(size_t) x\<close> for an \<open>int\<close> on a 64-bit machine: sign extension, read as unsigned.\<close>

definition to_size_t :: "i32 \<Rightarrow> nat" where
  "to_size_t x = nat (sint x mod 2 ^ 64)"

lemma sint_of_int_small:
  assumes "- 2147483648 \<le> k" "k < 2147483648"
  shows "sint (word_of_int k :: i32) = k"
  using assms by (simp add: sint_sbintrunc' signed_take_bit_int_eq_self)

lemma sint_of_nat_small:
  assumes "n < 2147483648"
  shows "sint (of_nat n :: i32) = int n"
  using sint_of_int_small[of "int n"] assms by simp

lemma sint_le_int_max: "sint (x :: i32) \<le> int_max"
  using sint_lt[of x] by simp

lemma sint_ge_int_min: "- int_max - 1 \<le> sint (x :: i32)"
  using sint_ge[of x] by simp

lemma int_inc_of_nat:
  assumes "n < 2147483647"
  shows "int_inc (of_nat n) = Some (of_nat (Suc n))"
  using assms by (simp add: int_inc_def sint_of_nat_small)

lemma int_dec_of_nat:
  assumes "n < 2147483648"
  shows "int_dec (of_nat n) = Some (of_nat n - 1)"
  using assms by (simp add: int_dec_def sint_of_nat_small)

lemma to_size_t_of_nat: "n < 2147483648 \<Longrightarrow> to_size_t (of_nat n) = n"
  by (simp add: to_size_t_def sint_of_nat_small)

lemma of_nat_neq_minus_one:
  assumes "n < 2147483648"
  shows "(of_nat n :: i32) \<noteq> - 1"
proof
  assume "(of_nat n :: i32) = - 1"
  then have "sint (of_nat n :: i32) = - 1" by simp
  with sint_of_nat_small[OF assms] show False by simp
qed

section \<open>Single-precision floats\<close>

text \<open>
  A \<open>float\<close> is its 32 IEEE 754 bits.  \<open>x < 0.0f\<close> holds when the sign bit is set, the
  value is not a zero, and it is not a NaN.
\<close>

definition float_abs_bits :: "u32 \<Rightarrow> u32" where
  "float_abs_bits x = take_bit 31 x"

definition float_is_nan :: "u32 \<Rightarrow> bool" where
  "float_is_nan x \<longleftrightarrow> float_abs_bits x > 0x7F800000"

definition float_lt_zero :: "u32 \<Rightarrow> bool" where
  "float_lt_zero x \<longleftrightarrow> bit x 31 \<and> float_abs_bits x \<noteq> 0 \<and> \<not> float_is_nan x"

section \<open>Arrays\<close>

text \<open>A cell is \<open>None\<close> until it is written; reading it then is undefined behaviour.\<close>

type_synonym 'a arr = "'a option list"

definition arr_get :: "nat \<Rightarrow> 'a arr \<Rightarrow> 'a option" where
  "arr_get i a = (if i < length a then a ! i else None)"

definition arr_set :: "nat \<Rightarrow> 'a \<Rightarrow> 'a arr \<Rightarrow> 'a arr option" where
  "arr_set i v a = (if i < length a then Some (a[i := Some v]) else None)"

lemma arr_set_next [simp]:
  "arr_set (length xs) v (map Some xs @ None # rest) = Some (map Some (xs @ [v]) @ rest)"
  by (simp add: arr_set_def list_update_append)

lemma arr_get_filled:
  "i < length xs \<Longrightarrow> arr_get i (map Some xs @ rest) = Some (xs ! i)"
  by (simp add: arr_get_def nth_append)

end
