(* ===== verification/CText.thy ===== *)
theory CText
  imports Prelude
begin

text \<open>
  The functions of the C library that read and write numbers as text: \<open>atoi\<close>, and \<open>sscanf\<close> with a
  literal prefix and one \<open>%d\<close>.  Both skip white space, accept a sign, read decimal digits into a
  64-bit \<open>long\<close> that saturates, and keep the low 32 bits.  \<open>dec_int\<close> is the decimal text of a number.
\<close>

definition is_space :: "char \<Rightarrow> bool" where
  "is_space c \<longleftrightarrow> c = CHR '' '' \<or> (9 \<le> (of_char c :: nat) \<and> (of_char c :: nat) \<le> 13)"

definition is_digit :: "char \<Rightarrow> bool" where
  "is_digit c \<longleftrightarrow> 48 \<le> (of_char c :: nat) \<and> (of_char c :: nat) \<le> 57"

fun digits_value :: "int \<Rightarrow> string \<Rightarrow> int" where
  "digits_value v [] = v"
| "digits_value v (c # cs) = digits_value (10 * v + (of_char c - 48)) cs"

definition long_clamp :: "int \<Rightarrow> int" where
  "long_clamp v = max (- (2 ^ 63)) (min (2 ^ 63 - 1) v)"

text \<open>The value and the rest of the text, or \<open>None\<close> when there is no digit.\<close>

definition strtol :: "string \<Rightarrow> (int \<times> string) option" where
  "strtol s =
     (let s = dropWhile is_space s;
          neg = (s \<noteq> [] \<and> hd s = CHR ''-'');
          s = (if s \<noteq> [] \<and> (hd s = CHR ''-'' \<or> hd s = CHR ''+'') then tl s else s);
          ds = takeWhile is_digit s; v = digits_value 0 ds
      in if ds = [] then None
         else Some (long_clamp (if neg then - v else v), dropWhile is_digit s))"

definition atoi :: "string \<Rightarrow> i32" where
  "atoi s = (case strtol s of None \<Rightarrow> 0 | Some (v, _) \<Rightarrow> word_of_int v)"

text \<open>\<open>sscanf (s, prefix "%d", &num) == 1\<close> and the number read.\<close>

definition sscanf_d :: "string \<Rightarrow> string \<Rightarrow> i32 option" where
  "sscanf_d prefix s =
     (if take (length prefix) s = prefix
      then map_option (\<lambda>(v, _). word_of_int v) (strtol (drop (length prefix) s))
      else None)"

section \<open>Writing numbers\<close>

text \<open>\<open>%ld\<close> and \<open>%d\<close>.\<close>

fun dec_nat :: "nat \<Rightarrow> string" where
  "dec_nat n = (if n < 10 then [char_of (48 + n)] else dec_nat (n div 10) @ [char_of (48 + n mod 10)])"

declare dec_nat.simps [simp del]

definition dec_int :: "int \<Rightarrow> string" where
  "dec_int i = (if i < 0 then CHR ''-'' # dec_nat (nat (- i)) else dec_nat (nat i))"

text \<open>The line feed \<open>\n\<close> of a format string.\<close>

definition nl :: string where
  "nl = [char_of (10 :: nat)]"

text \<open>\<open>n / d\<close>, rounded to the nearest integer, ties to even.\<close>

definition round_div :: "nat \<Rightarrow> nat \<Rightarrow> nat" where
  "round_div n d =
     (let q = n div d; r = n mod d in if 2 * r < d \<or> 2 * r = d \<and> even q then q else q + 1)"

text \<open>\<open>%.2f\<close> of a \<open>float\<close> widened to \<open>double\<close>.\<close>

definition float_2f :: "u32 \<Rightarrow> string" where
  "float_2f x =
     (let sign = (if bit x 31 then ''-'' else []);
          e = unat (take_bit 8 (drop_bit 23 x)); f = unat (take_bit 23 x)
      in if e = 255 then sign @ (if f = 0 then ''inf'' else ''nan'')
         else let mant = (if e = 0 then f else f + 2 ^ 23); e = max e 1;
                  cents = (if 150 \<le> e then mant * 100 * 2 ^ (e - 150) else round_div (mant * 100) (2 ^ (150 - e)))
              in sign @ dec_nat (cents div 100) @ ''.'' @
                 [char_of (48 + cents div 10 mod 10), char_of (48 + cents mod 10)])"

section \<open>Reading floats\<close>

text \<open>
  \<open>strtof\<close> in the C locale: a decimal or hexadecimal number with an optional exponent, an
  infinity or a NaN, rounded to the nearest \<open>float\<close>; 0 when there is no number.
\<close>

fun bit_length :: "nat \<Rightarrow> nat" where
  "bit_length n = (if n = 0 then 0 else Suc (bit_length (n div 2)))"

declare bit_length.simps [simp del]

lemma bit_length_eval:
  "bit_length 0 = 0" "bit_length (Suc 0) = 1" "bit_length (numeral k) = Suc (bit_length (numeral k div 2))"
  by (subst bit_length.simps, simp)+

text \<open>
  The bits of the \<open>float\<close> nearest to \<open>num / den\<close>: \<open>2 ^ e\<close> is the greatest power of two
  that is not above it and \<open>2 ^ q\<close> the distance of two neighbouring floats there.
\<close>

definition float_of_ratio :: "nat \<Rightarrow> nat \<Rightarrow> u32" where
  "float_of_ratio num den =
     (if num = 0 then 0
      else let e = int (bit_length num) - int (bit_length den);
               e = (if num * 2 ^ nat (- e) < den * 2 ^ nat e then e - 1 else e);
               q = max (e - 23) (-149);
               mant = round_div (num * 2 ^ nat (- q)) (den * 2 ^ nat q);
               bits = (q + 149) * 2 ^ 23 + int mant
      in if 0x7F800000 \<le> bits then 0x7F800000 else word_of_int bits)"

definition to_lower :: "char \<Rightarrow> char" where
  "to_lower c = (if 65 \<le> (of_char c :: nat) \<and> (of_char c :: nat) \<le> 90 then char_of (of_char c + 32 :: nat) else c)"

definition is_hex :: "char \<Rightarrow> bool" where
  "is_hex c \<longleftrightarrow> is_digit c \<or> to_lower c \<in> {CHR ''a'', CHR ''b'', CHR ''c'', CHR ''d'', CHR ''e'', CHR ''f''}"

definition hex_digit :: "char \<Rightarrow> nat" where
  "hex_digit c = (if is_digit c then of_char c - 48 else of_char (to_lower c) - 87)"

text \<open>The digits before and after the point, and what follows.\<close>

definition point_number :: "(char \<Rightarrow> bool) \<Rightarrow> string \<Rightarrow> string \<times> string \<times> string" where
  "point_number digit s =
     (let ip = takeWhile digit s; r = dropWhile digit s
      in case r of
           [] \<Rightarrow> (ip, [], r)
         | c # cs \<Rightarrow> if c = CHR ''.'' then (ip, takeWhile digit cs, dropWhile digit cs) else (ip, [], r))"

text \<open>The exponent behind the letter \<open>mark\<close>; 0 when it has no digits.\<close>

definition exponent :: "char \<Rightarrow> string \<Rightarrow> int" where
  "exponent mark r =
     (case r of
        [] \<Rightarrow> 0
      | c # cs \<Rightarrow>
          let neg = (cs \<noteq> [] \<and> hd cs = CHR ''-'');
              ds = takeWhile is_digit (if cs \<noteq> [] \<and> (hd cs = CHR ''-'' \<or> hd cs = CHR ''+'') then tl cs else cs)
          in if to_lower c = mark \<and> ds \<noteq> [] then (if neg then - digits_value 0 ds else digits_value 0 ds) else 0)"

definition strtof_magnitude :: "string \<Rightarrow> u32" where
  "strtof_magnitude s =
     (let low = map to_lower s;
          (hi, hf, hr) = point_number is_hex (drop 2 s)
      in if take 3 low = ''inf'' then 0x7F800000
         else if take 3 low = ''nan'' then 0x7FC00000
         else if take 2 low = ''0x'' \<and> hi @ hf \<noteq> [] then
           (let n = foldl (\<lambda>v c. 16 * v + hex_digit c) 0 (hi @ hf);
                e = exponent (CHR ''p'') hr - 4 * int (length hf)
            in float_of_ratio (n * 2 ^ nat e) (2 ^ nat (- e)))
         else
           (let (di, df, dr) = point_number is_digit s;
                n = nat (digits_value 0 (di @ df));
                e = exponent (CHR ''e'') dr - int (length df)
            in if di @ df = [] then 0 else float_of_ratio (n * 10 ^ nat e) (10 ^ nat (- e))))"

definition strtof :: "string \<Rightarrow> u32" where
  "strtof s =
     (let s = dropWhile is_space s;
          neg = (s \<noteq> [] \<and> hd s = CHR ''-'');
          x = strtof_magnitude (if s \<noteq> [] \<and> (hd s = CHR ''-'' \<or> hd s = CHR ''+'') then tl s else s)
      in if neg then set_bit 31 x else x)"

section \<open>Splitting a line\<close>

text \<open>One call of \<open>strtok\<close> with the separator \<open>'' ''\<close>: the token and the text behind it.\<close>

definition strtok :: "string \<Rightarrow> string option \<times> string" where
  "strtok s =
     (let s = dropWhile (\<lambda>c. c = CHR '' '') s
      in if s = [] then (None, [])
         else (Some (takeWhile (\<lambda>c. c \<noteq> CHR '' '') s), tl (dropWhile (\<lambda>c. c \<noteq> CHR '' '') s)))"

section \<open>Reading what was written\<close>

lemma digits_value_snoc: "digits_value v (xs @ [c]) = 10 * digits_value v xs + (of_char c - 48)"
  by (induction v xs rule: digits_value.induct) simp_all

lemma digit_char:
  assumes "k < 10"
  shows "is_digit (char_of (48 + k :: nat))" "(of_char (char_of (48 + k :: nat)) :: int) = 48 + int k"
proof -
  have v: "(of_char (char_of (48 + k :: nat)) :: nat) = 48 + k" using assms by simp
  with assms show "is_digit (char_of (48 + k :: nat))" by (simp add: is_digit_def)
  have "(of_char (char_of (48 + k :: nat)) :: int) = int (of_char (char_of (48 + k :: nat)))"
    by (simp only: of_nat_of_char)
  then show "(of_char (char_of (48 + k :: nat)) :: int) = 48 + int k" unfolding v by simp
qed

lemma dec_nat_digits: "dec_nat n \<noteq> [] \<and> list_all is_digit (dec_nat n) \<and> digits_value 0 (dec_nat n) = int n"
proof (induction n rule: dec_nat.induct)
  case (1 n)
  show ?case
  proof (cases "n < 10")
    case True
    then show ?thesis using digit_char[of n] by (subst (1 2 3) dec_nat.simps) simp
  next
    case False
    moreover have "10 * int (n div 10) + int (n mod 10) = int n" by (simp add: zdiv_int zmod_int)
    ultimately show ?thesis
      using 1 digit_char[of "n mod 10"] by (subst (1 2 3) dec_nat.simps) (simp add: digits_value_snoc)
  qed
qed

lemma strtol_digits:
  assumes "ds \<noteq> []" "list_all is_digit ds"
  shows "strtol ds = Some (long_clamp (digits_value 0 ds), [])"
    "strtol (CHR ''-'' # ds) = Some (long_clamp (- digits_value 0 ds), [])"
proof -
  have digit: "\<not> is_space c \<and> c \<noteq> CHR ''-'' \<and> c \<noteq> CHR ''+''" if "is_digit c" for c
    using that by (auto simp: is_digit_def is_space_def)
  from assms have "is_digit (hd ds)" by (cases ds) simp_all
  then have "hd ds \<noteq> CHR ''-''" "hd ds \<noteq> CHR ''+''" "dropWhile is_space ds = ds"
    using digit assms(1) by (cases ds; force)+
  moreover have "\<not> is_space (CHR ''-'')" by code_simp
  moreover have "takeWhile is_digit ds = ds" "dropWhile is_digit ds = []"
    using assms(2) by (simp_all add: list_all_iff)
  ultimately show "strtol ds = Some (long_clamp (digits_value 0 ds), [])"
    "strtol (CHR ''-'' # ds) = Some (long_clamp (- digits_value 0 ds), [])"
    using assms(1) by (simp_all add: strtol_def Let_def del: takeWhile_eq_all_conv dropWhile_eq_Nil_conv)
qed

lemma strtol_dec_int: "strtol (dec_int i) = Some (long_clamp i, [])"
  using dec_nat_digits[of "nat i"] dec_nat_digits[of "nat (- i)"] strtol_digits
  by (simp add: dec_int_def)

end
