(* ===== verification/NetIO.thy ===== *)
theory NetIO
  imports Prelude
begin

text \<open>
  \<open>source/message-private.c\<close>: \<open>read_all\<close> and \<open>write_all\<close> over the system calls
  \<open>read\<close> and \<open>write\<close>.  A connection is a script of what its system calls will answer: a
  chunk of bytes of any size (an empty chunk is the end of the stream), a failure with its
  \<open>errno\<close>, an amount of room for output.  A call on an exhausted script blocks for ever, which is
  \<open>None\<close>.  The theory shows that the loops hide the chunks: any script with enough bytes
  gives the same result.
\<close>

section \<open>The system calls\<close>

type_synonym byte = "8 word"

datatype in_event = Recv "byte list" | RecvFail int
datatype out_event = Room nat | SendFail int

record conn =
  k_in :: "in_event list"
  k_room :: "out_event list"
  k_out :: "byte list"
  k_errno :: int
  k_open :: bool

abbreviation (input) EINTR :: int where "EINTR \<equiv> 4"
abbreviation (input) EBADF :: int where "EBADF \<equiv> 9"
abbreviation (input) EBUSY :: int where "EBUSY \<equiv> 16"

text \<open>The result, the bytes stored in the buffer, and the connection.\<close>

definition sys_read :: "nat \<Rightarrow> conn \<Rightarrow> (int \<times> byte list \<times> conn) option" where
  "sys_read n s =
     (case k_in s of
        [] \<Rightarrow> None
      | Recv bs # es \<Rightarrow>
          if length bs \<le> n then Some (int (length bs), bs, s\<lparr>k_in := es\<rparr>)
          else Some (int n, take n bs, s\<lparr>k_in := Recv (drop n bs) # es\<rparr>)
      | RecvFail e # es \<Rightarrow> Some (-1, [], s\<lparr>k_in := es, k_errno := e\<rparr>))"

definition sys_write :: "byte list \<Rightarrow> conn \<Rightarrow> (int \<times> conn) option" where
  "sys_write bs s =
     (case k_room s of
        [] \<Rightarrow> None
      | Room k # es \<Rightarrow>
          if k \<le> length bs then Some (int k, s\<lparr>k_room := es, k_out := k_out s @ take k bs\<rparr>)
          else Some (int (length bs), s\<lparr>k_room := Room (k - length bs) # es, k_out := k_out s @ bs\<rparr>)
      | SendFail e # es \<Rightarrow> Some (-1, s\<lparr>k_room := es, k_errno := e\<rparr>))"

definition sys_close :: "conn \<Rightarrow> int \<times> conn" where
  "sys_close s = (if k_open s then (0, s\<lparr>k_open := False\<rparr>) else (-1, s\<lparr>k_errno := EBADF\<rparr>))"

section \<open>read_all and write_all\<close>

definition arr_blit :: "nat \<Rightarrow> 'a list \<Rightarrow> 'a arr \<Rightarrow> 'a arr option" where
  "arr_blit i xs a =
     (if i + length xs \<le> length a then Some (take i a @ map Some xs @ drop (i + length xs) a) else None)"

partial_function (option) read_loop ::
  "nat \<Rightarrow> int \<Rightarrow> byte arr \<Rightarrow> conn \<Rightarrow> (int \<times> byte arr \<times> conn) option" where
  "read_loop tot len buf s =
     (if int tot < len then do {
        (n, bs, s1) \<leftarrow> sys_read (nat (len - int tot)) s;
        if n \<le> 0 then
          (if k_errno s1 = EINTR then read_loop tot len buf s1 else Some (-1, buf, s1))
        else do {
          buf \<leftarrow> arr_blit tot bs buf;
          read_loop (tot + nat n) len buf s1
        }
      } else Some (int tot, buf, s))"

definition read_all :: "byte arr \<Rightarrow> int \<Rightarrow> conn \<Rightarrow> (int \<times> byte arr \<times> conn) option" where
  "read_all buf len s = read_loop 0 len buf s"

partial_function (option) write_loop :: "nat \<Rightarrow> int \<Rightarrow> byte list \<Rightarrow> conn \<Rightarrow> (int \<times> conn) option" where
  "write_loop tot len buf s =
     (if int tot < len then
        if int (length buf) < len then None
        else do {
          (n, s1) \<leftarrow> sys_write (take (nat (len - int tot)) (drop tot buf)) s;
          if n \<le> 0 then
            (if k_errno s1 = EINTR then write_loop tot len buf s1 else Some (-1, s1))
          else write_loop (tot + nat n) len buf s1
        }
      else Some (int tot, s))"

definition write_all :: "byte list \<Rightarrow> int \<Rightarrow> conn \<Rightarrow> (int \<times> conn) option" where
  "write_all buf len s = write_loop 0 len buf s"

section \<open>Scripts without failures\<close>

text \<open>Chunks are not empty, and only interrupted calls fail.\<close>

fun in_good :: "in_event \<Rightarrow> bool" where
  "in_good (Recv bs) = (bs \<noteq> [])"
| "in_good (RecvFail e) = (e = EINTR)"

fun in_bytes :: "in_event list \<Rightarrow> byte list" where
  "in_bytes [] = []"
| "in_bytes (Recv bs # es) = bs @ in_bytes es"
| "in_bytes (RecvFail e # es) = in_bytes es"

fun out_good :: "out_event \<Rightarrow> bool" where
  "out_good (Room k) = (0 < k)"
| "out_good (SendFail e) = (e = EINTR)"

fun out_room :: "out_event list \<Rightarrow> nat" where
  "out_room [] = 0"
| "out_room (Room k # es) = k + out_room es"
| "out_room (SendFail e # es) = out_room es"

lemma in_bytes_append: "in_bytes (es @ fs) = in_bytes es @ in_bytes fs"
  by (induction es rule: in_bytes.induct) simp_all

lemma out_room_append: "out_room (es @ fs) = out_room es + out_room fs"
  by (induction es rule: out_room.induct) simp_all

text \<open>The connection when its next bytes are \<open>bs\<close>, in any chunks, with \<open>rest\<close> behind them.\<close>

definition incoming :: "conn \<Rightarrow> byte list \<Rightarrow> in_event list \<Rightarrow> bool" where
  "incoming s bs rest \<longleftrightarrow> (\<exists>es. k_in s = es @ rest \<and> list_all in_good es \<and> in_bytes es = bs)"

text \<open>The connection when at least \<open>n\<close> more bytes can be written.\<close>

definition has_room :: "conn \<Rightarrow> nat \<Rightarrow> bool" where
  "has_room s n \<longleftrightarrow> (\<exists>es rest. k_room s = es @ rest \<and> list_all out_good es \<and> n \<le> out_room es)"

lemma incoming_cong: "k_in s' = k_in s \<Longrightarrow> incoming s' bs rest = incoming s bs rest"
  by (simp add: incoming_def)

lemma has_room_cong: "k_room s' = k_room s \<Longrightarrow> has_room s' n = has_room s n"
  by (simp add: has_room_def)

section \<open>The loops are independent of the chunks\<close>

lemma read_loop_ok:
  assumes "list_all in_good es" "k_in s = es @ rest" "len = int tot + int k"
    and "k \<le> length (in_bytes es)" "length buf = tot + k"
  shows "\<exists>es' e. read_loop tot len buf s =
      Some (len, take tot buf @ map Some (take k (in_bytes es)), s\<lparr>k_in := es' @ rest, k_errno := e\<rparr>) \<and>
    list_all in_good es' \<and> in_bytes es' = drop k (in_bytes es)"
  using assms
proof (induction es arbitrary: tot k buf s)
  case Nil
  then show ?case
    by (subst read_loop.simps) (auto intro!: exI[of _ "[]"] exI[of _ "k_errno s"])
next
  case (Cons ev es)
  show ?case
  proof (cases "k = 0")
    case True
    with Cons.prems show ?thesis
      by (subst read_loop.simps) (auto intro!: exI[of _ "ev # es"] exI[of _ "k_errno s"])
  next
    case k: False
    show ?thesis
    proof (cases ev)
      case (RecvFail e)
      let ?s = "s\<lparr>k_in := es @ rest, k_errno := e\<rparr>"
      have "read_loop tot len buf s = read_loop tot len buf ?s"
        using Cons.prems k RecvFail by (subst read_loop.simps) (simp add: sys_read_def)
      then show ?thesis
        using Cons.IH[of ?s tot k buf] Cons.prems RecvFail by simp
    next
      case (Recv bs)
      let ?n = "length bs"
      have bs: "bs \<noteq> []" using Cons.prems(1) Recv by simp
      show ?thesis
      proof (cases "?n \<le> k")
        case True
        let ?s = "s\<lparr>k_in := es @ rest\<rparr>" and ?buf = "take tot buf @ map Some bs @ drop (tot + ?n) buf"
        have "read_loop tot len buf s = read_loop (tot + ?n) len ?buf ?s"
          using Cons.prems k Recv True bs
          by (subst read_loop.simps) (simp add: sys_read_def arr_blit_def)
        moreover have "\<exists>es' e. read_loop (tot + ?n) len ?buf ?s =
            Some (len, take (tot + ?n) ?buf @ map Some (take (k - ?n) (in_bytes es)),
              ?s\<lparr>k_in := es' @ rest, k_errno := e\<rparr>) \<and>
            list_all in_good es' \<and> in_bytes es' = drop (k - ?n) (in_bytes es)"
          using Cons.prems Recv True by (intro Cons.IH) auto
        ultimately show ?thesis
          using Cons.prems Recv True by (auto simp: min_def)
      next
        case False
        let ?s = "s\<lparr>k_in := Recv (drop k bs) # es @ rest\<rparr>" and ?buf = "take tot buf @ map Some (take k bs)"
        have "read_loop tot len buf s = read_loop (tot + k) len ?buf ?s"
          using Cons.prems k Recv False
          by (subst read_loop.simps) (simp add: sys_read_def arr_blit_def min_def)
        moreover have "read_loop (tot + k) len ?buf ?s = Some (len, ?buf, ?s)"
          using Cons.prems by (subst read_loop.simps) simp
        ultimately show ?thesis
          using Cons.prems Recv False by (intro exI[of _ "Recv (drop k bs) # es"] exI[of _ "k_errno s"]) simp
      qed
    qed
  qed
qed

lemma read_all_incoming:
  assumes "incoming s bs rest" "k \<le> length bs"
  obtains s' where "read_all (replicate k None) (int k) s = Some (int k, map Some (take k bs), s')"
    "incoming s' (drop k bs) rest" "k_out s' = k_out s" "k_room s' = k_room s" "k_open s' = k_open s"
proof -
  from assms obtain es where "list_all in_good es" "k_in s = es @ rest" and bs: "in_bytes es = bs"
    by (auto simp: incoming_def)
  from read_loop_ok[OF this(1,2), of "int k" 0 k "replicate k None"] assms(2) bs obtain es' e where
    "read_loop 0 (int k) (replicate k None) s =
       Some (int k, map Some (take k bs), s\<lparr>k_in := es' @ rest, k_errno := e\<rparr>)"
    "list_all in_good es'" "in_bytes es' = drop k bs" by auto
  then show ?thesis
    by (intro that[of "s\<lparr>k_in := es' @ rest, k_errno := e\<rparr>"]) (auto simp: read_all_def incoming_def)
qed

lemma write_loop_ok:
  assumes "list_all out_good es" "k_room s = es @ rest" "int (length buf) = len"
    and "tot \<le> length buf" "length buf - tot \<le> out_room es"
  shows "\<exists>es' e. write_loop tot len buf s =
      Some (len, s\<lparr>k_room := es' @ rest, k_out := k_out s @ drop tot buf, k_errno := e\<rparr>) \<and>
    list_all out_good es' \<and> out_room es' = out_room es - (length buf - tot)"
  using assms
proof (induction es arbitrary: tot s)
  case Nil
  then show ?case
    by (subst write_loop.simps) (auto intro!: exI[of _ "[]"] exI[of _ "k_errno s"])
next
  case (Cons ev es)
  show ?case
  proof (cases "tot = length buf")
    case True
    with Cons.prems show ?thesis
      by (subst write_loop.simps) (auto intro!: exI[of _ "ev # es"] exI[of _ "k_errno s"])
  next
    case False
    then have less: "tot < length buf" using Cons.prems(4) by simp
    show ?thesis
    proof (cases ev)
      case (SendFail e)
      let ?s = "s\<lparr>k_room := es @ rest, k_errno := e\<rparr>"
      have "write_loop tot len buf s = write_loop tot len buf ?s"
        using Cons.prems less SendFail by (subst write_loop.simps) (simp add: sys_write_def)
      then show ?thesis using Cons.IH[of ?s tot] Cons.prems SendFail by simp
    next
      case (Room k)
      show ?thesis
      proof (cases "k \<le> length buf - tot")
        case True
        let ?s = "s\<lparr>k_room := es @ rest, k_out := k_out s @ take k (drop tot buf)\<rparr>"
        have "write_loop tot len buf s = write_loop (tot + k) len buf ?s"
          using Cons.prems less Room True
          by (subst write_loop.simps) (auto simp: sys_write_def)
        moreover have "\<exists>es' e. write_loop (tot + k) len buf ?s =
            Some (len, ?s\<lparr>k_room := es' @ rest, k_out := k_out ?s @ drop (tot + k) buf, k_errno := e\<rparr>) \<and>
            list_all out_good es' \<and> out_room es' = out_room es - (length buf - (tot + k))"
          using Cons.prems Room True by (intro Cons.IH) auto
        moreover have "take k (drop tot buf) @ drop (tot + k) buf = drop tot buf"
          by (metis add.commute append_take_drop_id drop_drop)
        ultimately show ?thesis using Cons.prems Room True by auto
      next
        case False
        let ?s = "s\<lparr>k_room := Room (k - (length buf - tot)) # es @ rest, k_out := k_out s @ drop tot buf\<rparr>"
        have "tot + nat (int (length buf) - int tot) = length buf" using less by simp
        then have "write_loop tot len buf s = write_loop (length buf) len buf ?s"
          using Cons.prems less Room False
          by (subst write_loop.simps) (auto simp: sys_write_def)
        moreover have "write_loop (length buf) len buf ?s = Some (len, ?s)"
          using Cons.prems by (subst write_loop.simps) simp
        ultimately show ?thesis
          using Cons.prems Room False
          by (intro exI[of _ "Room (k - (length buf - tot)) # es"] exI[of _ "k_errno s"]) (simp, arith)
      qed
    qed
  qed
qed

lemma write_all_has_room:
  assumes "has_room s (length bs + n)"
  obtains s' where "write_all bs (int (length bs)) s = Some (int (length bs), s')"
    "k_out s' = k_out s @ bs" "has_room s' n" "k_in s' = k_in s" "k_open s' = k_open s"
proof -
  from assms obtain es rest where "list_all out_good es" "k_room s = es @ rest"
    and room: "length bs + n \<le> out_room es"
    by (auto simp: has_room_def)
  from write_loop_ok[OF this(1,2), of bs "int (length bs)" 0] room obtain es' e where
    "write_loop 0 (int (length bs)) bs s =
       Some (int (length bs), s\<lparr>k_room := es' @ rest, k_out := k_out s @ bs, k_errno := e\<rparr>)"
    "list_all out_good es'" "out_room es' = out_room es - length bs" by auto
  with room show ?thesis
    by (intro that[of "s\<lparr>k_room := es' @ rest, k_out := k_out s @ bs, k_errno := e\<rparr>"])
      (auto simp: write_all_def has_room_def)
qed

text \<open>Closed streams: the end of the stream, and a stale \<open>EINTR\<close> in \<open>errno\<close>.\<close>

lemma read_loop_skip_eof:
  assumes "int tot < len" "k_errno s = EINTR" "k_in s = replicate k (Recv []) @ es"
  shows "read_loop tot len buf s = read_loop tot len buf (s\<lparr>k_in := es\<rparr>)"
  using assms(2,3)
proof (induction k arbitrary: s)
  case 0
  then show ?case by (cases s) simp
next
  case (Suc k)
  let ?s = "s\<lparr>k_in := replicate k (Recv []) @ es\<rparr>"
  have "read_loop tot len buf s = read_loop tot len buf ?s"
    using assms(1) Suc.prems by (subst read_loop.simps) (simp add: sys_read_def)
  also have "\<dots> = read_loop tot len buf (?s\<lparr>k_in := es\<rparr>)" using Suc.prems by (intro Suc.IH) simp_all
  finally show ?case by simp
qed

lemma read_all_eof:
  assumes "k_in s = Recv [] # es" "k_errno s \<noteq> EINTR" "0 < len"
  shows "read_all buf len s = Some (-1, buf, s\<lparr>k_in := es\<rparr>)"
  using assms by (subst read_all_def, subst read_loop.simps) (simp add: sys_read_def)

section \<open>What the loops write, whatever happens\<close>

lemma sys_read_out: "sys_read n s = Some (r, bs, s') \<Longrightarrow> k_out s' = k_out s"
  by (auto simp: sys_read_def split: list.splits in_event.splits if_splits)

lemma read_loop_out: "read_loop tot len buf s = Some r \<Longrightarrow> k_out (snd (snd r)) = k_out s"
proof (induction rule: read_loop.raw_induct[rotated, consumes 1, case_names step])
  case (step self tot len buf s r)
  show ?case
  proof (cases "int tot < len")
    case True
    from step(2) obtain n bs s1 where read: "sys_read (nat (len - int tot)) s = Some (n, bs, s1)"
      and rest: "(if n \<le> 0 then if k_errno s1 = EINTR then self tot len buf s1 else Some (-1, buf, s1)
        else do { buf \<leftarrow> arr_blit tot bs buf; self (tot + nat n) len buf s1 }) = Some r"
      unfolding if_P[OF True] bind_eq_Some_conv by auto
    have out: "k_out s1 = k_out s" by (rule sys_read_out[OF read])
    show ?thesis
    proof (cases "n \<le> 0")
      case True
      then consider "self tot len buf s1 = Some r" | "r = (-1, buf, s1)"
        using rest by (cases "k_errno s1 = EINTR") simp_all
      then show ?thesis using step(1) out by cases fastforce+
    next
      case False
      then obtain buf' where "self (tot + nat n) len buf' s1 = Some r"
        using rest unfolding if_not_P[OF False] bind_eq_Some_conv by blast
      from step(1)[OF this] out show ?thesis by simp
    qed
  next
    case False
    with step(2) show ?thesis by auto
  qed
qed

lemma sys_write_out:
  "sys_write bs s = Some (n, s') \<Longrightarrow> 0 < n \<Longrightarrow> nat n \<le> length bs \<and> k_out s' = k_out s @ take (nat n) bs"
  by (auto simp: sys_write_def split: list.splits out_event.splits if_splits)

lemma take_drop_split:
  "k \<le> length (take n (drop i xs)) \<Longrightarrow> take k (take n (drop i xs)) @ take (n - k) (drop (i + k) xs) = take n (drop i xs)"
  using append_take_drop_id[of k "take n (drop i xs)"] by (simp add: drop_take add.commute)

text \<open>A loop on \<open>write\<close> that does not fail has written the bytes asked for.\<close>

lemma write_loop_out:
  "write_loop tot len buf s = Some r \<Longrightarrow> int tot \<le> len \<Longrightarrow> fst r \<noteq> -1 \<Longrightarrow>
     k_out (snd r) = k_out s @ take (nat (len - int tot)) (drop tot buf)"
proof (induction rule: write_loop.raw_induct[rotated, consumes 1, case_names step])
  case (step self tot len buf s r)
  show ?case
  proof (cases "int tot < len")
    case True
    let ?k = "nat (len - int tot)"
    from True step(2) obtain n s1 where wr: "sys_write (take ?k (drop tot buf)) s = Some (n, s1)"
      and rest: "(if n \<le> 0 then if k_errno s1 = EINTR then self tot len buf s1 else Some (-1, s1)
        else self (tot + nat n) len buf s1) = Some r"
      by (auto simp: bind_eq_Some_conv split: if_splits)
    show ?thesis
    proof (cases "n \<le> 0")
      case True
      then have "k_out s1 = k_out s"
        using wr by (auto simp: sys_write_def split: list.splits out_event.splits if_splits)
      with True rest step show ?thesis by (auto split: if_splits)
    next
      case False
      then have n: "nat n \<le> length (take ?k (drop tot buf))" "k_out s1 = k_out s @ take (nat n) (take ?k (drop tot buf))"
        using sys_write_out[OF wr] by simp_all
      then have "nat n \<le> ?k" by simp
      then have "int (tot + nat n) \<le> len" using \<open>int tot < len\<close> by linarith
      from step(1)[OF _ this step(4)] rest False
      have "k_out (snd r) = k_out s1 @ take (nat (len - int (tot + nat n))) (drop (tot + nat n) buf)" by simp
      moreover have "nat (len - int (tot + nat n)) = ?k - nat n" using False by simp
      ultimately show ?thesis using n(2) take_drop_split[OF n(1)] by simp
    qed
  next
    case False
    with step(2,3) show ?thesis by auto
  qed
qed

lemma write_all_out:
  assumes "write_all bs (int (length bs)) s = Some (r, s')" "r \<noteq> -1"
  shows "k_out s' = k_out s @ bs"
  using write_loop_out[of 0 "int (length bs)" bs s "(r, s')"] assms by (simp add: write_all_def)

section \<open>Properties\<close>

definition demo_conn :: conn where
  "demo_conn = \<lparr>k_in = [Recv [7], RecvFail EINTR, Recv [8, 9, 10]], k_room = [Room 1, SendFail EINTR, Room 5],
     k_out = [], k_errno = 0, k_open = True\<rparr>"

lemma demo_incoming [simp]: "incoming demo_conn [7, 8, 9, 10] []"
  by (auto simp: incoming_def demo_conn_def intro!: exI[of _ "[Recv [7], RecvFail EINTR, Recv [8, 9, 10]]"])

lemma demo_room [simp]: "has_room demo_conn 6"
  unfolding has_room_def
  by (rule exI[of _ "[Room 1, SendFail EINTR, Room 5]"], rule exI[of _ "[]"]) (simp add: demo_conn_def)

text \<open>\<open>read_all\<close> is independent of how the stream is cut into chunks and of interrupted
  calls: when the next bytes of the connection are at least \<open>k\<close>, it returns \<open>k\<close>, fills the
  buffer with exactly the first \<open>k\<close> of them and leaves the others, in order, for the next read.\<close>

theorem read_all_chunks:
  assumes "incoming s bs rest" "k \<le> length bs"
  shows "\<exists>s'. read_all (replicate k None) (int k) s = Some (int k, map Some (take k bs), s') \<and>
    incoming s' (drop k bs) rest \<and> k_out s' = k_out s"
  using read_all_incoming[OF assms] by metis

theorem read_all_chunks_witness:
  "\<exists>s'. read_all [None, None, None] 3 demo_conn = Some (3, [Some 7, Some 8, Some 9], s') \<and> incoming s' [10] []"
  using read_all_chunks[OF demo_incoming, of 3] by (auto simp: numeral_3_eq_3)

text \<open>\<open>write_all\<close> writes the whole buffer exactly once and in order, in however many
  partial and interrupted \<open>write\<close> calls, as long as the peer makes room for it.\<close>

theorem write_all_complete:
  assumes "has_room s (length bs)"
  shows "\<exists>s'. write_all bs (int (length bs)) s = Some (int (length bs), s') \<and>
    k_out s' = k_out s @ bs \<and> k_in s' = k_in s"
proof -
  have "has_room s (length bs + 0)" using assms by simp
  then show ?thesis by (elim write_all_has_room) blast
qed

theorem write_all_complete_witness:
  "\<exists>s'. write_all [1, 2, 3, 4, 5, 6] 6 demo_conn = Some (6, s') \<and> k_out s' = [1, 2, 3, 4, 5, 6]"
proof -
  have len: "length [1, 2, 3, 4, 5, 6 :: byte] = 6" by simp
  from write_all_complete[of demo_conn "[1, 2, 3, 4, 5, 6]", unfolded len, OF demo_room]
  show ?thesis by (auto simp: demo_conn_def)
qed

text \<open>\<open>read_all\<close> does not recognise the end of a stream when \<open>errno\<close> still holds
  \<open>EINTR\<close> from an earlier call: \<open>read\<close> returning 0 does not set \<open>errno\<close>, so the loop
  spins over any number of such calls and reports nothing before a call fails with another
  \<open>errno\<close>; with any other \<open>errno\<close> the first one ends it with -1.\<close>

theorem read_all_stale_eintr:
  assumes "0 < len" "k_in s = replicate (Suc k) (Recv []) @ RecvFail e # es" "e \<noteq> EINTR"
  shows "read_all buf len s =
    (if k_errno s = EINTR then Some (-1, buf, s\<lparr>k_in := es, k_errno := e\<rparr>)
     else Some (-1, buf, s\<lparr>k_in := replicate k (Recv []) @ RecvFail e # es\<rparr>))"
proof (cases "k_errno s = EINTR")
  case True
  have "read_all buf len s = read_loop 0 len buf (s\<lparr>k_in := RecvFail e # es\<rparr>)"
    using read_loop_skip_eof[OF _ True assms(2)] assms(1) by (simp add: read_all_def)
  also have "\<dots> = Some (-1, buf, s\<lparr>k_in := es, k_errno := e\<rparr>)"
    using assms(1,3) by (subst read_loop.simps) (simp add: sys_read_def)
  finally show ?thesis using True by simp
next
  case False
  then show ?thesis using assms(1,2) by (simp add: read_all_eof)
qed

theorem read_all_stale_eintr_witness:
  "read_all [None] 1 (demo_conn\<lparr>k_in := [Recv [], Recv [], RecvFail 104], k_errno := EINTR\<rparr>) =
     Some (-1, [None], demo_conn\<lparr>k_in := [], k_errno := 104\<rparr>)"
  using read_all_stale_eintr[of 1 "demo_conn\<lparr>k_in := [Recv [], Recv [], RecvFail 104], k_errno := EINTR\<rparr>"
      1 104 "[]" "[None]"] by simp

end
