(* ===== verification/CMem.thy ===== *)
theory CMem
  imports Prelude
begin

text \<open>
  The memory of a server process as far as the list of cars lives in it: one store per kind of
  block that \<open>data.c\<close> and \<open>list.c\<close> allocate (strings, \<open>struct data_t\<close>,
  \<open>struct car_t\<close>, \<open>struct list_t\<close>), the allocator, and the calendar year that
  \<open>localtime\<close> reports.  A store maps the addresses of live blocks; freeing a block removes
  it, so a dangling access, a double free and a NULL dereference are all \<open>None\<close>.
  The allocator hands out addresses in order and never reuses one; whether its \<open>n\<close>-th request
  succeeds is an oracle, so every NULL check of the code has both of its branches.
\<close>

section \<open>The structures of data.h and list-private.h\<close>

record data_t =
  d_ano :: i32
  d_preco :: u32
  d_marca :: u32
  d_modelo :: ptr
  d_combustivel :: u32

record car_t =
  car_data :: ptr
  car_next :: ptr

record list_t =
  l_size :: i32
  l_head :: ptr

record mem =
  m_strs :: "addr \<rightharpoonup> string"
  m_datas :: "addr \<rightharpoonup> data_t"
  m_nodes :: "addr \<rightharpoonup> car_t"
  m_lists :: "addr \<rightharpoonup> list_t"
  m_brk :: nat
  m_avail :: "nat \<Rightarrow> bool"
  m_tm_year :: i32

definition empty_mem :: "i32 \<Rightarrow> mem" where
  "empty_mem y = \<lparr>m_strs = Map.empty, m_datas = Map.empty, m_nodes = Map.empty,
     m_lists = Map.empty, m_brk = 0, m_avail = (\<lambda>_. True), m_tm_year = y\<rparr>"

section \<open>Reading, writing, allocating and freeing one block\<close>

text \<open>
  The operations are generic in the store: \<open>sel\<close> selects it and \<open>upd\<close> updates it, e.g.
  \<open>deref m_nodes p m\<close> is \<open>*p\<close> for a \<open>struct car_t *\<close>.
\<close>

definition deref :: "(mem \<Rightarrow> (addr \<rightharpoonup> 'v)) \<Rightarrow> ptr \<Rightarrow> mem \<Rightarrow> 'v option" where
  "deref sel p m = (case p of None \<Rightarrow> None | Some a \<Rightarrow> sel m a)"

definition store ::
  "(mem \<Rightarrow> (addr \<rightharpoonup> 'v)) \<Rightarrow> (((addr \<rightharpoonup> 'v) \<Rightarrow> (addr \<rightharpoonup> 'v)) \<Rightarrow> mem \<Rightarrow> mem) \<Rightarrow>
     ptr \<Rightarrow> 'v \<Rightarrow> mem \<Rightarrow> mem option" where
  "store sel upd p v m =
     (case p of None \<Rightarrow> None
      | Some a \<Rightarrow> (case sel m a of None \<Rightarrow> None | Some _ \<Rightarrow> Some (upd (\<lambda>_. (sel m)(a \<mapsto> v)) m)))"

text \<open>\<open>malloc\<close> of one block, with the block's first contents.\<close>

definition new_cell ::
  "(mem \<Rightarrow> (addr \<rightharpoonup> 'v)) \<Rightarrow> (((addr \<rightharpoonup> 'v) \<Rightarrow> (addr \<rightharpoonup> 'v)) \<Rightarrow> mem \<Rightarrow> mem) \<Rightarrow> 'v \<Rightarrow> mem \<Rightarrow> ptr \<times> mem" where
  "new_cell sel upd v m =
     (if m_avail m (m_brk m)
      then (Some (m_brk m), upd (\<lambda>_. (sel m)(m_brk m \<mapsto> v)) (m\<lparr>m_brk := Suc (m_brk m)\<rparr>))
      else (None, m\<lparr>m_brk := Suc (m_brk m)\<rparr>))"

text \<open>\<open>free\<close>: of NULL it does nothing, of a live block it removes it, of anything else it is undefined.\<close>

definition free_cell ::
  "(mem \<Rightarrow> (addr \<rightharpoonup> 'v)) \<Rightarrow> (((addr \<rightharpoonup> 'v) \<Rightarrow> (addr \<rightharpoonup> 'v)) \<Rightarrow> mem \<Rightarrow> mem) \<Rightarrow>
     ptr \<Rightarrow> mem \<Rightarrow> mem option" where
  "free_cell sel upd p m =
     (case p of None \<Rightarrow> Some m
      | Some a \<Rightarrow> (case sel m a of None \<Rightarrow> None | Some _ \<Rightarrow> Some (upd (\<lambda>_. (sel m)(a := None)) m)))"

text \<open>\<open>malloc\<close> of a block whose contents a caller or a message owns: only its answer matters here.\<close>

definition malloc_block :: "mem \<Rightarrow> bool \<times> mem" where
  "malloc_block m = (m_avail m (m_brk m), m\<lparr>m_brk := Suc (m_brk m)\<rparr>)"

text \<open>\<open>malloc (n * sizeof (T))\<close> for an array; a negative \<open>n\<close> converts to a size no allocator grants.\<close>

definition malloc_arr :: "int \<Rightarrow> mem \<Rightarrow> 'a arr option \<times> mem" where
  "malloc_arr n m =
     (if m_avail m (m_brk m) \<and> 0 \<le> n
      then (Some (replicate (nat n) None), m\<lparr>m_brk := Suc (m_brk m)\<rparr>)
      else (None, m\<lparr>m_brk := Suc (m_brk m)\<rparr>))"

text \<open>\<open>strdup (s)\<close> into the program's own memory; \<open>strdup (NULL)\<close> is undefined.\<close>

definition c_strdup :: "string option \<Rightarrow> mem \<Rightarrow> (ptr \<times> mem) option" where
  "c_strdup s m = (case s of None \<Rightarrow> None | Some t \<Rightarrow> Some (new_cell m_strs m_strs_update t m))"

text \<open>The C string a \<open>const char *\<close> points to: \<open>Some None\<close> for NULL, \<open>None\<close> when it dangles.\<close>

definition c_string :: "ptr \<Rightarrow> mem \<Rightarrow> string option option" where
  "c_string p m = (case p of None \<Rightarrow> Some None | Some a \<Rightarrow> map_option Some (m_strs m a))"

section \<open>The laws of a store\<close>

locale heap_cells =
  fixes sel :: "mem \<Rightarrow> (addr \<rightharpoonup> 'v)"
    and upd :: "((addr \<rightharpoonup> 'v) \<Rightarrow> (addr \<rightharpoonup> 'v)) \<Rightarrow> mem \<Rightarrow> mem"
  assumes sel_upd: "sel (upd f m) = f (sel m)"
    and sel_brk: "sel (m\<lparr>m_brk := k\<rparr>) = sel m"
begin

lemma deref_store: "store sel upd p v m = Some m' \<Longrightarrow> deref sel p m' = Some v"
  by (auto simp: store_def deref_def sel_upd split: option.splits)

lemma deref_store_other:
  "store sel upd p v m = Some m' \<Longrightarrow> q \<noteq> p \<Longrightarrow> deref sel q m' = deref sel q m"
  by (auto simp: store_def deref_def sel_upd split: option.splits if_splits)

lemma deref_new:
  "new_cell sel upd v m = (Some a, m') \<Longrightarrow> deref sel (Some a) m' = Some v"
  by (auto simp: new_cell_def deref_def sel_upd sel_brk split: if_splits)

lemma use_after_free:
  "free_cell sel upd (Some a) m = Some m' \<Longrightarrow> deref sel (Some a) m' = None"
  by (auto simp: free_cell_def deref_def sel_upd split: option.splits)

lemma double_free:
  "free_cell sel upd (Some a) m = Some m' \<Longrightarrow> free_cell sel upd (Some a) m' = None"
  by (auto simp: free_cell_def sel_upd split: option.splits)

lemma free_new:
  assumes "new_cell sel upd v m = (p, m1)" "sel m (m_brk m) = None"
  obtains m2 where "free_cell sel upd p m1 = Some m2" "sel m2 = sel m"
proof (cases "m_avail m (m_brk m)")
  case True
  with assms have "free_cell sel upd p m1 = Some (upd (\<lambda>_. (sel m1)(m_brk m := None)) m1)"
    and "sel (upd (\<lambda>_. (sel m1)(m_brk m := None)) m1) = sel m"
    by (auto simp: new_cell_def free_cell_def sel_upd sel_brk fun_upd_idem)
  then show ?thesis using that by blast
next
  case False
  with assms have "free_cell sel upd p m1 = Some m1" "sel m1 = sel m"
    by (auto simp: new_cell_def free_cell_def sel_brk)
  then show ?thesis using that by blast
qed

end

interpretation str_cells: heap_cells m_strs m_strs_update
  by unfold_locales simp_all
interpretation data_cells: heap_cells m_datas m_datas_update
  by unfold_locales simp_all
interpretation node_cells: heap_cells m_nodes m_nodes_update
  by unfold_locales simp_all
interpretation list_cells: heap_cells m_lists m_lists_update
  by unfold_locales simp_all

section \<open>Fresh addresses\<close>

text \<open>Every live block was handed out by the allocator.\<close>

definition mem_wf :: "mem \<Rightarrow> bool" where
  "mem_wf m \<longleftrightarrow> (\<forall>a \<ge> m_brk m. m_strs m a = None \<and> m_datas m a = None \<and>
     m_nodes m a = None \<and> m_lists m a = None)"

lemma mem_wf_empty [simp]: "mem_wf (empty_mem y)"
  by (simp add: mem_wf_def empty_mem_def)

lemma mem_wf_fresh:
  "mem_wf m \<Longrightarrow> m_brk m \<le> a \<Longrightarrow>
     m_strs m a = None \<and> m_datas m a = None \<and> m_nodes m a = None \<and> m_lists m a = None"
  by (simp add: mem_wf_def)

lemma mem_wf_live:
  assumes "mem_wf m"
  shows "m_strs m a = Some s \<Longrightarrow> a < m_brk m"
    and "m_datas m a = Some d \<Longrightarrow> a < m_brk m"
    and "m_nodes m a = Some n \<Longrightarrow> a < m_brk m"
    and "m_lists m a = Some l \<Longrightarrow> a < m_brk m"
  using assms by (auto simp: mem_wf_def not_less[symmetric])

lemma mem_wf_sub:
  assumes "mem_wf m" "m_brk m \<le> m_brk m'" "dom (m_strs m') \<subseteq> dom (m_strs m)"
    "dom (m_datas m') \<subseteq> dom (m_datas m)" "dom (m_nodes m') \<subseteq> dom (m_nodes m)"
    "dom (m_lists m') \<subseteq> dom (m_lists m)"
  shows "mem_wf m'"
  using assms by (auto simp: mem_wf_def dom_def subset_eq)

text \<open>Two memories with the same live blocks; the allocator may have moved on.\<close>

definition same_blocks :: "mem \<Rightarrow> mem \<Rightarrow> bool" where
  "same_blocks m m' \<longleftrightarrow> m_strs m' = m_strs m \<and> m_datas m' = m_datas m \<and>
     m_nodes m' = m_nodes m \<and> m_lists m' = m_lists m \<and> m_tm_year m' = m_tm_year m \<and>
     m_avail m' = m_avail m \<and> m_brk m \<le> m_brk m'"

lemma same_blocks_refl [simp]: "same_blocks m m"
  by (simp add: same_blocks_def)

lemma same_blocks_trans:
  "same_blocks m m1 \<Longrightarrow> same_blocks m1 m2 \<Longrightarrow> same_blocks m m2"
  by (simp add: same_blocks_def)

lemma same_blocks_wf: "same_blocks m m' \<Longrightarrow> mem_wf m \<Longrightarrow> mem_wf m'"
  by (simp add: same_blocks_def mem_wf_def)

lemma malloc_block_same: "malloc_block m = (ok, m') \<Longrightarrow> same_blocks m m'"
  by (auto simp: malloc_block_def same_blocks_def)

lemma malloc_arr_same: "malloc_arr n m = (a, m') \<Longrightarrow> same_blocks m m'"
  by (auto simp: malloc_arr_def same_blocks_def split: if_splits)

end
