(* ===== verification/DataC.thy ===== *)
theory DataC
  imports CMem
begin

text \<open>
  \<open>source/data.c\<close> and \<open>include/data.h\<close>: the enumerations, validation, creation,
  duplication, replacement and destruction of a \<open>struct data_t\<close>.  An \<open>enum\<close> of C is
  an unsigned 32-bit value that need not be one of its constants, so it is a word here, and the
  constants are abbreviations.  The current year is \<open>m_tm_year\<close> of the memory, plus 1900.
  A \<open>const char *\<close> parameter is the C string it points to, \<open>None\<close> for NULL.
\<close>

section \<open>The enumerations of data.h\<close>

abbreviation (input) MARCA_TOYOTA :: u32 where "MARCA_TOYOTA \<equiv> 0"
abbreviation (input) MARCA_BMW :: u32 where "MARCA_BMW \<equiv> 1"
abbreviation (input) MARCA_RENAULT :: u32 where "MARCA_RENAULT \<equiv> 2"
abbreviation (input) MARCA_AUDI :: u32 where "MARCA_AUDI \<equiv> 3"
abbreviation (input) MARCA_MERCEDES :: u32 where "MARCA_MERCEDES \<equiv> 4"

abbreviation (input) COMBUSTIVEL_GASOLINA :: u32 where "COMBUSTIVEL_GASOLINA \<equiv> 0"
abbreviation (input) COMBUSTIVEL_GASOLEO :: u32 where "COMBUSTIVEL_GASOLEO \<equiv> 1"
abbreviation (input) COMBUSTIVEL_ELETRICO :: u32 where "COMBUSTIVEL_ELETRICO \<equiv> 2"
abbreviation (input) COMBUSTIVEL_HIBRIDO :: u32 where "COMBUSTIVEL_HIBRIDO \<equiv> 3"

section \<open>The operations\<close>

definition ano_atual :: "mem \<Rightarrow> i32" where
  "ano_atual m = m_tm_year m + 1900"

definition validar_dados :: "i32 \<Rightarrow> u32 \<Rightarrow> u32 \<Rightarrow> string option \<Rightarrow> u32 \<Rightarrow> mem \<Rightarrow> bool" where
  "validar_dados ano preco marca modelo combustivel m =
     (if modelo = None then False
      else if sint ano < 1886 \<or> sint (ano_atual m) < sint ano then False
      else if float_lt_zero preco then False
      else if marca < MARCA_TOYOTA \<or> MARCA_MERCEDES < marca then False
      else if combustivel < COMBUSTIVEL_GASOLINA \<or> COMBUSTIVEL_HIBRIDO < combustivel then False
      else True)"

text \<open>
  \<open>malloc\<close> and the first four assignments are one step; the \<open>modelo\<close> field is NULL until
  the \<open>strdup\<close> is stored, and nothing reads it in between.
\<close>

definition data_create ::
  "i32 \<Rightarrow> u32 \<Rightarrow> u32 \<Rightarrow> string option \<Rightarrow> u32 \<Rightarrow> mem \<Rightarrow> (ptr \<times> mem) option" where
  "data_create ano preco marca modelo combustivel m =
     (if \<not> validar_dados ano preco marca modelo combustivel m then Some (None, m)
      else let (data, m1) = new_cell m_datas m_datas_update
                 \<lparr>d_ano = ano, d_preco = preco, d_marca = marca, d_modelo = None,
                  d_combustivel = combustivel\<rparr> m
       in if data = None then Some (None, m1)
       else do {
         (s, m2) \<leftarrow> c_strdup modelo m1;
         d \<leftarrow> deref m_datas data m2;
         m3 \<leftarrow> store m_datas m_datas_update data (d\<lparr>d_modelo := s\<rparr>) m2;
         if s = None then do {
           m4 \<leftarrow> free_cell m_datas m_datas_update data m3;
           Some (None, m4)
         } else Some (data, m3)
       })"

definition data_destroy :: "ptr \<Rightarrow> mem \<Rightarrow> (int \<times> mem) option" where
  "data_destroy data m =
     (if data = None then Some (-1, m)
      else do {
        d \<leftarrow> deref m_datas data m;
        m1 \<leftarrow> free_cell m_strs m_strs_update (d_modelo d) m;
        m2 \<leftarrow> free_cell m_datas m_datas_update data m1;
        Some (0, m2)
      })"

definition data_dup :: "ptr \<Rightarrow> mem \<Rightarrow> (ptr \<times> mem) option" where
  "data_dup data m =
     (if data = None then Some (None, m)
      else do {
        d \<leftarrow> deref m_datas data m;
        s \<leftarrow> c_string (d_modelo d) m;
        data_create (d_ano d) (d_preco d) (d_marca d) s (d_combustivel d) m
      })"

definition data_replace ::
  "ptr \<Rightarrow> i32 \<Rightarrow> u32 \<Rightarrow> u32 \<Rightarrow> string option \<Rightarrow> u32 \<Rightarrow> mem \<Rightarrow> (int \<times> mem) option" where
  "data_replace data ano preco marca modelo combustivel m =
     (if data = None then Some (-1, m)
      else if \<not> validar_dados ano preco marca modelo combustivel m then Some (-1, m)
      else do {
        (novo_modelo, m1) \<leftarrow> c_strdup modelo m;
        if novo_modelo = None then Some (-1, m1)
        else do {
          d \<leftarrow> deref m_datas data m1;
          m2 \<leftarrow> free_cell m_strs m_strs_update (d_modelo d) m1;
          m3 \<leftarrow> store m_datas m_datas_update data
                 \<lparr>d_ano = ano, d_preco = preco, d_marca = marca, d_modelo = novo_modelo,
                  d_combustivel = combustivel\<rparr> m2;
          Some (0, m3)
        }
      })"

section \<open>Abstract cars\<close>

text \<open>A car as a value, and when a block of memory holds it.\<close>

record car =
  c_ano :: i32
  c_preco :: u32
  c_marca :: u32
  c_modelo :: string
  c_combustivel :: u32

definition car_valid :: "i32 \<Rightarrow> car \<Rightarrow> bool" where
  "car_valid year c \<longleftrightarrow> 1886 \<le> sint (c_ano c) \<and> sint (c_ano c) \<le> sint year \<and>
     \<not> float_lt_zero (c_preco c) \<and> c_marca c \<le> 4 \<and> c_combustivel c \<le> 3"

definition block_of :: "car \<Rightarrow> addr \<Rightarrow> data_t" where
  "block_of c s = \<lparr>d_ano = c_ano c, d_preco = c_preco c, d_marca = c_marca c,
     d_modelo = Some s, d_combustivel = c_combustivel c\<rparr>"

lemma block_of_sel [simp]:
  "d_ano (block_of c s) = c_ano c" "d_preco (block_of c s) = c_preco c"
  "d_marca (block_of c s) = c_marca c" "d_modelo (block_of c s) = Some s"
  "d_combustivel (block_of c s) = c_combustivel c"
  by (simp_all add: block_of_def)

text \<open>The block \<open>d\<close> and its string \<open>s\<close> hold the car \<open>c\<close>.\<close>

definition car_at :: "mem \<Rightarrow> addr \<Rightarrow> addr \<Rightarrow> car \<Rightarrow> bool" where
  "car_at m d s c \<longleftrightarrow> m_datas m d = Some (block_of c s) \<and> m_strs m s = Some (c_modelo c)"

abbreviation data_create_car :: "car \<Rightarrow> mem \<Rightarrow> (ptr \<times> mem) option" where
  "data_create_car c m \<equiv>
     data_create (c_ano c) (c_preco c) (c_marca c) (Some (c_modelo c)) (c_combustivel c) m"

lemma validar_dados_car:
  "validar_dados (c_ano c) (c_preco c) (c_marca c) (Some (c_modelo c)) (c_combustivel c) m =
     car_valid (ano_atual m) c"
  by (auto simp: validar_dados_def car_valid_def not_less)

lemma validar_dados_cong:
  "m_tm_year m = m_tm_year m' \<Longrightarrow>
     validar_dados a p k s f m = validar_dados a p k s f m'"
  by (simp add: validar_dados_def ano_atual_def)

lemma ano_atual_same: "same_blocks m m' \<Longrightarrow> ano_atual m' = ano_atual m"
  by (simp add: ano_atual_def same_blocks_def)

section \<open>What the operations do\<close>

text \<open>The memory after a successful \<open>data_create\<close>: a block and its string, both fresh.\<close>

definition with_car :: "car \<Rightarrow> mem \<Rightarrow> mem" where
  "with_car c m = m\<lparr>m_datas := (m_datas m)(m_brk m \<mapsto> block_of c (Suc (m_brk m))),
     m_strs := (m_strs m)(Suc (m_brk m) \<mapsto> c_modelo c), m_brk := Suc (Suc (m_brk m))\<rparr>"

definition two_blocks_granted :: "mem \<Rightarrow> bool" where
  "two_blocks_granted m \<longleftrightarrow> m_avail m (m_brk m) \<and> m_avail m (Suc (m_brk m))"

lemma with_car_sel [simp]:
  "m_datas (with_car c m) = (m_datas m)(m_brk m \<mapsto> block_of c (Suc (m_brk m)))"
  "m_strs (with_car c m) = (m_strs m)(Suc (m_brk m) \<mapsto> c_modelo c)"
  "m_nodes (with_car c m) = m_nodes m" "m_lists (with_car c m) = m_lists m"
  "m_brk (with_car c m) = Suc (Suc (m_brk m))" "m_avail (with_car c m) = m_avail m"
  "m_tm_year (with_car c m) = m_tm_year m"
  by (simp_all add: with_car_def)

lemma data_create_ok:
  assumes "car_valid (ano_atual m) c" "two_blocks_granted m"
  shows "data_create_car c m = Some (Some (m_brk m), with_car c m)"
  using assms
  by (simp add: data_create_def validar_dados_car two_blocks_granted_def new_cell_def c_strdup_def
      deref_def store_def with_car_def block_of_def)

lemma data_create_fail:
  assumes "mem_wf m" "\<not> (car_valid (ano_atual m) c \<and> two_blocks_granted m)"
  obtains m' where "data_create_car c m = Some (None, m')" "same_blocks m m'"
proof (cases "car_valid (ano_atual m) c \<and> m_avail m (m_brk m)")
  case True
  with assms have "\<not> m_avail m (Suc (m_brk m))" by (simp add: two_blocks_granted_def)
  moreover have "(m_datas m)(m_brk m := None) = m_datas m"
    using mem_wf_fresh[OF assms(1), of "m_brk m"] by (simp add: fun_upd_idem)
  ultimately show ?thesis using True that
    by (simp add: data_create_def validar_dados_car new_cell_def c_strdup_def deref_def store_def
        free_cell_def same_blocks_def)
next
  case False
  then consider "\<not> car_valid (ano_atual m) c"
    | "car_valid (ano_atual m) c" "\<not> m_avail m (m_brk m)" by blast
  then show ?thesis
  proof cases
    case 1
    then show ?thesis using that[of m] by (simp add: data_create_def validar_dados_car)
  next
    case 2
    then show ?thesis using that[of "m\<lparr>m_brk := Suc (m_brk m)\<rparr>"]
      by (simp add: data_create_def validar_dados_car new_cell_def same_blocks_def)
  qed
qed

lemma mem_wf_with_car: "mem_wf m \<Longrightarrow> mem_wf (with_car c m)"
  by (auto simp: mem_wf_def)

lemma car_at_with_car: "car_at (with_car c m) (m_brk m) (Suc (m_brk m)) c"
  by (simp add: car_at_def)

lemma data_destroy_car_at:
  assumes "car_at m d s c"
  shows "data_destroy (Some d) m =
    Some (0, m\<lparr>m_strs := (m_strs m)(s := None), m_datas := (m_datas m)(d := None)\<rparr>)"
  using assms by (simp add: data_destroy_def car_at_def deref_def free_cell_def)

lemma data_dup_car_at:
  assumes "car_at m d s c"
  shows "data_dup (Some d) m = data_create_car c m"
  using assms by (simp add: data_dup_def car_at_def deref_def c_string_def)

text \<open>Destroying the car just created gives the blocks of the memory before.\<close>

lemma destroy_with_car:
  assumes "mem_wf m"
  obtains m' where "data_destroy (Some (m_brk m)) (with_car c m) = Some (0, m')" "same_blocks m m'"
proof -
  have "(m_datas m)(m_brk m := None) = m_datas m" "(m_strs m)(Suc (m_brk m) := None) = m_strs m"
    using mem_wf_fresh[OF assms] by (simp_all add: fun_upd_idem)
  then show ?thesis using that
    by (simp add: data_destroy_car_at[OF car_at_with_car] same_blocks_def)
qed

section \<open>Properties\<close>

text \<open>A year 2025 memory and two cars, for concrete runs.\<close>

definition demo_mem :: mem where
  "demo_mem = empty_mem 125"

definition yaris :: car where
  "yaris = \<lparr>c_ano = 2020, c_preco = 0x461C4000, c_marca = 0, c_modelo = ''Yaris'', c_combustivel = 3\<rparr>"

definition m3 :: car where
  "m3 = \<lparr>c_ano = 1999, c_preco = 0x469C4000, c_marca = 1, c_modelo = ''M3'', c_combustivel = 0\<rparr>"

lemma demo_mem_simps [simp]:
  "mem_wf demo_mem" "m_brk demo_mem = 0" "m_avail demo_mem n" "m_datas demo_mem = Map.empty"
  "m_strs demo_mem = Map.empty" "m_nodes demo_mem = Map.empty" "m_lists demo_mem = Map.empty"
  "ano_atual demo_mem = 2025" "two_blocks_granted demo_mem" "m_tm_year demo_mem = 125"
  by (simp_all add: demo_mem_def) (simp_all add: empty_mem_def ano_atual_def two_blocks_granted_def)

lemma demo_car_sel [simp]:
  "c_modelo yaris = ''Yaris''" "c_marca yaris = 0" "c_ano yaris = 2020"
  "c_modelo m3 = ''M3''" "c_marca m3 = 1" "c_ano m3 = 1999"
  by (simp_all add: yaris_def m3_def)

lemma yaris_valid [simp]: "car_valid 2025 yaris"
  by (simp add: car_valid_def yaris_def float_lt_zero_def)

lemma m3_valid [simp]: "car_valid 2025 m3"
  by (simp add: car_valid_def m3_def float_lt_zero_def)

text \<open>\<open>data_create\<close> never goes wrong, whatever its arguments and the allocator.  It
  returns a block exactly when the model is not NULL, the data is valid for the current year and
  both allocations succeed; the block and its own copy of the model then hold the data and
  nothing else changes; otherwise it returns NULL and leaves no block behind.\<close>

theorem data_create_spec:
  assumes "mem_wf m"
  shows "\<exists>r m'. data_create ano preco marca modelo combustivel m = Some (r, m') \<and> mem_wf m' \<and>
    (case modelo of
       None \<Rightarrow> r = None \<and> m' = m
     | Some s \<Rightarrow>
         let c = \<lparr>c_ano = ano, c_preco = preco, c_marca = marca, c_modelo = s, c_combustivel = combustivel\<rparr>
         in if car_valid (ano_atual m) c \<and> two_blocks_granted m
            then r = Some (m_brk m) \<and> car_at m' (m_brk m) (Suc (m_brk m)) c \<and>
              m_datas m' = (m_datas m)(m_brk m \<mapsto> block_of c (Suc (m_brk m))) \<and>
              m_strs m' = (m_strs m)(Suc (m_brk m) \<mapsto> s) \<and> m_nodes m' = m_nodes m \<and> m_lists m' = m_lists m
            else r = None \<and> same_blocks m m')"
proof (cases modelo)
  case None
  with assms show ?thesis by (simp add: data_create_def validar_dados_def)
next
  case (Some s)
  let ?c = "\<lparr>c_ano = ano, c_preco = preco, c_marca = marca, c_modelo = s, c_combustivel = combustivel\<rparr>"
  show ?thesis
  proof (cases "car_valid (ano_atual m) ?c \<and> two_blocks_granted m")
    case True
    with Some data_create_ok[of m ?c] car_at_with_car mem_wf_with_car[OF assms] show ?thesis
      by (simp add: Let_def)
  next
    case False
    with Some data_create_fail[OF assms False] show ?thesis
      by (auto simp: Let_def intro: same_blocks_wf[OF _ assms])
  qed
qed

theorem data_create_spec_witness:
  "mem_wf demo_mem \<and> (\<exists>m'. data_create 2020 0x461C4000 0 (Some ''Yaris'') 3 demo_mem = Some (Some 0, m') \<and>
     car_at m' 0 1 yaris)"
  using data_create_spec[of demo_mem 2020 "0x461C4000" 0 "Some ''Yaris''" 3] yaris_valid
  by (auto simp: yaris_def Let_def)

text \<open>A car that \<open>data_create\<close> returned is destroyed by \<open>data_destroy\<close> without leaving
  a block behind, and destroying it a second time is undefined.\<close>

theorem data_create_destroy:
  assumes "mem_wf m" "data_create ano preco marca modelo combustivel m = Some (Some d, m1)"
  shows "\<exists>m2. data_destroy (Some d) m1 = Some (0, m2) \<and> same_blocks m m2 \<and>
    data_destroy (Some d) m2 = None"
proof -
  obtain s where s: "modelo = Some s"
    using assms(2) by (cases modelo) (auto simp: data_create_def validar_dados_def)
  let ?c = "\<lparr>c_ano = ano, c_preco = preco, c_marca = marca, c_modelo = s, c_combustivel = combustivel\<rparr>"
  have "car_valid (ano_atual m) ?c \<and> two_blocks_granted m"
    using assms s data_create_fail[OF assms(1), of ?c] by (rule_tac ccontr) auto
  then have "d = m_brk m" "m1 = with_car ?c m"
    using assms(2) s data_create_ok[of m ?c] by auto
  moreover obtain m2 where "data_destroy (Some (m_brk m)) (with_car ?c m) = Some (0, m2)" "same_blocks m m2"
    by (rule destroy_with_car[OF assms(1)])
  moreover have "data_destroy (Some (m_brk m)) m2 = None"
    using \<open>same_blocks m m2\<close> mem_wf_fresh[OF assms(1), of "m_brk m"]
    by (simp add: data_destroy_def deref_def same_blocks_def)
  ultimately show ?thesis by blast
qed

theorem data_create_destroy_witness:
  "\<exists>m2. data_destroy (Some 0) (with_car yaris demo_mem) = Some (0, m2) \<and> same_blocks demo_mem m2"
  using data_create_destroy[of demo_mem "c_ano yaris" "c_preco yaris" "c_marca yaris"
      "Some (c_modelo yaris)" "c_combustivel yaris" 0 "with_car yaris demo_mem"]
    data_create_ok[of demo_mem yaris]
  by auto

text \<open>C36: \<open>data_replace\<close> is all or nothing.  On success the block holds the new car with a
  fresh copy of the model and the old string is gone; on any failure (invalid data or no memory)
  it returns -1 and every block is as before.\<close>

theorem data_replace_atomic:
  assumes "mem_wf m" "car_at m d s c"
  shows "\<exists>r m'. data_replace (Some d) (c_ano c') (c_preco c') (c_marca c') (Some (c_modelo c'))
      (c_combustivel c') m = Some (r, m') \<and>
    (if car_valid (ano_atual m) c' \<and> m_avail m (m_brk m)
     then r = 0 \<and> car_at m' d (m_brk m) c' \<and> m_strs m' s = None \<and>
       m_datas m' = (m_datas m)(d \<mapsto> block_of c' (m_brk m)) \<and>
       m_strs m' = (m_strs m)(m_brk m \<mapsto> c_modelo c', s := None)
     else r = -1 \<and> same_blocks m m')"
proof -
  have "s \<noteq> m_brk m" "d < m_brk m"
    using mem_wf_live[OF assms(1)] assms(2) by (auto simp: car_at_def)
  with assms(2) show ?thesis
    by (auto simp: data_replace_def validar_dados_car c_strdup_def new_cell_def deref_def car_at_def
        free_cell_def store_def same_blocks_def block_of_def)
qed

theorem data_replace_atomic_witness:
  "\<exists>m'. data_replace (Some 0) (c_ano m3) (c_preco m3) (c_marca m3) (Some (c_modelo m3))
      (c_combustivel m3) (with_car yaris demo_mem) = Some (0, m') \<and> car_at m' 0 2 m3"
proof -
  have "ano_atual (with_car yaris demo_mem) = 2025" by (simp add: ano_atual_def)
  then show ?thesis
    using data_replace_atomic[of "with_car yaris demo_mem" 0 "Suc 0" yaris m3]
      mem_wf_with_car[of demo_mem yaris] car_at_with_car[of yaris demo_mem]
    by (auto simp: numeral_2_eq_2)
qed

end
