(* ===== verification/Message.thy ===== *)
theory Message
  imports DataC
begin

text \<open>
  The messages of \<open>sdmessage.proto\<close> as the generated header \<open>include/sdmessage.pb-c.h\<close>
  declares them: the opcode and content-type constants, \<open>Data\<close>, \<open>MessageT\<close> and their
  initial values.  Memory that a message owns is a value here: a \<open>char *\<close> is its string or
  \<open>None\<close> for NULL, a \<open>Data *\<close> is the structure or \<open>None\<close>, and a repeated field is
  an array (\<open>None\<close> for NULL) with its length in a field of its own, as in C.
\<close>

section \<open>Opcodes and content types\<close>

text \<open>An enumeration of protobuf-c has the size of an \<open>int\<close>, so \<open>opcode += 1\<close> is word arithmetic.\<close>

abbreviation (input) OP_BAD :: u32 where "OP_BAD \<equiv> 0"
abbreviation (input) OP_ADD :: u32 where "OP_ADD \<equiv> 10"
abbreviation (input) OP_GET :: u32 where "OP_GET \<equiv> 20"
abbreviation (input) OP_DEL :: u32 where "OP_DEL \<equiv> 30"
abbreviation (input) OP_SIZE :: u32 where "OP_SIZE \<equiv> 40"
abbreviation (input) OP_GETMODELS :: u32 where "OP_GETMODELS \<equiv> 50"
abbreviation (input) OP_GETLISTBYTEAR :: u32 where "OP_GETLISTBYTEAR \<equiv> 60"
abbreviation (input) OP_ORDER :: u32 where "OP_ORDER \<equiv> 70"
abbreviation (input) OP_ERROR :: u32 where "OP_ERROR \<equiv> 99"
abbreviation (input) OP_BUSY :: u32 where "OP_BUSY \<equiv> 100"
abbreviation (input) OP_READY :: u32 where "OP_READY \<equiv> 101"

abbreviation (input) CT_BAD :: u32 where "CT_BAD \<equiv> 0"
abbreviation (input) CT_DATA :: u32 where "CT_DATA \<equiv> 10"
abbreviation (input) CT_MARCA :: u32 where "CT_MARCA \<equiv> 20"
abbreviation (input) CT_YEAR :: u32 where "CT_YEAR \<equiv> 30"
abbreviation (input) CT_MODEL :: u32 where "CT_MODEL \<equiv> 40"
abbreviation (input) CT_RESULT :: u32 where "CT_RESULT \<equiv> 50"
abbreviation (input) CT_LIST :: u32 where "CT_LIST \<equiv> 60"
abbreviation (input) CT_NONE :: u32 where "CT_NONE \<equiv> 70"

section \<open>Messages\<close>

record pdata =
  p_ano :: i32
  p_preco :: u32
  p_marca :: u32
  p_modelo :: "string option"
  p_combustivel :: u32

record MessageT =
  msg_opcode :: u32
  msg_c_type :: u32
  msg_data :: "pdata option"
  msg_result :: i32
  msg_n_models :: nat
  msg_models :: "string option arr option"
  msg_n_cars :: nat
  msg_cars :: "pdata option arr option"

definition data_init :: pdata where
  "data_init = \<lparr>p_ano = 0, p_preco = 0, p_marca = 0, p_modelo = Some '''', p_combustivel = 0\<rparr>"

definition message_t_init :: MessageT where
  "message_t_init = \<lparr>msg_opcode = OP_BAD, msg_c_type = CT_BAD, msg_data = None, msg_result = 0,
     msg_n_models = 0, msg_models = None, msg_n_cars = 0, msg_cars = None\<rparr>"

text \<open>The protobuf form of a car.\<close>

definition pdata_of :: "car \<Rightarrow> pdata" where
  "pdata_of c = \<lparr>p_ano = c_ano c, p_preco = c_preco c, p_marca = c_marca c,
     p_modelo = Some (c_modelo c), p_combustivel = c_combustivel c\<rparr>"

definition car_of :: "pdata \<Rightarrow> string \<Rightarrow> car" where
  "car_of d s = \<lparr>c_ano = p_ano d, c_preco = p_preco d, c_marca = p_marca d, c_modelo = s,
     c_combustivel = p_combustivel d\<rparr>"

lemma pdata_of_sel [simp]:
  "p_ano (pdata_of c) = c_ano c" "p_preco (pdata_of c) = c_preco c"
  "p_marca (pdata_of c) = c_marca c" "p_modelo (pdata_of c) = Some (c_modelo c)"
  "p_combustivel (pdata_of c) = c_combustivel c"
  by (simp_all add: pdata_of_def)

lemma car_of_sel [simp]:
  "c_ano (car_of d s) = p_ano d" "c_preco (car_of d s) = p_preco d"
  "c_marca (car_of d s) = p_marca d" "c_modelo (car_of d s) = s"
  "c_combustivel (car_of d s) = p_combustivel d"
  by (simp_all add: car_of_def)

lemma car_of_pdata_of [simp]: "car_of (pdata_of c) (c_modelo c) = c"
  by (simp add: car_of_def)

end
