(* ===== verification/NetFrame.thy ===== *)
theory NetFrame
  imports NetIO Message
begin

text \<open>
  The framing of messages: \<open>network_receive\<close> and \<open>network_send\<close> of
  \<open>source/network_server.c\<close>, and \<open>network_connect\<close>, \<open>network_send_receive\<close> and
  \<open>network_close\<close> of \<open>source/network_client.c\<close>.  A frame is the length of the message in two
  bytes, most significant first, and the packed message.  Packing is the generated code over the
  protobuf-c library, so it is a parameter of the model (\<open>codec\<close>): packing may be undefined
  (\<open>None\<close>, e.g. a repeated field that is NULL) and unpacking may fail.
\<close>

section \<open>The codec and the frame\<close>

record codec =
  cd_pack :: "MessageT \<Rightarrow> byte list option"
  cd_unpack :: "byte list \<Rightarrow> MessageT option"

text \<open>The bytes in memory of \<open>htons (n)\<close>, and \<open>ntohs\<close> of two bytes in memory.\<close>

definition htons_bytes :: "nat \<Rightarrow> byte list" where
  "htons_bytes n = [of_nat (n div 256), of_nat n]"

definition ntohs_bytes :: "byte list \<Rightarrow> nat" where
  "ntohs_bytes bs = unat (bs ! 0) * 256 + unat (bs ! 1)"

definition frame :: "byte list \<Rightarrow> byte list" where
  "frame bs = htons_bytes (length bs) @ bs"

lemma htons_length [simp]: "length (htons_bytes n) = 2"
  by (simp add: htons_bytes_def)

lemma ntohs_htons: "n < 65536 \<Longrightarrow> ntohs_bytes (htons_bytes n) = n"
  by (simp add: ntohs_bytes_def htons_bytes_def unat_of_nat div_mult_mod_eq)

text \<open>All cells of a buffer; reading one that is not set is undefined.\<close>

definition arr_all :: "'a arr \<Rightarrow> 'a list option" where
  "arr_all a = those a"

lemma arr_all_filled [simp]: "arr_all (map Some xs) = Some xs"
  unfolding arr_all_def by (induction xs) simp_all

section \<open>Sending and receiving\<close>

text \<open>
  The four steps that \<open>network_receive\<close>, \<open>network_connect\<close> and \<open>network_send_receive\<close>
  share: read the length, reject zero, allocate the buffer, read and unpack the message.
\<close>

datatype received = NoFrame | NoMemory | Unpacked "MessageT option"

definition receive_frame :: "codec \<Rightarrow> conn \<Rightarrow> mem \<Rightarrow> (received \<times> conn \<times> mem) option" where
  "receive_frame cd s m = do {
     (r, net_len, s1) \<leftarrow> read_all [None, None] 2 s;
     if r \<noteq> 2 then Some (NoFrame, s1, m)
     else do {
       net_len \<leftarrow> arr_all net_len;
       let len = ntohs_bytes net_len;
       if len = 0 then Some (NoFrame, s1, m)
       else let (granted, m1) = malloc_block m
         in if \<not> granted then Some (NoMemory, s1, m1)
         else do {
           (r, buffer, s2) \<leftarrow> read_all (replicate len None) (int len) s1;
           if r \<noteq> int len then Some (NoFrame, s2, m1)
           else do {
             buffer \<leftarrow> arr_all buffer;
             Some (Unpacked (cd_unpack cd buffer), s2, m1)
           }
         }
     }
   }"

definition network_receive :: "codec \<Rightarrow> conn \<Rightarrow> mem \<Rightarrow> (MessageT option \<times> conn \<times> mem) option" where
  "network_receive cd s m = do {
     (r, s1, m1) \<leftarrow> receive_frame cd s m;
     Some (case r of Unpacked msg \<Rightarrow> msg | NoFrame \<Rightarrow> None | NoMemory \<Rightarrow> None, s1, m1)
   }"

definition network_send :: "codec \<Rightarrow> MessageT \<Rightarrow> conn \<Rightarrow> mem \<Rightarrow> (int \<times> conn \<times> mem) option" where
  "network_send cd msg s m = do {
     packed \<leftarrow> cd_pack cd msg;
     let len = length packed;
     if len = 0 \<or> 0xFFFF < len then Some (-1, s, m)
     else let (granted, m1) = malloc_block m
       in if \<not> granted then Some (-1, s, m1)
       else do {
         (r, s1) \<leftarrow> write_all (htons_bytes len) 2 s;
         if r \<noteq> 2 then Some (-1, s1, m1)
         else do {
           (r, s2) \<leftarrow> write_all packed (int len) s1;
           if r \<noteq> int len then Some (-1, s2, m1) else Some (0, s2, m1)
         }
       }
   }"

section \<open>The client side\<close>

record rlist_t =
  server_address :: string
  server_port :: i32
  sockfd :: i32

definition network_send_receive ::
  "codec \<Rightarrow> rlist_t option \<Rightarrow> MessageT option \<Rightarrow> conn \<Rightarrow> mem \<Rightarrow> (MessageT option \<times> conn \<times> mem) option" where
  "network_send_receive cd rlist msg s m =
     (case (rlist, msg) of
        (Some rl, Some msg) \<Rightarrow>
          if sint (sockfd rl) < 0 then Some (None, s, m)
          else do {
            packed \<leftarrow> cd_pack cd msg;
            let len = length packed;
            if len = 0 then Some (None, s, m)
            else let (granted, m1) = malloc_block m
              in if \<not> granted then Some (None, s, m1)
              else if 0xFFFF < len then Some (None, s, m1)
              else do {
                (r, s1) \<leftarrow> write_all (htons_bytes len) 2 s;
                if r \<noteq> 2 then Some (None, s1, m1)
                else do {
                  (r, s2) \<leftarrow> write_all packed (int len) s1;
                  if r \<noteq> int len then Some (None, s2, m1)
                  else network_receive cd s2 m1
                }
              }
          }
      | _ \<Rightarrow> Some (None, s, m))"

text \<open>
  What the operating system answers to \<open>socket\<close>, \<open>inet_pton\<close> and \<open>connect\<close>; the port
  is the 16 bits that \<open>htons\<close> keeps.
\<close>

record dialer =
  dial_socket :: i32
  dial_pton :: "string \<Rightarrow> int"
  dial_connect :: "string \<Rightarrow> 16 word \<Rightarrow> int"

definition network_connect ::
  "codec \<Rightarrow> dialer \<Rightarrow> rlist_t option \<Rightarrow> conn \<Rightarrow> mem \<Rightarrow> (int \<times> rlist_t option \<times> conn \<times> mem) option" where
  "network_connect cd os rlist s m =
     (case rlist of
        None \<Rightarrow> Some (-1, None, s, m)
      | Some rl \<Rightarrow>
          if sint (dial_socket os) < 0 then Some (-1, Some rl, s, m)
          else let s1 = s\<lparr>k_open := True\<rparr>
          in if dial_pton os (server_address rl) < 1 then Some (-1, Some rl, snd (sys_close s1), m)
          else if dial_connect os (server_address rl) (ucast (server_port rl)) < 0
          then Some (-1, Some rl, snd (sys_close s1), m)
          else do {
            let rl = rl\<lparr>sockfd := dial_socket os\<rparr>;
            (r, s2, m1) \<leftarrow> receive_frame cd s1 m;
            Some (case r of
                NoFrame \<Rightarrow> (-1, Some rl, s2, m1)
              | NoMemory \<Rightarrow> (0, Some rl, s2, m1)
              | Unpacked None \<Rightarrow> (-1, Some rl, s2, m1)
              | Unpacked (Some resp) \<Rightarrow>
                  if msg_opcode resp = OP_BUSY then
                    (let (rl, s3) = (if sint (sockfd rl) \<ge> 0
                                     then (rl\<lparr>sockfd := -1\<rparr>, snd (sys_close s2)) else (rl, s2))
                     in (-1, Some rl, s3\<lparr>k_errno := EBUSY\<rparr>, m1))
                  else if msg_opcode resp = OP_READY then (0, Some rl, s2, m1)
                  else (-1, Some rl, s2, m1))
          })"

definition network_close :: "rlist_t option \<Rightarrow> conn \<Rightarrow> int \<times> rlist_t option \<times> conn" where
  "network_close rlist s =
     (case rlist of
        None \<Rightarrow> (-1, None, s)
      | Some rl \<Rightarrow>
          if sint (sockfd rl) \<ge> 0 then
            (let (r, s1) = sys_close s
             in if r < 0 then (-1, Some (rl\<lparr>sockfd := -1\<rparr>), s1) else (0, Some (rl\<lparr>sockfd := -1\<rparr>), s1))
          else (0, Some rl, s))"

section \<open>The network leaves the blocks of the program alone\<close>

lemma receive_frame_same: "receive_frame cd s m = Some (r, s', m') \<Longrightarrow> same_blocks m m'"
  by (auto simp: receive_frame_def malloc_block_def same_blocks_def Let_def bind_eq_Some_conv
      split: if_splits)

lemma network_receive_same: "network_receive cd s m = Some (r, s', m') \<Longrightarrow> same_blocks m m'"
  by (auto simp: network_receive_def bind_eq_Some_conv dest: receive_frame_same)

lemma network_send_receive_same:
  assumes "network_send_receive cd rl msg s m = Some (r, s', m')"
  shows "same_blocks m m'"
proof -
  have "same_blocks (m\<lparr>m_brk := Suc (m_brk m)\<rparr>) m' \<Longrightarrow> same_blocks m m'"
    by (auto simp: same_blocks_def)
  then show ?thesis using assms
    by (auto simp: network_send_receive_def malloc_block_def Let_def bind_eq_Some_conv
        split: option.splits if_splits dest: network_receive_same)
qed

lemma network_send_same: "network_send cd msg s m = Some (r, s', m') \<Longrightarrow> same_blocks m m'"
  by (auto simp: network_send_def malloc_block_def same_blocks_def Let_def bind_eq_Some_conv
      split: if_splits)

lemma network_connect_same:
  assumes "network_connect cd os rl s m = Some (r, rl', s', m')"
  shows "same_blocks m m'"
proof -
  have "m' = m \<or> (\<exists>s1 q s2. receive_frame cd s1 m = Some (q, s2, m'))"
  proof (cases "\<exists>q s2 m1. receive_frame cd (s\<lparr>k_open := True\<rparr>) m = Some (q, s2, m1)")
    case True
    then obtain q s2 m1 where recv: "receive_frame cd (s\<lparr>k_open := True\<rparr>) m = Some (q, s2, m1)" by blast
    have "m' = m \<or> m' = m1"
    proof (cases q)
      case (Unpacked resp)
      with recv assms show ?thesis
        by (cases resp) (auto simp: network_connect_def Let_def split: option.splits if_splits)
    qed (use recv assms in \<open>auto simp: network_connect_def Let_def split: option.splits if_splits\<close>)
    with recv show ?thesis by blast
  next
    case False
    with assms show ?thesis
      by (auto simp: network_connect_def Let_def bind_eq_Some_conv split: option.splits if_splits)
  qed
  then show ?thesis using receive_frame_same by auto
qed

text \<open>Receiving writes nothing, and sending writes the frame unless it fails.\<close>

lemma network_receive_out: "network_receive cd s m = Some (r, s', m') \<Longrightarrow> k_out s' = k_out s"
  by (auto simp: network_receive_def receive_frame_def read_all_def malloc_block_def Let_def bind_eq_Some_conv
      dest!: read_loop_out split: if_splits)

lemma network_send_out:
  assumes "network_send cd msg s m = Some (r, s', m')" "\<not> r < 0"
  shows "\<exists>bs. cd_pack cd msg = Some bs \<and> k_out s' = k_out s @ frame bs"
proof -
  obtain bs where "cd_pack cd msg = Some bs" using assms(1) by (auto simp: network_send_def bind_eq_Some_conv)
  with assms write_all_out[of "htons_bytes (length bs)" s 2] write_all_out[of bs] show ?thesis
    by (auto simp: network_send_def malloc_block_def frame_def Let_def bind_eq_Some_conv split: if_splits)
qed

section \<open>Frames on the wire\<close>

text \<open>A message the codec packs to bytes that fit a frame, and unpacks again.\<close>

definition packs :: "codec \<Rightarrow> MessageT \<Rightarrow> byte list \<Rightarrow> bool" where
  "packs cd msg bs \<longleftrightarrow> cd_pack cd msg = Some bs \<and> 0 < length bs \<and> length bs \<le> 0xFFFF"

lemma network_send_ok:
  assumes "packs cd msg bs" "has_room s (length (frame bs) + n)" "m_avail m (m_brk m)"
  obtains s' where "network_send cd msg s m = Some (0, s', m\<lparr>m_brk := Suc (m_brk m)\<rparr>)"
    "k_out s' = k_out s @ frame bs" "has_room s' n" "k_in s' = k_in s" "k_open s' = k_open s"
proof -
  have "has_room s (length (htons_bytes (length bs)) + (length bs + n))"
    using assms(2) by (simp add: frame_def)
  from write_all_has_room[OF this] obtain s1 where
    one: "write_all (htons_bytes (length bs)) 2 s = Some (2, s1)"
      "k_out s1 = k_out s @ htons_bytes (length bs)" "has_room s1 (length bs + n)"
      "k_in s1 = k_in s" "k_open s1 = k_open s" by auto
  from write_all_has_room[OF one(3)] obtain s2 where
    "write_all bs (int (length bs)) s1 = Some (int (length bs), s2)"
    "k_out s2 = k_out s1 @ bs" "has_room s2 n" "k_in s2 = k_in s1" "k_open s2 = k_open s1" by blast
  with one assms(1,3) show ?thesis
    by (intro that[of s2]) (simp_all add: network_send_def packs_def malloc_block_def frame_def)
qed

lemma receive_frame_ok:
  assumes "incoming s (frame bs @ after) rest" "0 < length bs" "length bs \<le> 0xFFFF"
  shows "\<exists>s'. receive_frame cd s m =
      Some (if m_avail m (m_brk m) then Unpacked (cd_unpack cd bs) else NoMemory, s',
            m\<lparr>m_brk := Suc (m_brk m)\<rparr>) \<and>
    (if m_avail m (m_brk m) then incoming s' after rest else incoming s' (bs @ after) rest) \<and>
    k_out s' = k_out s \<and> k_room s' = k_room s \<and> k_open s' = k_open s"
proof -
  have two: "replicate 2 None = [None, None]" by (simp add: numeral_2_eq_2)
  have "2 \<le> length (frame bs @ after)" by (simp add: frame_def)
  moreover have hdr: "take 2 (frame bs @ after) = htons_bytes (length bs)"
    "drop 2 (frame bs @ after) = bs @ after"
    by (simp_all add: frame_def htons_bytes_def)
  ultimately obtain s1 where
    one: "read_all [None, None] 2 s = Some (2, map Some (htons_bytes (length bs)), s1)"
    and in1: "incoming s1 (bs @ after) rest"
    and same: "k_out s1 = k_out s" "k_room s1 = k_room s" "k_open s1 = k_open s"
    using read_all_incoming[OF assms(1), of 2, unfolded two hdr] by auto
  have len: "ntohs_bytes (htons_bytes (length bs)) = length bs" using assms(3) by (simp add: ntohs_htons)
  from read_all_incoming[OF in1, of "length bs"] obtain s2 where
    "read_all (replicate (length bs) None) (int (length bs)) s1 = Some (int (length bs), map Some bs, s2)"
    "incoming s2 after rest" "k_out s2 = k_out s1" "k_room s2 = k_room s1" "k_open s2 = k_open s1" by auto
  with one in1 same len assms(2) show ?thesis
    by (auto simp: receive_frame_def malloc_block_def)
qed

lemma network_receive_ok:
  assumes "incoming s (frame bs @ after) rest" "0 < length bs" "length bs \<le> 0xFFFF" "m_avail m (m_brk m)"
  obtains s' where "network_receive cd s m = Some (cd_unpack cd bs, s', m\<lparr>m_brk := Suc (m_brk m)\<rparr>)"
    "incoming s' after rest" "k_out s' = k_out s" "k_room s' = k_room s"
  using receive_frame_ok[OF assms(1-3), of cd m] assms(4) by (auto simp: network_receive_def)

lemma network_send_receive_ok:
  assumes "0 \<le> sint (sockfd rl)" "packs cd req bq" "has_room s (length (frame bq) + n)"
    and "incoming s (frame br @ after) rest" "0 < length br" "length br \<le> 0xFFFF"
    and "m_avail m (m_brk m)" "m_avail m (Suc (m_brk m))"
  obtains s' where "network_send_receive cd (Some rl) (Some req) s m =
      Some (cd_unpack cd br, s', m\<lparr>m_brk := m_brk m + 2\<rparr>)"
    "k_out s' = k_out s @ frame bq" "incoming s' after rest" "has_room s' n"
proof -
  let ?m = "m\<lparr>m_brk := Suc (m_brk m)\<rparr>"
  obtain s1 where send: "network_send cd req s m = Some (0, s1, ?m)" "k_out s1 = k_out s @ frame bq"
    "has_room s1 n" "k_in s1 = k_in s"
    using network_send_ok[OF assms(2,3,7)] by metis
  have "incoming s1 (frame br @ after) rest" using assms(4) send(4) by (simp add: incoming_cong[of s1 s])
  from network_receive_ok[OF this assms(5,6), of ?m cd] assms(8) obtain s2 where
    recv: "network_receive cd s1 ?m = Some (cd_unpack cd br, s2, m\<lparr>m_brk := m_brk m + 2\<rparr>)"
    "incoming s2 after rest" "k_out s2 = k_out s1" "k_room s2 = k_room s1" by auto
  have "network_send_receive cd (Some rl) (Some req) s m = network_receive cd s1 ?m"
    using send(1) assms(1,2)
    by (auto simp: network_send_receive_def network_send_def packs_def malloc_block_def Let_def
        bind_eq_Some_conv split: if_splits)
  with send recv show ?thesis by (intro that[of s2]) (simp_all add: has_room_cong[of s2 s1])
qed

section \<open>Properties\<close>

text \<open>A codec that keeps the opcode and content type of a message, and a memory for the buffers.\<close>

definition demo_codec :: codec where
  "demo_codec = \<lparr>cd_pack = (\<lambda>msg. Some [ucast (msg_opcode msg), ucast (msg_c_type msg)]),
     cd_unpack = (\<lambda>bs. if length bs = 2 then Some (message_t_init\<lparr>msg_opcode := ucast (bs ! 0),
                                                                  msg_c_type := ucast (bs ! 1)\<rparr>) else None)\<rparr>"

definition demo_msg :: "u32 \<Rightarrow> MessageT" where
  "demo_msg op = message_t_init\<lparr>msg_opcode := op, msg_c_type := CT_NONE\<rparr>"

definition chunk_conn :: "byte list \<Rightarrow> conn" where
  "chunk_conn bs = \<lparr>k_in = map (\<lambda>b. Recv [b]) bs, k_room = [Room 1000], k_out = [], k_errno = 0, k_open = True\<rparr>"

lemma chunk_conn_incoming [simp]: "incoming (chunk_conn bs) bs []"
proof -
  have "in_bytes (map (\<lambda>b. Recv [b]) bs) = bs" by (induction bs) simp_all
  then show ?thesis
    by (auto simp: incoming_def chunk_conn_def list_all_iff intro!: exI[of _ "map (\<lambda>b. Recv [b]) bs"])
qed

lemma chunk_conn_room: "n \<le> 1000 \<Longrightarrow> has_room (chunk_conn bs) n"
  unfolding has_room_def chunk_conn_def
  by (rule exI[of _ "[Room 1000]"], rule exI[of _ "[]"]) simp

lemma chunk_conn_sel [simp]: "k_out (chunk_conn bs) = []" "k_open (chunk_conn bs)"
  by (simp_all add: chunk_conn_def)

lemma demo_codec_simps [simp]:
  "packs demo_codec (demo_msg op) [ucast op, 70]"
  "cd_unpack demo_codec [a, b] = Some (message_t_init\<lparr>msg_opcode := ucast a, msg_c_type := ucast b\<rparr>)"
  by (simp_all add: packs_def demo_codec_def demo_msg_def)

lemma frame_pair: "frame [a, b] = [0, 2, a, b]"
  by (simp add: frame_def htons_bytes_def)

text \<open>C17: what one side sends, the other receives.  \<open>network_send\<close> of a message of 1 to 65535
  packed bytes appends exactly its frame to the output; a peer that finds these bytes next on its
  connection, in any chunks, gets from \<open>network_receive\<close> the same message and the bytes behind the
  frame stay for the next one.\<close>

theorem frame_round_trip:
  assumes "packs cd msg bs" "cd_unpack cd bs = Some msg"
    and "has_room s (length (frame bs))" "m_avail m (m_brk m)"
  shows "\<exists>s'. network_send cd msg s m = Some (0, s', m\<lparr>m_brk := Suc (m_brk m)\<rparr>) \<and>
    k_out s' = k_out s @ frame bs \<and>
    (\<forall>p after rest m'. incoming p (frame bs @ after) rest \<longrightarrow> m_avail m' (m_brk m') \<longrightarrow>
      (\<exists>p'. network_receive cd p m' = Some (Some msg, p', m'\<lparr>m_brk := Suc (m_brk m')\<rparr>) \<and>
        incoming p' after rest))"
proof -
  have "has_room s (length (frame bs) + 0)" using assms(3) by simp
  then obtain s' where "network_send cd msg s m = Some (0, s', m\<lparr>m_brk := Suc (m_brk m)\<rparr>)"
    "k_out s' = k_out s @ frame bs"
    using network_send_ok[OF assms(1) _ assms(4)] by metis
  moreover have "\<exists>p'. network_receive cd p m' = Some (Some msg, p', m'\<lparr>m_brk := Suc (m_brk m')\<rparr>) \<and>
      incoming p' after rest"
    if "incoming p (frame bs @ after) rest" "m_avail m' (m_brk m')" for p after rest m'
    using network_receive_ok[OF that(1) _ _ that(2), of cd] assms(1,2) by (metis packs_def)
  ultimately show ?thesis by blast
qed

theorem frame_round_trip_witness:
  "\<exists>s' p'. network_send demo_codec (demo_msg OP_SIZE) (chunk_conn []) demo_mem =
       Some (0, s', demo_mem\<lparr>m_brk := 1\<rparr>) \<and> k_out s' = [0, 2, 40, 70] \<and>
     network_receive demo_codec (chunk_conn [0, 2, 40, 70]) demo_mem =
       Some (Some (demo_msg OP_SIZE), p', demo_mem\<lparr>m_brk := 1\<rparr>)"
proof -
  have "packs demo_codec (demo_msg OP_SIZE) [40, 70]" "cd_unpack demo_codec [40, 70] = Some (demo_msg OP_SIZE)"
    using demo_codec_simps(1)[of OP_SIZE] by (simp_all add: demo_msg_def)
  moreover have "has_room (chunk_conn []) (length (frame [40, 70]))"
    by (rule chunk_conn_room) (simp add: frame_pair)
  ultimately obtain s' where
    send: "network_send demo_codec (demo_msg OP_SIZE) (chunk_conn []) demo_mem =
       Some (0, s', demo_mem\<lparr>m_brk := 1\<rparr>)" "k_out s' = [0, 2, 40, 70]"
    and receive: "\<And>p after rest m'. incoming p ([0, 2, 40, 70] @ after) rest \<Longrightarrow> m_avail m' (m_brk m') \<Longrightarrow>
      \<exists>p'. network_receive demo_codec p m' = Some (Some (demo_msg OP_SIZE), p', m'\<lparr>m_brk := Suc (m_brk m')\<rparr>) \<and>
        incoming p' after rest"
    using frame_round_trip[of demo_codec "demo_msg OP_SIZE" "[40, 70]" "chunk_conn []" demo_mem]
    by (auto simp: frame_pair)
  from receive[of "chunk_conn [0, 2, 40, 70]" "[]" "[]" demo_mem] send show ?thesis by auto
qed

text \<open>A message whose packed size is 0 or does not fit the 16-bit length is refused before
  anything is written: \<open>network_send\<close> returns -1, \<open>network_send_receive\<close> returns NULL, and the
  connection is as before.\<close>

theorem oversized_refused:
  assumes "cd_pack cd msg = Some bs" "length bs = 0 \<or> 65535 < length bs"
  shows "network_send cd msg s m = Some (-1, s, m) \<and>
    (\<exists>m'. network_send_receive cd (Some rl) (Some msg) s m = Some (None, s, m') \<and> same_blocks m m')"
  using assms by (auto simp: network_send_def network_send_receive_def malloc_block_def same_blocks_def Let_def)

theorem oversized_refused_witness:
  "network_send (demo_codec\<lparr>cd_pack := (\<lambda>_. Some (replicate 65536 0))\<rparr>) message_t_init (chunk_conn []) demo_mem =
     Some (-1, chunk_conn [], demo_mem)"
  using oversized_refused[of "demo_codec\<lparr>cd_pack := (\<lambda>_. Some (replicate 65536 0))\<rparr>" message_t_init
      "replicate 65536 0"] by simp

text \<open>One exchange of \<open>network_send_receive\<close>: on an open connection it writes the frame of
  the request, nothing else, and returns what the codec makes of the next frame of the peer, leaving
  the bytes behind that frame for the next exchange.\<close>

theorem send_receive_exchange:
  assumes "0 \<le> sint (sockfd rl)" "packs cd req bq" "has_room s (length (frame bq))"
    and "incoming s (frame br @ after) rest" "0 < length br" "length br \<le> 0xFFFF"
    and "m_avail m (m_brk m)" "m_avail m (Suc (m_brk m))"
  shows "\<exists>s'. network_send_receive cd (Some rl) (Some req) s m =
      Some (cd_unpack cd br, s', m\<lparr>m_brk := m_brk m + 2\<rparr>) \<and>
    k_out s' = k_out s @ frame bq \<and> incoming s' after rest"
proof -
  have "has_room s (length (frame bq) + 0)" using assms(3) by simp
  then show ?thesis using network_send_receive_ok[OF assms(1,2) _ assms(4-8)] by metis
qed

theorem send_receive_exchange_witness:
  "\<exists>s'. network_send_receive demo_codec (Some \<lparr>server_address = ''10.0.0.1'', server_port = 5000, sockfd = 3\<rparr>)
       (Some (demo_msg OP_SIZE)) (chunk_conn [0, 2, 41, 50]) demo_mem =
     Some (Some (message_t_init\<lparr>msg_opcode := 41, msg_c_type := CT_RESULT\<rparr>), s', demo_mem\<lparr>m_brk := 2\<rparr>) \<and>
     k_out s' = [0, 2, 40, 70]"
proof -
  have "packs demo_codec (demo_msg OP_SIZE) [40, 70]"
    using demo_codec_simps(1)[of OP_SIZE] by simp
  moreover have "has_room (chunk_conn [0, 2, 41, 50]) (length (frame [40, 70]))"
    by (rule chunk_conn_room) (simp add: frame_pair)
  ultimately show ?thesis
    using send_receive_exchange[of "\<lparr>server_address = ''10.0.0.1'', server_port = 5000, sockfd = 3\<rparr>"
        demo_codec "demo_msg OP_SIZE" "[40, 70]" "chunk_conn [0, 2, 41, 50]" "[41, 50]" "[]" "[]" demo_mem]
      chunk_conn_incoming[of "[0, 2, 41, 50]"]
    by (auto simp: frame_pair)
qed

text \<open>The handshake of \<open>network_connect\<close> on a connection that was established: the first
  frame of the server decides.  \<open>OP_READY\<close> gives 0 and an open connection, \<open>OP_BUSY\<close> gives -1,
  \<open>errno\<close> \<open>EBUSY\<close> and a closed one; any other message gives -1 and leaves the
  connection open although the caller drops it.\<close>

theorem connect_handshake:
  assumes "0 \<le> sint (dial_socket os)" "1 \<le> dial_pton os (server_address rl)"
    and "0 \<le> dial_connect os (server_address rl) (ucast (server_port rl))"
    and "incoming s (frame bs @ after) rest" "0 < length bs" "length bs \<le> 0xFFFF"
    and "cd_unpack cd bs = Some resp" "m_avail m (m_brk m)"
  shows "\<exists>rc rl' s' m'. network_connect cd os (Some rl) s m = Some (rc, Some rl', s', m') \<and>
    (rc = 0 \<longleftrightarrow> msg_opcode resp = OP_READY) \<and> (rc = 0 \<or> rc = -1) \<and>
    (k_open s' \<longleftrightarrow> msg_opcode resp \<noteq> OP_BUSY) \<and> (msg_opcode resp = OP_BUSY \<longrightarrow> k_errno s' = EBUSY) \<and>
    sockfd rl' = (if msg_opcode resp = OP_BUSY then -1 else dial_socket os)"
proof -
  have "incoming (s\<lparr>k_open := True\<rparr>) (frame bs @ after) rest"
    using assms(4) by (simp add: incoming_cong[of "s\<lparr>k_open := True\<rparr>" s])
  from receive_frame_ok[OF this assms(5,6), of cd m] assms(7,8) obtain s' where
    "receive_frame cd (s\<lparr>k_open := True\<rparr>) m =
       Some (Unpacked (Some resp), s', m\<lparr>m_brk := Suc (m_brk m)\<rparr>)" "k_open s'" by auto
  with assms(1-3) show ?thesis
    by (auto simp: network_connect_def sys_close_def Let_def)
qed

theorem connect_handshake_witness:
  "\<exists>rl' s' m'. network_connect demo_codec \<lparr>dial_socket = 3, dial_pton = (\<lambda>_. 1), dial_connect = (\<lambda>_ _. 0)\<rparr>
       (Some \<lparr>server_address = ''10.0.0.1'', server_port = 5000, sockfd = 0\<rparr>)
       (chunk_conn [0, 2, 100, 0]) demo_mem = Some (-1, Some rl', s', m') \<and> \<not> k_open s' \<and> sockfd rl' = -1"
  using connect_handshake[of "\<lparr>dial_socket = 3, dial_pton = (\<lambda>_. 1), dial_connect = (\<lambda>_ _. 0)\<rparr>"
      "\<lparr>server_address = ''10.0.0.1'', server_port = 5000, sockfd = 0\<rparr>" "chunk_conn [0, 2, 100, 0]"
      "[100, 0]" "[]" "[]" demo_codec "message_t_init\<lparr>msg_opcode := 100, msg_c_type := 0\<rparr>" demo_mem]
    chunk_conn_incoming[of "[0, 2, 100, 0]"]
  by (auto simp: frame_pair)

text \<open>When the allocation of the reply buffer is refused, \<open>network_connect\<close> reports
  success, whatever the server answered (\<open>OP_BUSY\<close> too), and leaves the body of the answer unread
  on the connection, so that the next exchange starts in the middle of a frame.\<close>

theorem connect_no_memory_succeeds:
  assumes "0 \<le> sint (dial_socket os)" "1 \<le> dial_pton os (server_address rl)"
    and "0 \<le> dial_connect os (server_address rl) (ucast (server_port rl))"
    and "incoming s (frame bs @ after) rest" "0 < length bs" "length bs \<le> 0xFFFF"
    and "\<not> m_avail m (m_brk m)"
  shows "\<exists>s' m'. network_connect cd os (Some rl) s m =
      Some (0, Some (rl\<lparr>sockfd := dial_socket os\<rparr>), s', m') \<and> incoming s' (bs @ after) rest"
proof -
  have "incoming (s\<lparr>k_open := True\<rparr>) (frame bs @ after) rest"
    using assms(4) by (simp add: incoming_cong[of "s\<lparr>k_open := True\<rparr>" s])
  from receive_frame_ok[OF this assms(5,6), of cd m] assms(7) obtain s' where
    "receive_frame cd (s\<lparr>k_open := True\<rparr>) m = Some (NoMemory, s', m\<lparr>m_brk := Suc (m_brk m)\<rparr>)"
    "incoming s' (bs @ after) rest" by auto
  with assms(1-3) show ?thesis by (auto simp: network_connect_def Let_def)
qed

theorem connect_no_memory_succeeds_witness:
  "\<exists>s' m'. network_connect demo_codec \<lparr>dial_socket = 3, dial_pton = (\<lambda>_. 1), dial_connect = (\<lambda>_ _. 0)\<rparr>
       (Some \<lparr>server_address = ''10.0.0.1'', server_port = 5000, sockfd = 0\<rparr>)
       (chunk_conn [0, 2, 100, 0]) (demo_mem\<lparr>m_avail := (\<lambda>_. False)\<rparr>) =
     Some (0, Some \<lparr>server_address = ''10.0.0.1'', server_port = 5000, sockfd = 3\<rparr>, s', m') \<and>
     incoming s' [100, 0] []"
  using connect_no_memory_succeeds[of "\<lparr>dial_socket = 3, dial_pton = (\<lambda>_. 1), dial_connect = (\<lambda>_ _. 0)\<rparr>"
      "\<lparr>server_address = ''10.0.0.1'', server_port = 5000, sockfd = 0\<rparr>" "chunk_conn [0, 2, 100, 0]"
      "[100, 0]" "[]" "[]" "demo_mem\<lparr>m_avail := (\<lambda>_. False)\<rparr>" demo_codec]
    chunk_conn_incoming[of "[0, 2, 100, 0]"]
  by (auto simp: frame_pair)

end
