(* ===== verification/ListC.thy ===== *)
theory ListC
  imports DataC "HOL-Library.Multiset"
begin

text \<open>
  \<open>source/list.c\<close>: the singly linked list of cars.  The operations act on the stores of the
  memory exactly as the code does: they follow \<open>next\<close> pointers, allocate and free nodes, swap
  the \<open>data\<close> pointers of neighbouring nodes, and keep the \<open>size\<close> field.  Each
  \<open>while\<close> loop is a \<open>partial_function (option)\<close>: \<open>None\<close> also stands for a loop
  that does not end, so a result \<open>Some\<close> says that the loop ends and never touches a block
  that is not live.  The abstraction \<open>list_mem\<close> says that the memory holds exactly one list
  and nothing else, apart from the blocks that local variables own.
\<close>

section \<open>The operations\<close>

definition list_create :: "mem \<Rightarrow> ptr \<times> mem" where
  "list_create m = new_cell m_lists m_lists_update \<lparr>l_size = 0, l_head = None\<rparr> m"

partial_function (option) destroy_nodes :: "ptr \<Rightarrow> mem \<Rightarrow> mem option" where
  "destroy_nodes current m =
     (if current = None then Some m
      else do {
        n \<leftarrow> deref m_nodes current m;
        (r, m1) \<leftarrow> data_destroy (car_data n) m;
        m2 \<leftarrow> free_cell m_nodes m_nodes_update current m1;
        destroy_nodes (car_next n) m2
      })"

definition list_destroy :: "ptr \<Rightarrow> mem \<Rightarrow> (int \<times> mem) option" where
  "list_destroy list m =
     (if list = None then Some (-1, m)
      else do {
        l \<leftarrow> deref m_lists list m;
        m1 \<leftarrow> destroy_nodes (l_head l) m;
        m2 \<leftarrow> free_cell m_lists m_lists_update list m1;
        Some (0, m2)
      })"

text \<open>\<open>while (current->next != NULL) current = current->next;\<close>\<close>

partial_function (option) list_tail :: "ptr \<Rightarrow> mem \<Rightarrow> ptr option" where
  "list_tail current m = do {
     n \<leftarrow> deref m_nodes current m;
     if car_next n = None then Some current else list_tail (car_next n) m
   }"

definition list_add :: "ptr \<Rightarrow> ptr \<Rightarrow> mem \<Rightarrow> (int \<times> mem) option" where
  "list_add list car m =
     (if list = None \<or> car = None then Some (-1, m)
      else let (new_node, m1) = new_cell m_nodes m_nodes_update \<lparr>car_data = None, car_next = None\<rparr> m
       in if new_node = None then Some (-1, m1)
       else do {
         (d, m2) \<leftarrow> data_dup car m1;
         if d = None then do {
           m3 \<leftarrow> free_cell m_nodes m_nodes_update new_node m2;
           Some (-1, m3)
         } else do {
           m3 \<leftarrow> store m_nodes m_nodes_update new_node \<lparr>car_data = d, car_next = None\<rparr> m2;
           l \<leftarrow> deref m_lists list m3;
           m4 \<leftarrow> (if l_head l = None
                  then store m_lists m_lists_update list (l\<lparr>l_head := new_node\<rparr>) m3
                  else do {
                    current \<leftarrow> list_tail (l_head l) m3;
                    n \<leftarrow> deref m_nodes current m3;
                    store m_nodes m_nodes_update current (n\<lparr>car_next := new_node\<rparr>) m3
                  });
           l \<leftarrow> deref m_lists list m4;
           sz \<leftarrow> int_inc (l_size l);
           m5 \<leftarrow> store m_lists m_lists_update list (l\<lparr>l_size := sz\<rparr>) m4;
           Some (0, m5)
         }
       })"

partial_function (option) remove_scan ::
  "ptr \<Rightarrow> string \<Rightarrow> ptr \<Rightarrow> ptr \<Rightarrow> mem \<Rightarrow> (int \<times> mem) option" where
  "remove_scan list modelo prev current m =
     (if current = None then Some (1, m)
      else do {
        n \<leftarrow> deref m_nodes current m;
        d \<leftarrow> deref m_datas (car_data n) m;
        s \<leftarrow> deref m_strs (d_modelo d) m;
        if s = modelo then do {
          m1 \<leftarrow> (if prev = None
                 then do {
                   l \<leftarrow> deref m_lists list m;
                   store m_lists m_lists_update list (l\<lparr>l_head := car_next n\<rparr>) m
                 } else do {
                   p \<leftarrow> deref m_nodes prev m;
                   store m_nodes m_nodes_update prev (p\<lparr>car_next := car_next n\<rparr>) m
                 });
          n1 \<leftarrow> deref m_nodes current m1;
          (r, m2) \<leftarrow> data_destroy (car_data n1) m1;
          m3 \<leftarrow> free_cell m_nodes m_nodes_update current m2;
          l \<leftarrow> deref m_lists list m3;
          sz \<leftarrow> int_dec (l_size l);
          m4 \<leftarrow> store m_lists m_lists_update list (l\<lparr>l_size := sz\<rparr>) m3;
          Some (0, m4)
        } else remove_scan list modelo current (car_next n) m
      })"

definition list_remove_by_model :: "ptr \<Rightarrow> string option \<Rightarrow> mem \<Rightarrow> (int \<times> mem) option" where
  "list_remove_by_model list modelo m =
     (if list = None then Some (-1, m)
      else case modelo of
        None \<Rightarrow> Some (-1, m)
      | Some s \<Rightarrow> do {
          l \<leftarrow> deref m_lists list m;
          remove_scan list s None (l_head l) m
        })"

partial_function (option) marca_scan :: "u32 \<Rightarrow> ptr \<Rightarrow> mem \<Rightarrow> ptr option" where
  "marca_scan marca current m =
     (if current = None then Some None
      else do {
        n \<leftarrow> deref m_nodes current m;
        d \<leftarrow> deref m_datas (car_data n) m;
        if d_marca d = marca then Some (car_data n)
        else marca_scan marca (car_next n) m
      })"

definition list_get_by_marca :: "ptr \<Rightarrow> u32 \<Rightarrow> mem \<Rightarrow> ptr option" where
  "list_get_by_marca list marca m =
     (if list = None then Some None
      else do {
        l \<leftarrow> deref m_lists list m;
        marca_scan marca (l_head l) m
      })"

partial_function (option) year_count :: "i32 \<Rightarrow> ptr \<Rightarrow> nat \<Rightarrow> mem \<Rightarrow> nat option" where
  "year_count ano current cnt m =
     (if current = None then Some cnt
      else do {
        n \<leftarrow> deref m_nodes current m;
        d \<leftarrow> deref m_datas (car_data n) m;
        year_count ano (car_next n) (if d_ano d = ano then Suc cnt else cnt) m
      })"

partial_function (option) year_fill ::
  "i32 \<Rightarrow> ptr \<Rightarrow> nat \<Rightarrow> ptr arr \<Rightarrow> mem \<Rightarrow> (nat \<times> ptr arr) option" where
  "year_fill ano current i array m =
     (if current = None then Some (i, array)
      else do {
        n \<leftarrow> deref m_nodes current m;
        hit \<leftarrow> (if car_data n = None then Some False
               else do { d \<leftarrow> deref m_datas (car_data n) m; Some (d_ano d = ano) });
        if hit then do {
          array \<leftarrow> arr_set i (car_data n) array;
          year_fill ano (car_next n) (Suc i) array m
        } else year_fill ano (car_next n) i array m
      })"

definition list_get_by_year :: "ptr \<Rightarrow> i32 \<Rightarrow> mem \<Rightarrow> (ptr arr option \<times> mem) option" where
  "list_get_by_year list ano m =
     (if list = None then Some (None, m)
      else do {
        l \<leftarrow> deref m_lists list m;
        cnt \<leftarrow> year_count ano (l_head l) 0 m;
        let (array, m1) = malloc_arr (int cnt + 1) m;
        case array of
          None \<Rightarrow> Some (None, m1)
        | Some array \<Rightarrow> do {
            (i, array) \<leftarrow> year_fill ano (l_head l) 0 array m1;
            array \<leftarrow> arr_set i None array;
            Some (Some array, m1)
          }
      })"

partial_function (option) bubble_pass :: "ptr \<Rightarrow> bool \<Rightarrow> mem \<Rightarrow> (bool \<times> mem) option" where
  "bubble_pass current swapped m =
     (if current = None then Some (swapped, m)
      else do {
        n \<leftarrow> deref m_nodes current m;
        if car_next n = None then Some (swapped, m)
        else do {
          d \<leftarrow> deref m_datas (car_data n) m;
          n2 \<leftarrow> deref m_nodes (car_next n) m;
          d2 \<leftarrow> deref m_datas (car_data n2) m;
          if sint (d_ano d2) < sint (d_ano d) then do {
            m1 \<leftarrow> store m_nodes m_nodes_update current (n\<lparr>car_data := car_data n2\<rparr>) m;
            n2 \<leftarrow> deref m_nodes (car_next n) m1;
            m2 \<leftarrow> store m_nodes m_nodes_update (car_next n) (n2\<lparr>car_data := car_data n\<rparr>) m1;
            bubble_pass (car_next n) True m2
          } else bubble_pass (car_next n) swapped m
        }
      })"

text \<open>The \<open>do ... while (swapped)\<close> loop.\<close>

partial_function (option) bubble_loop :: "ptr \<Rightarrow> mem \<Rightarrow> mem option" where
  "bubble_loop list m = do {
     l \<leftarrow> deref m_lists list m;
     (swapped, m1) \<leftarrow> bubble_pass (l_head l) False m;
     if swapped then bubble_loop list m1 else Some m1
   }"

definition list_order_by_year :: "ptr \<Rightarrow> mem \<Rightarrow> (int \<times> mem) option" where
  "list_order_by_year list m =
     (if list = None then Some (-1, m)
      else do { m1 \<leftarrow> bubble_loop list m; Some (0, m1) })"

definition list_size :: "ptr \<Rightarrow> mem \<Rightarrow> i32 option" where
  "list_size list m =
     (if list = None then Some (-1)
      else do { l \<leftarrow> deref m_lists list m; Some (l_size l) })"

text \<open>
  The strings of the array belong to the caller: a \<open>char *\<close> of the array is the string itself
  or NULL.  When one \<open>strdup\<close> fails the earlier ones are freed and the result is NULL.
\<close>

partial_function (option) models_fill ::
  "ptr \<Rightarrow> nat \<Rightarrow> string option arr \<Rightarrow> mem \<Rightarrow> ((nat \<times> string option arr) option \<times> mem) option" where
  "models_fill current i models m =
     (if current = None then Some (Some (i, models), m)
      else do {
        n \<leftarrow> deref m_nodes current m;
        d \<leftarrow> deref m_datas (car_data n) m;
        s \<leftarrow> deref m_strs (d_modelo d) m;
        let (granted, m1) = malloc_block m;
        models \<leftarrow> arr_set i (if granted then Some s else None) models;
        if \<not> granted then Some (None, m1)
        else models_fill (car_next n) (Suc i) models m1
      })"

definition list_get_model_list :: "ptr \<Rightarrow> mem \<Rightarrow> (string option arr option \<times> mem) option" where
  "list_get_model_list list m =
     (if list = None then Some (None, m)
      else do {
        l \<leftarrow> deref m_lists list m;
        sz1 \<leftarrow> int_inc (l_size l);
        let (models, m1) = malloc_arr (sint sz1) m;
        case models of
          None \<Rightarrow> Some (None, m1)
        | Some models \<Rightarrow> do {
            (filled, m2) \<leftarrow> models_fill (l_head l) 0 models m1;
            case filled of
              None \<Rightarrow> Some (None, m2)
            | Some (i, models) \<Rightarrow> do {
                models \<leftarrow> arr_set i None models;
                Some (Some models, m2)
              }
          }
      })"

text \<open>The array is the caller's: freeing reads its cells up to the first NULL.\<close>

partial_function (option) free_models :: "nat \<Rightarrow> string option arr \<Rightarrow> unit option" where
  "free_models i models = do {
     s \<leftarrow> arr_get i models;
     if s = None then Some () else free_models (Suc i) models
   }"

definition list_free_model_list :: "string option arr option \<Rightarrow> int option" where
  "list_free_model_list models =
     (case models of
        None \<Rightarrow> Some (-1)
      | Some a \<Rightarrow> do { _ \<leftarrow> free_models 0 a; Some 0 })"

end
