(* ===== verification/ClientStub.thy ===== *)
theory ClientStub
  imports CText NetFrame ListC
begin

text \<open>
  \<open>source/client_stub.c\<close>: the operations of the list as a client calls them, each one request
  and one reply over the connection of an \<open>rlist_t\<close>.  The structure and the buffers that an
  operation allocates and frees again only ask the allocator; the cars it returns are blocks of the
  memory of the client.  A reply the codec unpacked is a value, so freeing it leaves no trace.
\<close>

section \<open>Conversions\<close>

definition marca_to_proto :: "i32 \<Rightarrow> i32" where
  "marca_to_proto marca =
     (if marca = MARCA_TOYOTA then 0 else if marca = MARCA_BMW then 1
      else if marca = MARCA_RENAULT then 2 else if marca = MARCA_AUDI then 3
      else if marca = MARCA_MERCEDES then 4 else -1)"

definition proto_to_marca :: "i32 \<Rightarrow> i32" where
  "proto_to_marca pb =
     (if pb = 0 then MARCA_TOYOTA else if pb = 1 then MARCA_BMW else if pb = 2 then MARCA_RENAULT
      else if pb = 3 then MARCA_AUDI else if pb = 4 then MARCA_MERCEDES else -1)"

definition combustivel_to_proto :: "i32 \<Rightarrow> i32" where
  "combustivel_to_proto c =
     (if c = COMBUSTIVEL_GASOLINA then 0 else if c = COMBUSTIVEL_GASOLEO then 1
      else if c = COMBUSTIVEL_ELETRICO then 2 else if c = COMBUSTIVEL_HIBRIDO then 3 else -1)"

definition proto_to_combustivel :: "i32 \<Rightarrow> i32" where
  "proto_to_combustivel pb =
     (if pb = 0 then COMBUSTIVEL_GASOLINA else if pb = 1 then COMBUSTIVEL_GASOLEO
      else if pb = 2 then COMBUSTIVEL_ELETRICO else if pb = 3 then COMBUSTIVEL_HIBRIDO else -1)"

definition op_success :: "MessageT option \<Rightarrow> u32 \<Rightarrow> u32 \<Rightarrow> bool" where
  "op_success msg opcode ctype =
     (case msg of
        None \<Rightarrow> False
      | Some msg \<Rightarrow> msg_opcode msg = opcode + 1 \<and> msg_opcode msg \<noteq> OP_BAD \<and> msg_c_type msg = ctype)"

section \<open>Connecting\<close>

text \<open>\<open>sockfd\<close> is not initialised before \<open>network_connect\<close> stores it; nothing reads it earlier.\<close>

definition rlist_connect ::
  "codec \<Rightarrow> dialer \<Rightarrow> string option \<Rightarrow> conn \<Rightarrow> mem \<Rightarrow> (rlist_t option \<times> conn \<times> mem) option" where
  "rlist_connect cd os address_port s m =
     (case address_port of
        None \<Rightarrow> Some (None, s, m)
      | Some addr \<Rightarrow>
          let (granted, m1) = malloc_block m
          in if \<not> granted then Some (None, s, m1)
          else (case dropWhile (\<lambda>c. c \<noteq> CHR '':'') addr of
            [] \<Rightarrow> Some (None, s, m1)
          | _ # port_str \<Rightarrow>
              let hostname = takeWhile (\<lambda>c. c \<noteq> CHR '':'') addr; port = atoi port_str
              in if sint port \<le> 0 then Some (None, s, m1)
              else let (granted, m2) = malloc_block m1
              in if \<not> granted then Some (None, s, m2)
              else let (granted, m3) = malloc_block m2
              in if \<not> granted then Some (None, s, m3)
              else do {
                (yes, rl, s1, m4) \<leftarrow> network_connect cd os
                  (Some \<lparr>server_address = hostname, server_port = port, sockfd = 0\<rparr>) s m3;
                Some (if yes < 0 then None else rl, s1, m4)
              }))"

definition rlist_disconnect :: "rlist_t option \<Rightarrow> conn \<Rightarrow> int \<times> conn" where
  "rlist_disconnect rlist s =
     (case rlist of
        None \<Rightarrow> (-1, s)
      | Some rl \<Rightarrow> let (r, s1) = sys_close s in (if r < 0 then -1 else 0, s1))"

section \<open>Operations with one result\<close>

definition rlist_add ::
  "codec \<Rightarrow> rlist_t option \<Rightarrow> ptr \<Rightarrow> conn \<Rightarrow> mem \<Rightarrow> (int \<times> conn \<times> mem) option" where
  "rlist_add cd rlist car s m =
     (if rlist = None \<or> car = None then Some (-1, s, m)
      else do {
        d \<leftarrow> deref m_datas car m;
        let marca = marca_to_proto (d_marca d);
        let combustivel = combustivel_to_proto (d_combustivel d);
        if marca = -1 \<or> combustivel = -1 then Some (-1, s, m)
        else do {
          modelo \<leftarrow> deref m_strs (d_modelo d) m;
          let (granted, m1) = malloc_block m;
          if \<not> granted then Some (-1, s, m1)
          else do {
            let data = data_init\<lparr>p_ano := d_ano d, p_preco := d_preco d, p_marca := marca,
              p_modelo := Some modelo, p_combustivel := combustivel\<rparr>;
            (res, s1, m2) \<leftarrow> network_send_receive cd rlist (Some (message_t_init\<lparr>msg_opcode := OP_ADD,
              msg_c_type := CT_DATA, msg_data := Some data\<rparr>)) s m1;
            Some (if op_success res OP_ADD CT_NONE then 0 else -1, s1, m2)
          }
        }
      })"

definition rlist_remove_by_model ::
  "codec \<Rightarrow> rlist_t option \<Rightarrow> string option \<Rightarrow> conn \<Rightarrow> mem \<Rightarrow> (int \<times> conn \<times> mem) option" where
  "rlist_remove_by_model cd rlist modelo s m =
     (if rlist = None \<or> modelo = None then Some (-1, s, m)
      else let (granted, m1) = malloc_block m
      in if \<not> granted then Some (-1, s, m1)
      else do {
        (res, s1, m2) \<leftarrow> network_send_receive cd rlist (Some (message_t_init\<lparr>msg_models := Some [Some modelo],
          msg_n_models := 1, msg_opcode := OP_DEL, msg_c_type := CT_MODEL\<rparr>)) s m1;
        res \<leftarrow> res;
        Some (if msg_opcode res = OP_DEL + 1 \<and> msg_c_type res = CT_RESULT
              then sint (msg_result res) else -1, s1, m2)
      })"

definition rlist_get_by_marca ::
  "codec \<Rightarrow> rlist_t option \<Rightarrow> u32 \<Rightarrow> conn \<Rightarrow> mem \<Rightarrow> (ptr \<times> conn \<times> mem) option" where
  "rlist_get_by_marca cd rlist marca s m =
     (if rlist = None then Some (None, s, m)
      else if marca_to_proto marca = -1 then Some (None, s, m)
      else do {
        (res, s1, m1) \<leftarrow> network_send_receive cd rlist (Some (message_t_init\<lparr>msg_opcode := OP_GET,
          msg_c_type := CT_MARCA, msg_result := marca_to_proto marca\<rparr>)) s m;
        if \<not> op_success res OP_GET CT_DATA then Some (None, s1, m1)
        else do {
          res \<leftarrow> res;
          d \<leftarrow> msg_data res;
          (data, m2) \<leftarrow> data_create (p_ano d) (p_preco d) (proto_to_marca (p_marca d)) (p_modelo d)
            (proto_to_combustivel (p_combustivel d)) m1;
          Some (data, s1, m2)
        }
      })"

definition rlist_size :: "codec \<Rightarrow> rlist_t option \<Rightarrow> conn \<Rightarrow> mem \<Rightarrow> (int \<times> conn \<times> mem) option" where
  "rlist_size cd rlist s m =
     (if rlist = None then Some (-1, s, m)
      else do {
        (res, s1, m1) \<leftarrow> network_send_receive cd rlist (Some (message_t_init\<lparr>msg_opcode := OP_SIZE,
          msg_c_type := CT_NONE\<rparr>)) s m;
        if \<not> op_success res OP_SIZE CT_RESULT then Some (-1, s1, m1)
        else do { res \<leftarrow> res; Some (sint (msg_result res), s1, m1) }
      })"

section \<open>Operations with an array of cars\<close>

text \<open>\<open>for (int j = 0; j < i; j++) data_destroy (res_data[j]);\<close>\<close>

partial_function (option) cars_cleanup :: "nat \<Rightarrow> nat \<Rightarrow> ptr arr \<Rightarrow> mem \<Rightarrow> mem option" where
  "cars_cleanup j i arr m =
     (if j < i then do {
        d \<leftarrow> arr_get j arr;
        (r, m1) \<leftarrow> data_destroy d m;
        cars_cleanup (Suc j) i arr m1
      } else Some m)"

text \<open>The loop that copies the cars of a reply; \<open>None\<close> in the result when a copy failed.\<close>

partial_function (option) cars_copy ::
  "nat \<Rightarrow> nat \<Rightarrow> pdata option arr \<Rightarrow> ptr arr \<Rightarrow> mem \<Rightarrow> (ptr arr option \<times> mem) option" where
  "cars_copy i n res_cars res_data m =
     (if i < n then do {
        d \<leftarrow> arr_get i res_cars;
        d \<leftarrow> d;
        (c, m1) \<leftarrow> data_create (p_ano d) (p_preco d) (p_marca d) (p_modelo d) (p_combustivel d) m;
        res_data \<leftarrow> arr_set i c res_data;
        if c = None then do {
          m2 \<leftarrow> cars_cleanup 0 i res_data m1;
          Some (None, m2)
        } else cars_copy (Suc i) n res_cars res_data m1
      } else Some (Some res_data, m))"

text \<open>
  The body that \<open>rlist_get_by_year\<close> and \<open>rlist_order_by_year\<close> share: request, reply, and the
  array with its closing NULL.
\<close>

definition rlist_cars ::
  "codec \<Rightarrow> rlist_t option \<Rightarrow> i32 \<Rightarrow> conn \<Rightarrow> mem \<Rightarrow> (ptr arr option \<times> conn \<times> mem) option" where
  "rlist_cars cd rlist ano s m = do {
     (res, s1, m1) \<leftarrow> network_send_receive cd rlist (Some (message_t_init\<lparr>msg_opcode := OP_GETLISTBYTEAR,
       msg_c_type := CT_RESULT, msg_result := ano\<rparr>)) s m;
     if \<not> op_success res OP_GETLISTBYTEAR CT_LIST then Some (None, s1, m1)
     else do {
       res \<leftarrow> res;
       if msg_n_cars res = 0 then Some (None, s1, m1)
       else let (res_data, m2) = malloc_arr (int (msg_n_cars res) + 1) m1
       in case res_data of
         None \<Rightarrow> Some (None, s1, m2)
       | Some res_data \<Rightarrow> do {
           res_cars \<leftarrow> msg_cars res;
           (filled, m3) \<leftarrow> cars_copy 0 (msg_n_cars res) res_cars res_data m2;
           case filled of
             None \<Rightarrow> Some (None, s1, m3)
           | Some res_data \<Rightarrow> do {
               res_data \<leftarrow> arr_set (msg_n_cars res) None res_data;
               Some (Some res_data, s1, m3)
             }
         }
     }
   }"

definition rlist_get_by_year ::
  "codec \<Rightarrow> rlist_t option \<Rightarrow> i32 \<Rightarrow> conn \<Rightarrow> mem \<Rightarrow> (ptr arr option \<times> conn \<times> mem) option" where
  "rlist_get_by_year cd rlist ano s m =
     (if rlist = None then Some (None, s, m) else rlist_cars cd rlist ano s m)"

text \<open>\<open>_print_car\<close>: the text that goes to the standard output.\<close>

definition car_text :: "data_t \<Rightarrow> string \<Rightarrow> string" where
  "car_text d modelo =
     ''Modelo: '' @ modelo @ '' '' @ nl @ ''Ano: '' @ dec_int (sint (d_ano d)) @ '' '' @ nl @
     ''Preco: '' @ float_2f (d_preco d) @ '' '' @ nl @ ''Marca: '' @ dec_int (uint (d_marca d)) @ '' '' @ nl @
     ''Combustivel: '' @ dec_int (uint (d_combustivel d)) @ nl"

definition stub_print_car :: "ptr \<Rightarrow> mem \<Rightarrow> string option" where
  "stub_print_car car m =
     (if car = None then Some []
      else do {
        d \<leftarrow> deref m_datas car m;
        modelo \<leftarrow> c_string (d_modelo d) m;
        Some (car_text d (case modelo of None \<Rightarrow> ''(null)'' | Some s \<Rightarrow> s))
      })"

text \<open>The text printed and the memory.\<close>

partial_function (option) cars_print_destroy :: "nat \<Rightarrow> ptr arr \<Rightarrow> mem \<Rightarrow> (string \<times> mem) option" where
  "cars_print_destroy i arr m = do {
     p \<leftarrow> arr_get i arr;
     if p = None then Some ([], m)
     else do {
       text \<leftarrow> stub_print_car p m;
       (r, m1) \<leftarrow> data_destroy p m;
       (texts, m2) \<leftarrow> cars_print_destroy (Suc i) arr m1;
       Some (text @ texts, m2)
     }
   }"

definition rlist_order_by_year ::
  "codec \<Rightarrow> rlist_t option \<Rightarrow> conn \<Rightarrow> mem \<Rightarrow> (int \<times> string \<times> conn \<times> mem) option" where
  "rlist_order_by_year cd rlist s m =
     (if rlist = None then Some (-1, [], s, m)
      else do {
        (res_data, s1, m1) \<leftarrow> rlist_cars cd rlist (-1) s m;
        case res_data of
          None \<Rightarrow> Some (-1, [], s1, m1)
        | Some res_data \<Rightarrow> do {
            (printed, m2) \<leftarrow> cars_print_destroy 0 res_data m1;
            Some (0, printed, s1, m2)
          }
      })"

section \<open>The model list\<close>

partial_function (option) models_copy ::
  "nat \<Rightarrow> nat \<Rightarrow> string option arr \<Rightarrow> string option arr \<Rightarrow> mem \<Rightarrow> (string option arr \<times> mem) option" where
  "models_copy i n res_models res_data m =
     (if i < n then do {
        s \<leftarrow> arr_get i res_models;
        s \<leftarrow> s;
        let (granted, m1) = malloc_block m;
        res_data \<leftarrow> arr_set i (if granted then Some s else None) res_data;
        models_copy (Suc i) n res_models res_data m1
      } else Some (res_data, m))"

text \<open>The array of this operation is not checked for NULL: its first store is then undefined.\<close>

definition rlist_get_model_list ::
  "codec \<Rightarrow> rlist_t option \<Rightarrow> conn \<Rightarrow> mem \<Rightarrow> (string option arr option \<times> conn \<times> mem) option" where
  "rlist_get_model_list cd rlist s m =
     (if rlist = None then Some (None, s, m)
      else do {
        (res, s1, m1) \<leftarrow> network_send_receive cd rlist (Some (message_t_init\<lparr>msg_opcode := OP_GETMODELS,
          msg_c_type := CT_NONE\<rparr>)) s m;
        if \<not> op_success res OP_GETMODELS CT_MODEL then Some (None, s1, m1)
        else do {
          res \<leftarrow> res;
          let (res_data, m2) = malloc_arr (int (msg_n_models res) + 1) m1;
          res_data \<leftarrow> res_data;
          (res_data, m3) \<leftarrow> (if msg_n_models res = 0 then Some (res_data, m2)
            else do {
              res_models \<leftarrow> msg_models res;
              models_copy 0 (msg_n_models res) res_models res_data m2
            });
          res_data \<leftarrow> arr_set (msg_n_models res) None res_data;
          Some (Some res_data, s1, m3)
        }
      })"

definition rlist_free_model_list :: "string option arr option \<Rightarrow> int option" where
  "rlist_free_model_list models = list_free_model_list models"

end
