(* ===== verification/SkelC.thy ===== *)
theory SkelC
  imports ListC Message
begin

text \<open>
  \<open>source/list_skel.c\<close>: the service skeleton.  \<open>invoke\<close> takes a request and the list,
  performs the operation on the memory of the list and turns the request into the reply.  The
  \<open>switch\<close> has one definition per case; each returns the value of \<open>invoke\<close>, the message
  and the memory.
\<close>

section \<open>Conversions\<close>

definition data_to_protobuf :: "ptr \<Rightarrow> mem \<Rightarrow> (pdata option \<times> mem) option" where
  "data_to_protobuf car m =
     (if car = None then Some (None, m)
      else let (granted, m1) = malloc_block m
       in if \<not> granted then Some (None, m1)
       else do {
         d \<leftarrow> deref m_datas car m1;
         s \<leftarrow> deref m_strs (d_modelo d) m1;
         let (granted, m2) = malloc_block m1;
         Some (Some (data_init\<lparr>p_ano := d_ano d, p_preco := d_preco d, p_marca := d_marca d,
           p_modelo := (if granted then Some s else None), p_combustivel := d_combustivel d\<rparr>), m2)
       })"

text \<open>\<open>while (cars[count] != NULL) count++;\<close>\<close>

partial_function (option) cars_count :: "nat \<Rightarrow> ptr arr \<Rightarrow> nat option" where
  "cars_count k cs = do {
     p \<leftarrow> arr_get k cs;
     if p = None then Some k else cars_count (Suc k) cs
   }"

partial_function (option) cars_convert ::
  "nat \<Rightarrow> nat \<Rightarrow> ptr arr \<Rightarrow> pdata option arr \<Rightarrow> mem \<Rightarrow> (pdata option arr \<times> mem) option" where
  "cars_convert i k cs arr m =
     (if i < k then do {
        p \<leftarrow> arr_get i cs;
        (d, m1) \<leftarrow> data_to_protobuf p m;
        arr \<leftarrow> arr_set i d arr;
        cars_convert (Suc i) k cs arr m1
      } else Some (arr, m))"

text \<open>The array and \<open>*k\<close>.\<close>

definition data_array_to_protobuf_array ::
  "ptr arr option \<Rightarrow> mem \<Rightarrow> ((pdata option arr option \<times> nat) \<times> mem) option" where
  "data_array_to_protobuf_array cs m =
     (case cs of
        None \<Rightarrow> Some ((None, 0), m)
      | Some cs \<Rightarrow> do {
          k \<leftarrow> cars_count 0 cs;
          let (arr, m1) = malloc_arr (int k) m;
          case arr of
            None \<Rightarrow> Some ((None, 0), m1)
          | Some arr \<Rightarrow> do {
              (arr, m2) \<leftarrow> cars_convert 0 k cs arr m1;
              Some ((Some arr, k), m2)
            }
        })"

partial_function (option) all_fill :: "ptr \<Rightarrow> nat \<Rightarrow> ptr arr \<Rightarrow> mem \<Rightarrow> (nat \<times> ptr arr) option" where
  "all_fill current i array m =
     (if current = None then Some (i, array)
      else do {
        n \<leftarrow> deref m_nodes current m;
        array \<leftarrow> arr_set i (car_data n) array;
        all_fill (car_next n) (Suc i) array m
      })"

definition list_get_all :: "ptr \<Rightarrow> mem \<Rightarrow> (ptr arr option \<times> mem) option" where
  "list_get_all list m =
     (if list = None then Some (None, m)
      else do {
        l \<leftarrow> deref m_lists list m;
        sz1 \<leftarrow> int_inc (l_size l);
        let (array, m1) = malloc_arr (sint sz1) m;
        case array of
          None \<Rightarrow> Some (None, m1)
        | Some array \<Rightarrow> do {
            (i, array) \<leftarrow> all_fill (l_head l) 0 array m1;
            array \<leftarrow> arr_set i None array;
            Some (Some array, m1)
          }
      })"

definition list_skel_init :: "mem \<Rightarrow> ptr \<times> mem" where
  "list_skel_init m = list_create m"

definition list_skel_destroy :: "ptr \<Rightarrow> mem \<Rightarrow> (int \<times> mem) option" where
  "list_skel_destroy list m =
     (if list = None then Some (-1, m)
      else do { (r, m1) \<leftarrow> list_destroy list m; Some (0, m1) })"

section \<open>The cases of invoke\<close>

type_synonym reply = "(int \<times> MessageT \<times> mem) option"

definition reply_error :: "MessageT \<Rightarrow> MessageT" where
  "reply_error msg = msg\<lparr>msg_opcode := OP_ERROR, msg_c_type := CT_NONE, msg_result := -1\<rparr>"

definition invoke_size :: "MessageT \<Rightarrow> ptr \<Rightarrow> mem \<Rightarrow> reply" where
  "invoke_size msg list m = do {
     r \<leftarrow> list_size list m;
     let msg = msg\<lparr>msg_result := r\<rparr>;
     if r = -1 then Some (-1, msg\<lparr>msg_opcode := OP_ERROR, msg_c_type := CT_NONE\<rparr>, m)
     else Some (0, msg\<lparr>msg_opcode := msg_opcode msg + 1, msg_c_type := CT_RESULT\<rparr>, m)
   }"

definition invoke_add :: "MessageT \<Rightarrow> ptr \<Rightarrow> mem \<Rightarrow> reply" where
  "invoke_add msg list m =
     (case msg_data msg of
        None \<Rightarrow> Some (-1, reply_error msg, m)
      | Some d \<Rightarrow> do {
          (car, m1) \<leftarrow> data_create (p_ano d) (p_preco d) (p_marca d) (p_modelo d) (p_combustivel d) m;
          if car = None then Some (-1, reply_error msg, m1)
          else do {
            (res, m2) \<leftarrow> list_add list car m1;
            (r, m3) \<leftarrow> data_destroy car m2;
            if res = 0
            then Some (0, msg\<lparr>msg_opcode := msg_opcode msg + 1, msg_c_type := CT_NONE,
                              msg_result := 0\<rparr>, m3)
            else Some (0, reply_error msg, m3)
          }
        })"

definition invoke_get :: "MessageT \<Rightarrow> ptr \<Rightarrow> mem \<Rightarrow> reply" where
  "invoke_get msg list m =
     (if msg_c_type msg = CT_MARCA then do {
        car \<leftarrow> list_get_by_marca list (msg_result msg) m;
        if car = None then Some (0, reply_error msg, m)
        else do {
          (d, m1) \<leftarrow> data_to_protobuf car m;
          let msg = msg\<lparr>msg_data := d\<rparr>;
          if d = None then Some (0, reply_error msg, m1)
          else Some (0, msg\<lparr>msg_opcode := msg_opcode msg + 1, msg_c_type := CT_DATA\<rparr>, m1)
        }
      } else Some (0, msg, m))"

text \<open>The tail shared by both branches of \<open>OP_GETLISTBYTEAR\<close>: convert the array and answer.\<close>

definition reply_cars :: "MessageT \<Rightarrow> ptr arr option \<Rightarrow> mem \<Rightarrow> reply" where
  "reply_cars msg cs m =
     (case cs of
        None \<Rightarrow> Some (0, reply_error msg, m)
      | Some _ \<Rightarrow> do {
          ((arr, k), m1) \<leftarrow> data_array_to_protobuf_array cs m;
          Some (0, msg\<lparr>msg_cars := arr, msg_n_cars := k, msg_opcode := msg_opcode msg + 1,
                       msg_c_type := CT_LIST\<rparr>, m1)
        })"

definition invoke_getlist :: "MessageT \<Rightarrow> ptr \<Rightarrow> mem \<Rightarrow> reply" where
  "invoke_getlist msg list m =
     (if msg_result msg \<noteq> -1 then do {
        (cs, m1) \<leftarrow> list_get_by_year list (msg_result msg) m;
        reply_cars msg cs m1
      } else do {
        (r, m1) \<leftarrow> list_order_by_year list m;
        (cs, m2) \<leftarrow> list_get_all list m1;
        reply_cars msg cs m2
      })"

definition invoke_getmodels :: "MessageT \<Rightarrow> ptr \<Rightarrow> mem \<Rightarrow> reply" where
  "invoke_getmodels msg list m = do {
     (ms, m1) \<leftarrow> list_get_model_list list m;
     k \<leftarrow> list_size list m1;
     let msg = msg\<lparr>msg_models := ms, msg_n_models := to_size_t k\<rparr>;
     if ms = None then Some (0, reply_error msg, m1)
     else Some (0, msg\<lparr>msg_opcode := msg_opcode msg + 1, msg_c_type := CT_MODEL\<rparr>, m1)
   }"

definition invoke_del :: "MessageT \<Rightarrow> ptr \<Rightarrow> mem \<Rightarrow> reply" where
  "invoke_del msg list m =
     (if msg_n_models msg \<noteq> 1 then Some (0, reply_error msg, m)
      else do {
        ms \<leftarrow> msg_models msg;
        s \<leftarrow> arr_get 0 ms;
        (res, m1) \<leftarrow> list_remove_by_model list s m;
        Some (0, msg\<lparr>msg_opcode := msg_opcode msg + 1, msg_c_type := CT_RESULT,
                     msg_result := word_of_int res\<rparr>, m1)
      })"

definition invoke :: "MessageT option \<Rightarrow> ptr \<Rightarrow> mem \<Rightarrow> (int \<times> MessageT option \<times> mem) option" where
  "invoke msg list m =
     (case msg of
        None \<Rightarrow> Some (-1, None, m)
      | Some msg \<Rightarrow>
          if list = None then Some (-1, Some msg, m)
          else do {
            (r, msg, m1) \<leftarrow>
              (if msg_opcode msg = OP_SIZE then invoke_size msg list m
               else if msg_opcode msg = OP_ADD then invoke_add msg list m
               else if msg_opcode msg = OP_GET then invoke_get msg list m
               else if msg_opcode msg = OP_GETLISTBYTEAR then invoke_getlist msg list m
               else if msg_opcode msg = OP_GETMODELS then invoke_getmodels msg list m
               else if msg_opcode msg = OP_DEL then invoke_del msg list m
               else Some (0, reply_error msg, m));
            Some (r, Some msg, m1)
          })"

end
