(* ===== verification/HostAddr.thy ===== *)
theory HostAddr
  imports CText
begin

text \<open>
  \<open>get_addr\<close> and \<open>detect_ip\<close> of \<open>source/chain_server.c\<close>: the address a server
  advertises.
\<close>

section \<open>The address of the server\<close>

text \<open>The interfaces: a name, and the text of the IPv4 address if there is one.\<close>

type_synonym interface = "string \<times> string option"

fun first_address :: "(string \<Rightarrow> string \<Rightarrow> bool) \<Rightarrow> interface list \<Rightarrow> string option" where
  "first_address ok [] = None"
| "first_address ok ((name, addr) # ifs) =
     (case addr of
        None \<Rightarrow> first_address ok ifs
      | Some ip \<Rightarrow> if ok name ip then Some ip else first_address ok ifs)"

definition detect_ip :: "interface list option \<Rightarrow> nat \<Rightarrow> string option" where
  "detect_ip ifaddr buflen =
     (case ifaddr of
        None \<Rightarrow> None
      | Some ifs \<Rightarrow>
          let named = (\<lambda>prefix. first_address (\<lambda>name _. take (length prefix) name = prefix) ifs)
          in (case named ''eth'' of
               Some ip \<Rightarrow> Some ip
             | None \<Rightarrow> (case named ''wlan'' of
                 Some ip \<Rightarrow> Some ip
               | None \<Rightarrow> map_option (take (buflen - 1)) (first_address (\<lambda>_ ip. ip \<noteq> ''127.0.0.1'') ifs))))"

text \<open>What the environment gives: \<open>ADVERTISE_ADDR\<close>, the interfaces, and the host name.\<close>

record host_env =
  advertise_addr :: "string option"
  if_addrs :: "interface list option"
  host_name :: "string option"

definition get_addr :: "host_env \<Rightarrow> nat \<Rightarrow> string" where
  "get_addr env buf =
     (case advertise_addr env of
        Some (c # cs) \<Rightarrow> take (buf - 1) (c # cs)
      | _ \<Rightarrow> (case detect_ip (if_addrs env) buf of
          Some ip \<Rightarrow> ip
        | None \<Rightarrow> (case host_name env of Some h \<Rightarrow> take (buf - 1) h | None \<Rightarrow> take (buf - 1) ''127.0.0.1'')))"

end
