(* ===== verification/ChainServer.thy ===== *)
theory ChainServer
  imports ClientStub SkelC HostAddr
begin

text \<open>
  \<open>source/chain_server.c\<close>: a server's place in the chain.  It registers a sequential node in
  ZooKeeper, keeps a connection to its successor (the node with the next higher number), copies the
  list of its predecessor when it starts, and forwards requests.  ZooKeeper is a service the code
  calls: its answers are a parameter (\<open>zoo\<close>), and so are the connections that dialling an
  address gives.
\<close>

section \<open>The state and the service\<close>

text \<open>\<open>zk_get\<close>: \<open>None\<close> when it fails, \<open>Some None\<close> for a node without data.\<close>

record zoo =
  zk_connects :: bool
  zk_root_exists :: bool
  zk_root_created :: bool
  zk_register :: "string \<Rightarrow> string option"
  zk_children :: "string list option"
  zk_get :: "string \<Rightarrow> string option option"

record chain =
  zh_open :: bool
  node_path :: string
  rl_next_server :: "rlist_t option"
  next_conn :: conn

text \<open>The flag \<open>is_connected\<close> after an event of the session; nothing in the program reads it.\<close>

definition connection_watcher :: "bool \<Rightarrow> bool \<Rightarrow> bool \<Rightarrow> bool" where
  "connection_watcher session_event connected is_connected =
     (if session_event then (if connected then True else False) else is_connected)"

section \<open>Choosing the neighbours\<close>

abbreviation (input) INT_MAX :: i32 where "INT_MAX \<equiv> 0x7FFFFFFF"
abbreviation (input) INT_MIN :: i32 where "INT_MIN \<equiv> 0x80000000"

definition own_number :: "string \<Rightarrow> i32 option" where
  "own_number path = sscanf_d ''/chain/node-'' path"

definition node_number :: "string \<Rightarrow> i32 option" where
  "node_number name = sscanf_d ''node-'' name"

text \<open>
  The scan of \<open>update\<close>: the child with the least number above \<open>lower\<close>.  \<open>lower\<close> is
  \<open>None\<close> when it was never assigned; comparing it is then undefined.
\<close>

fun next_scan :: "i32 option \<Rightarrow> int \<Rightarrow> string list \<Rightarrow> i32 \<times> int \<Rightarrow> (i32 \<times> int) option" where
  "next_scan lower i [] best = Some best"
| "next_scan lower i (c # cs) (nxt, nextIndex) =
     (case node_number c of
        None \<Rightarrow> next_scan lower (i + 1) cs (nxt, nextIndex)
      | Some num \<Rightarrow> do {
          low \<leftarrow> lower;
          next_scan lower (i + 1) cs
            (if sint low < sint num \<and> sint num < sint nxt then (num, i) else (nxt, nextIndex))
        })"

text \<open>The scan of \<open>init_list\<close>: the child with the greatest number below \<open>maximum\<close>.\<close>

fun prev_scan :: "i32 option \<Rightarrow> int \<Rightarrow> string list \<Rightarrow> i32 \<times> int \<Rightarrow> (i32 \<times> int) option" where
  "prev_scan maximum i [] best = Some best"
| "prev_scan maximum i (c # cs) (prev, prevIndex) =
     (case node_number c of
        None \<Rightarrow> prev_scan maximum (i + 1) cs (prev, prevIndex)
      | Some num \<Rightarrow> do {
          hi \<leftarrow> maximum;
          prev_scan maximum (i + 1) cs
            (if sint num < sint hi \<and> sint prev < sint num then (num, i) else (prev, prevIndex))
        })"

text \<open>The first line of the data of a node, as the code cuts it; the buffer has 1 MiB.\<close>

definition first_line :: "string \<Rightarrow> string" where
  "first_line s = takeWhile (\<lambda>c. of_char c \<notin> {0, 10, 13 :: nat}) (take 1048575 s)"

definition zk_path :: "string \<Rightarrow> string" where
  "zk_path node = take 1023 (''/chain/'' @ node)"

section \<open>Following the chain\<close>

definition update ::
  "codec \<Rightarrow> dialer \<Rightarrow> (string \<Rightarrow> conn) \<Rightarrow> zoo \<Rightarrow> string list \<Rightarrow> chain \<Rightarrow> mem \<Rightarrow> (chain \<times> mem) option" where
  "update cd os peers zk children ch m =
     (if length children = 0 then Some (ch, m)
      else let ch1 = (if rl_next_server ch = None then ch
             else ch\<lparr>next_conn := snd (rlist_disconnect (rl_next_server ch) (next_conn ch)),
                     rl_next_server := None\<rparr>)
      in if length children > 1 then do {
           (nxt, nextIndex) \<leftarrow> next_scan (own_number (node_path ch1)) 0 children (INT_MAX, -1);
           if nextIndex = -1 then Some (ch1, m)
           else case zk_get zk (zk_path (children ! nat nextIndex)) of
               None \<Rightarrow> Some (ch1, m)
             | Some data \<Rightarrow> do {
                 data \<leftarrow> data;
                 let buffer = first_line data;
                 (rl, s, m1) \<leftarrow> rlist_connect cd os (Some buffer) (peers buffer) m;
                 Some (ch1\<lparr>rl_next_server := rl, next_conn := s\<rparr>, m1)
               }
         }
         else Some (ch1, m))"

text \<open>An event of ZooKeeper on the children of \<open>/chain\<close>, in a connected session.\<close>

definition child_watcher ::
  "codec \<Rightarrow> dialer \<Rightarrow> (string \<Rightarrow> conn) \<Rightarrow> zoo \<Rightarrow> bool \<Rightarrow> bool \<Rightarrow> chain \<Rightarrow> mem \<Rightarrow> (chain \<times> mem) option" where
  "child_watcher cd os peers zk connected child_event ch m =
     (if connected \<and> child_event then
        case zk_children zk of
          None \<Rightarrow> Some (ch, m)
        | Some children \<Rightarrow> update cd os peers zk children ch m
      else Some (ch, m))"

section \<open>Copying the list of the predecessor\<close>

partial_function (option) cars_adopt ::
  "nat \<Rightarrow> nat \<Rightarrow> pdata option arr \<Rightarrow> ptr \<Rightarrow> mem \<Rightarrow> (int \<times> mem) option" where
  "cars_adopt i n res_cars list m =
     (if i < n then do {
        d \<leftarrow> arr_get i res_cars;
        d \<leftarrow> d;
        (car, m1) \<leftarrow> data_create (p_ano d) (p_preco d) (p_marca d) (p_modelo d) (p_combustivel d) m;
        if car = None then Some (-1, m1)
        else do {
          (r, m2) \<leftarrow> list_add list car m1;
          if r \<noteq> 0 then do {
            (r, m3) \<leftarrow> data_destroy car m2;
            Some (-1, m3)
          } else cars_adopt (Suc i) n res_cars list m2
        }
      } else Some (0, m))"

definition rlist_get_list_add ::
  "codec \<Rightarrow> rlist_t option \<Rightarrow> ptr \<Rightarrow> conn \<Rightarrow> mem \<Rightarrow> (int \<times> conn \<times> mem) option" where
  "rlist_get_list_add cd rlist list s m =
     (if rlist = None then Some (-1, s, m)
      else do {
        (res, s1, m1) \<leftarrow> network_send_receive cd rlist (Some (message_t_init\<lparr>msg_opcode := OP_GETLISTBYTEAR,
          msg_c_type := CT_RESULT, msg_result := -1\<rparr>)) s m;
        if \<not> op_success res OP_GETLISTBYTEAR CT_LIST then Some (-1, s1, m1)
        else do {
          res \<leftarrow> res;
          if msg_n_cars res = 0 then Some (0, s1, m1)
          else do {
            res_cars \<leftarrow> msg_cars res;
            (r, m2) \<leftarrow> cars_adopt 0 (msg_n_cars res) res_cars list m1;
            Some (r, s1, m2)
          }
        }
      })"

definition init_list ::
  "codec \<Rightarrow> dialer \<Rightarrow> (string \<Rightarrow> conn) \<Rightarrow> zoo \<Rightarrow> string list \<Rightarrow> ptr \<Rightarrow> chain \<Rightarrow> mem \<Rightarrow> (int \<times> mem) option" where
  "init_list cd os peers zk children list ch m =
     (if length children \<le> 1 then Some (1, m)
      else do {
        (prev, prevIndex) \<leftarrow> prev_scan (own_number (node_path ch)) 0 children (INT_MIN, -1);
        if prevIndex = -1 then Some (1, m)
        else case zk_get zk (zk_path (children ! nat prevIndex)) of
            None \<Rightarrow> Some (-1, m)
          | Some data \<Rightarrow> do {
              data \<leftarrow> data;
              let buffer = first_line data;
              (rl, s, m1) \<leftarrow> rlist_connect cd os (Some buffer) (peers buffer) m;
              if rl = None then Some (-1, m1)
              else do {
                (r, s1, m2) \<leftarrow> rlist_get_list_add cd rl list s m1;
                if r = -1 then Some (-1, m2)
                else if fst (rlist_disconnect rl s1) = -1 then Some (-1, m2)
                else Some (1, m2)
              }
            }
      })"

section \<open>Forwarding, starting and stopping\<close>

definition zoo_forward_to_successor ::
  "codec \<Rightarrow> MessageT option \<Rightarrow> chain \<Rightarrow> mem \<Rightarrow> (int \<times> chain \<times> mem) option" where
  "zoo_forward_to_successor cd msg ch m =
     (if msg = None then Some (-1, ch, m)
      else if rl_next_server ch = None then Some (-2, ch, m)
      else do {
        (resp, s1, m1) \<leftarrow> network_send_receive cd (rl_next_server ch) msg (next_conn ch) m;
        Some (if resp \<noteq> None then 0 else -1, ch\<lparr>next_conn := s1\<rparr>, m1)
      })"

text \<open>\<open>hostbuf\<close> has 256 bytes; \<open>regdata\<close> is the text \<open>host:port\<close> in 512 bytes.\<close>

definition zoo_init_server ::
  "codec \<Rightarrow> dialer \<Rightarrow> (string \<Rightarrow> conn) \<Rightarrow> zoo \<Rightarrow> host_env \<Rightarrow> string option \<Rightarrow> i32 \<Rightarrow> ptr \<Rightarrow> chain \<Rightarrow> mem \<Rightarrow>
     (int \<times> chain \<times> mem) option" where
  "zoo_init_server cd os peers zk env hp port list ch m =
     (if hp = None then Some (-1, ch, m)
      else if \<not> zk_connects zk then Some (-1, ch\<lparr>zh_open := False\<rparr>, m)
      else let ch1 = ch\<lparr>zh_open := True\<rparr>
      in if \<not> zk_root_exists zk \<and> \<not> zk_root_created zk then Some (-1, ch1, m)
      else let regdata = get_addr env 256 @ '':'' @ dec_int (sint port)
      in if 512 \<le> length regdata then Some (-1, ch1, m)
      else (case zk_register zk regdata of
          None \<Rightarrow> Some (-1, ch1, m)
        | Some path \<Rightarrow>
            let ch2 = ch1\<lparr>node_path := path\<rparr>
            in (case zk_children zk of
                None \<Rightarrow> Some (-1, ch2, m)
              | Some children \<Rightarrow> do {
                  (ch3, m1) \<leftarrow> update cd os peers zk children ch2 m;
                  (r, m2) \<leftarrow> init_list cd os peers zk children list ch3 m1;
                  Some (if r < 0 then -1 else 1, ch3, m2)
                })))"

definition zoo_clean_server :: "chain \<Rightarrow> chain" where
  "zoo_clean_server ch =
     (if \<not> zh_open ch then ch
      else let ch1 = (if rl_next_server ch = None then ch
             else ch\<lparr>next_conn := snd (rlist_disconnect (rl_next_server ch) (next_conn ch)),
                     rl_next_server := None\<rparr>)
      in ch1\<lparr>zh_open := False\<rparr>)"

end
