(* ===== verification/Fifo.thy ===== *)
theory Fifo
  imports Prelude "HOL-Library.Sublist"
begin

text \<open>
  The contract of a first-in first-out queue whose elements may be dropped when no memory is left,
  and what follows from it for runs of operations.  The log of the server is its interpretation.
\<close>

datatype 'a queue_op = Enq 'a | Deq

text \<open>The elements that the \<open>Deq\<close> operations return, in order; \<open>Deq\<close> of an empty queue does nothing.\<close>

fun queue_run ::
  "('a \<Rightarrow> 'q \<Rightarrow> 'q option) \<Rightarrow> ('q \<Rightarrow> ('a option \<times> 'q) option) \<Rightarrow> 'a queue_op list \<Rightarrow> 'q \<Rightarrow> ('a list \<times> 'q) option" where
  "queue_run enq deq [] q = Some ([], q)"
| "queue_run enq deq (Enq x # ops) q = do { q1 \<leftarrow> enq x q; queue_run enq deq ops q1 }"
| "queue_run enq deq (Deq # ops) q = do {
     (r, q1) \<leftarrow> deq q;
     (xs, q2) \<leftarrow> queue_run enq deq ops q1;
     Some ((case r of None \<Rightarrow> xs | Some x \<Rightarrow> x # xs), q2)
   }"

fun enqueued :: "'a queue_op list \<Rightarrow> 'a list" where
  "enqueued [] = []"
| "enqueued (Enq x # ops) = x # enqueued ops"
| "enqueued (Deq # ops) = enqueued ops"

locale fifo_queue =
  fixes holds :: "'q \<Rightarrow> 'a list \<Rightarrow> bool"
    and room :: "'q \<Rightarrow> bool"
    and enq :: "'a \<Rightarrow> 'q \<Rightarrow> 'q option"
    and deq :: "'q \<Rightarrow> ('a option \<times> 'q) option"
  assumes enq_law: "holds q xs \<Longrightarrow> \<exists>q'. enq x q = Some q' \<and>
      (holds q' (xs @ [x]) \<or> \<not> room q \<and> holds q' xs) \<and> (room q \<longrightarrow> room q')"
    and deq_law: "holds q xs \<Longrightarrow> \<exists>q'. deq q = Some (case xs of [] \<Rightarrow> None | x # _ \<Rightarrow> Some x, q') \<and>
      holds q' (tl xs) \<and> (room q \<longrightarrow> room q')"
begin

text \<open>Without room elements may be dropped, but nothing is duplicated or reordered.\<close>

lemma run_subseq:
  assumes "holds q xs"
  shows "\<exists>out q' ys. queue_run enq deq ops q = Some (out, q') \<and> holds q' ys \<and>
    subseq (out @ ys) (xs @ enqueued ops)"
  using assms
proof (induction ops arbitrary: q xs)
  case Nil
  then show ?case by auto
next
  case (Cons op ops)
  show ?case
  proof (cases op)
    case (Enq x)
    obtain q1 zs where q1: "enq x q = Some q1" "holds q1 zs" "subseq zs (xs @ [x])"
      using enq_law[OF Cons.prems, of x] by auto
    from Cons.IH[OF q1(2)] obtain out q' ys where
      run: "queue_run enq deq ops q1 = Some (out, q')" "holds q' ys" "subseq (out @ ys) (zs @ enqueued ops)"
      by blast
    moreover have "subseq (zs @ enqueued ops) ((xs @ [x]) @ enqueued ops)"
      using q1(3) by (intro list_emb_append_mono) simp_all
    ultimately have "subseq (out @ ys) (xs @ x # enqueued ops)"
      using subseq_order.trans by fastforce
    with q1(1) run(1,2) Enq show ?thesis by auto
  next
    case Deq
    obtain q1 where q1: "deq q = Some (case xs of [] \<Rightarrow> None | x # _ \<Rightarrow> Some x, q1)" "holds q1 (tl xs)"
      using deq_law[OF Cons.prems] by blast
    from Cons.IH[OF q1(2)] obtain out q' ys where
      "queue_run enq deq ops q1 = Some (out, q')" "holds q' ys" "subseq (out @ ys) (tl xs @ enqueued ops)"
      by blast
    with q1(1) Deq show ?thesis by (cases xs) auto
  qed
qed

text \<open>With room nothing is lost.\<close>

lemma run_fifo:
  assumes "holds q xs" "room q"
  shows "\<exists>out q' ys. queue_run enq deq ops q = Some (out, q') \<and> holds q' ys \<and> room q' \<and>
    out @ ys = xs @ enqueued ops"
  using assms
proof (induction ops arbitrary: q xs)
  case Nil
  then show ?case by auto
next
  case (Cons op ops)
  show ?case
  proof (cases op)
    case (Enq x)
    obtain q1 where "enq x q = Some q1" "holds q1 (xs @ [x])" "room q1"
      using enq_law[OF Cons.prems(1), of x] Cons.prems(2) by auto
    with Cons.IH[of q1 "xs @ [x]"] Enq show ?thesis by auto
  next
    case Deq
    obtain q1 where q1: "deq q = Some (case xs of [] \<Rightarrow> None | x # _ \<Rightarrow> Some x, q1)" "holds q1 (tl xs)" "room q1"
      using deq_law[OF Cons.prems(1)] Cons.prems(2) by blast
    from Cons.IH[OF q1(2,3)] obtain out q' ys where
      "queue_run enq deq ops q1 = Some (out, q')" "holds q' ys" "room q'"
      "out @ ys = tl xs @ enqueued ops" by blast
    with q1(1) Deq show ?thesis by (cases xs) auto
  qed
qed

end

end
