(* ===== verification/ServerLog.thy ===== *)
theory ServerLog
  imports Fifo NetIO Message HostAddr
begin

text \<open>
  The log of the server, in \<open>source/network_server.c\<close>: the line that \<open>write_in_server_log\<close>
  builds for an event, the linked queue of lines shared under \<open>lock_log\<close>, the writer thread
  \<open>handle_writing\<close> and \<open>close_server_log\<close>.  The nodes of the queue are a store of their own;
  each critical section of the mutex is one operation.
\<close>

section \<open>The line of an event\<close>

datatype event_type = CONNECT | REQUEST | CLOSE

fun etype_str :: "event_type \<Rightarrow> string" where
  "etype_str CONNECT = ''CONNECT''"
| "etype_str REQUEST = ''REQUEST''"
| "etype_str CLOSE = ''CLOSE''"

definition op_str :: "u32 \<Rightarrow> string" where
  "op_str op =
     (if op = 10 then ''OP_ADD'' else if op = 20 then ''OP_GET'' else if op = 30 then ''OP_DEL''
      else if op = 40 then ''OP_SIZE'' else if op = 50 then ''OP_GETMODELS''
      else if op = 60 then ''OP_GETLISTBYTEAR'' else if op = 70 then ''OP_ORDER''
      else if op = 99 then ''OP_ERROR'' else if op = 100 then ''OP_BUSY''
      else if op = 101 then ''OP_READY'' else ''UNKNOWN'')"

definition ct_str :: "u32 \<Rightarrow> string" where
  "ct_str ct =
     (if ct = 10 then ''CT_DATA'' else if ct = 20 then ''CT_MARCA'' else if ct = 30 then ''CT_YEAR''
      else if ct = 40 then ''CT_MODEL'' else if ct = 50 then ''CT_RESULT''
      else if ct = 60 then ''CT_LIST'' else if ct = 70 then ''CT_NONE'' else ''UNKNOWN'')"

text \<open>Words with a space between them and the newline of the line, as the format strings have them.\<close>

fun spaced :: "string list \<Rightarrow> string" where
  "spaced [] = [char_of (10 :: nat)]"
| "spaced [w] = w @ [char_of (10 :: nat)]"
| "spaced (w # ws) = w @ '' '' @ spaced ws"

text \<open>
  \<open>addrbuf\<close>: what \<open>getpeername\<close> and \<open>inet_ntop\<close> gave.  Its 64 bytes are enough for any
  IPv4 address and port.
\<close>

definition addrbuf :: "(string \<times> nat) option \<Rightarrow> string" where
  "addrbuf peer = (case peer of None \<Rightarrow> ''UNKNOWN:0'' | Some (ip, port) \<Rightarrow> ip @ '':'' @ dec_nat port)"

text \<open>
  \<open>final_line\<close>, or \<open>Some None\<close> when the code builds none; \<open>None\<close> is the dereference of
  \<open>msg->models\<close> when it is NULL.
\<close>

definition final_line :: "int \<Rightarrow> (string \<times> nat) option \<Rightarrow> event_type \<Rightarrow> MessageT option \<Rightarrow> string option option" where
  "final_line ts peer etype msg =
     (let head = [dec_int ts, addrbuf peer, etype_str etype]
      in case msg of
        None \<Rightarrow> Some (Some (spaced head))
      | Some msg \<Rightarrow>
          let head = head @ [op_str (msg_opcode msg), ct_str (msg_c_type msg)]
          in if msg_opcode msg = OP_ADD then
               (let modelo = (case msg_data msg of None \<Rightarrow> ''-''
                              | Some d \<Rightarrow> (case p_modelo d of None \<Rightarrow> ''-'' | Some s \<Rightarrow> s));
                    marca = (case msg_data msg of None \<Rightarrow> 0 | Some d \<Rightarrow> sint (p_marca d));
                    comb = (case msg_data msg of None \<Rightarrow> 0 | Some d \<Rightarrow> sint (p_combustivel d));
                    ano = (case msg_data msg of None \<Rightarrow> 0 | Some d \<Rightarrow> sint (p_ano d));
                    preco = (case msg_data msg of None \<Rightarrow> 0 | Some d \<Rightarrow> p_preco d)
                in Some (Some (spaced (head @
                     [modelo, dec_int ano, float_2f preco, dec_int marca, dec_int comb]))))
             else if msg_opcode msg = OP_DEL then do {
               ms \<leftarrow> msg_models msg;
               s \<leftarrow> arr_get 0 ms;
               Some (Some (spaced (head @ [case s of None \<Rightarrow> ''-'' | Some s \<Rightarrow> s])))
             }
             else if msg_opcode msg = OP_GET \<or> msg_opcode msg = OP_GETLISTBYTEAR then
               Some (Some (spaced (head @ [dec_int (sint (msg_result msg))])))
             else if msg_opcode msg = OP_GETMODELS \<or> msg_opcode msg = OP_SIZE then
               Some (Some (spaced head))
             else Some None)"

section \<open>The queue of lines\<close>

record log_node =
  log_str :: "string option"
  log_next :: ptr

record server_log =
  log_nodes :: "addr \<rightharpoonup> log_node"
  log_head :: ptr
  log_tail :: ptr
  log_brk :: nat
  log_avail :: "nat \<Rightarrow> bool"
  writer_running :: bool
  filed :: string
  file_room :: "out_event list"

text \<open>The last lines of \<open>write_in_server_log\<close>: a new node behind the tail, under the mutex.\<close>

definition log_enqueue :: "string option \<Rightarrow> server_log \<Rightarrow> server_log option" where
  "log_enqueue line q =
     (let a = log_brk q; q1 = q\<lparr>log_brk := Suc a\<rparr>
      in if \<not> log_avail q a then Some q1
      else let q2 = q1\<lparr>log_nodes := (log_nodes q1)(a \<mapsto> \<lparr>log_str = line, log_next = None\<rparr>)\<rparr>
      in case log_tail q2 of
           None \<Rightarrow> Some (q2\<lparr>log_head := Some a, log_tail := Some a\<rparr>)
         | Some t \<Rightarrow> do {
             n \<leftarrow> log_nodes q2 t;
             Some (q2\<lparr>log_nodes := (log_nodes q2)(t \<mapsto> n\<lparr>log_next := Some a\<rparr>), log_tail := Some a\<rparr>)
           })"

text \<open>
  The whole of \<open>write_in_server_log\<close>: \<open>ts\<close> is the answer of \<open>gettimeofday\<close> (\<open>None\<close>
  when it fails), \<open>peer\<close> that of \<open>getpeername\<close> for a socket that is not negative.
\<close>

definition write_in_server_log ::
  "int option \<Rightarrow> (string \<times> nat) option \<Rightarrow> event_type \<Rightarrow> MessageT option \<Rightarrow> server_log \<Rightarrow> server_log option" where
  "write_in_server_log ts peer etype msg q =
     (case ts of
        None \<Rightarrow> Some q
      | Some ts \<Rightarrow> do {
          line \<leftarrow> final_line ts peer etype msg;
          if line = None then log_enqueue None q
          else let a = log_brk q; q1 = q\<lparr>log_brk := Suc a\<rparr>
            in if \<not> log_avail q a then Some q1 else log_enqueue line q1
        })"

text \<open>Taking the first node off the queue, and freeing it after its line was written.\<close>

definition log_dequeue :: "server_log \<Rightarrow> (string option option \<times> server_log) option" where
  "log_dequeue q =
     (case log_head q of
        None \<Rightarrow> Some (None, q)
      | Some a \<Rightarrow> do {
          n \<leftarrow> log_nodes q a;
          let q1 = q\<lparr>log_head := log_next n\<rparr>;
          let q2 = (if log_head q1 = None then q1\<lparr>log_tail := None\<rparr> else q1);
          Some (Some (log_str n), q2\<lparr>log_nodes := (log_nodes q2)(a := None)\<rparr>)
        })"

section \<open>The writer thread\<close>

text \<open>The loop on \<open>write\<close>: a failure other than \<open>EINTR\<close> drops the rest of the line.\<close>

partial_function (option) write_line :: "string \<Rightarrow> out_event list \<Rightarrow> string \<Rightarrow> (out_event list \<times> string) option" where
  "write_line p evs file =
     (if p = [] then Some (evs, file)
      else case evs of
        [] \<Rightarrow> None
      | Room w # es \<Rightarrow>
          if w \<le> length p then write_line (drop w p) es (file @ take w p)
          else Some (Room (w - length p) # es, file @ p)
      | SendFail e # es \<Rightarrow> if e = EINTR then write_line p es file else Some (es, file))"

datatype writer_turn = Waits | Stops | Wrote server_log

definition writer_turn :: "server_log \<Rightarrow> writer_turn option" where
  "writer_turn q =
     (if log_head q = None then Some (if writer_running q then Waits else Stops)
      else do {
        (line, q1) \<leftarrow> log_dequeue q;
        case line of
          Some (Some s) \<Rightarrow> do {
            (evs, file) \<leftarrow> write_line s (file_room q1) (filed q1);
            Some (Wrote (q1\<lparr>file_room := evs, filed := file\<rparr>))
          }
        | _ \<Rightarrow> Some (Wrote q1)
      })"

text \<open>\<open>handle_writing\<close> from a state in which nobody else adds lines, until the thread ends.\<close>

partial_function (option) handle_writing :: "server_log \<Rightarrow> server_log option" where
  "handle_writing q = do {
     t \<leftarrow> writer_turn q;
     case t of Waits \<Rightarrow> None | Stops \<Rightarrow> Some q | Wrote q' \<Rightarrow> handle_writing q'
   }"

partial_function (option) free_log_nodes :: "ptr \<Rightarrow> server_log \<Rightarrow> server_log option" where
  "free_log_nodes cur q =
     (case cur of
        None \<Rightarrow> Some q
      | Some a \<Rightarrow> do {
          n \<leftarrow> log_nodes q a;
          free_log_nodes (log_next n) (q\<lparr>log_nodes := (log_nodes q)(a := None)\<rparr>)
        })"

text \<open>
  \<open>pthread_join\<close> waits for the writer; when \<open>create_server_log\<close> did not start it, the join of
  the uninitialised thread id is undefined.
\<close>

definition close_server_log :: "server_log \<Rightarrow> server_log option" where
  "close_server_log q = (if \<not> writer_running q then None else do {
     q1 \<leftarrow> handle_writing (q\<lparr>writer_running := False\<rparr>);
     q2 \<leftarrow> free_log_nodes (log_head q1) q1;
     Some (q2\<lparr>log_head := None, log_tail := None\<rparr>)
   })"

text \<open>
  \<open>create_server_log\<close>: the name of the file, whether \<open>open\<close> succeeds on it, and whether the
  thread starts.  The result is 1 or -1, and the log.
\<close>

definition log_filename :: "host_env \<Rightarrow> i32 \<Rightarrow> string" where
  "log_filename env port = ''server_'' @ get_addr env 256 @ ''_'' @ dec_int (sint port) @ ''.log''"

definition fresh_log :: "(nat \<Rightarrow> bool) \<Rightarrow> out_event list \<Rightarrow> bool \<Rightarrow> server_log" where
  "fresh_log avail evs running =
     \<lparr>log_nodes = Map.empty, log_head = None, log_tail = None, log_brk = 0, log_avail = avail,
      writer_running = running, filed = [], file_room = evs\<rparr>"

definition create_server_log ::
  "host_env \<Rightarrow> i32 \<Rightarrow> (string \<Rightarrow> bool) \<Rightarrow> bool \<Rightarrow> (nat \<Rightarrow> bool) \<Rightarrow> out_event list \<Rightarrow> int \<times> server_log" where
  "create_server_log env port opens starts avail evs =
     (if 256 \<le> length (log_filename env port) then (-1, fresh_log avail evs False)
      else if \<not> opens (log_filename env port) then (-1, fresh_log avail evs False)
      else if \<not> starts then (-1, fresh_log avail evs False)
      else (1, fresh_log avail evs True))"

end
