(* ===== verification/NetServer.thy ===== *)
theory NetServer
  imports ChainServer ServerLog
begin

text \<open>
  The server proper, in \<open>source/network_server.c\<close>: the slots of the clients, the thread that
  serves one client, and one turn of the loop that accepts connections.  What the threads share (the
  list, the chain, the log, the slots) is the state \<open>server\<close>; each part of the code that runs under
  a mutex is one definition, so an interleaving of threads is a sequence of these definitions.
\<close>

section \<open>The slots of the clients\<close>

abbreviation (input) NUM_CLIENTS :: nat where "NUM_CLIENTS \<equiv> 5"
abbreviation (input) NUM_MAX_CLIENTS :: nat where "NUM_MAX_CLIENTS \<equiv> 6"

record cl =
  client_socket :: int
  tid :: int

record clients =
  num_clients :: int
  client_list :: "cl list"

text \<open>\<open>memset (&client_list, -1, ...)\<close>.\<close>

definition no_clients :: clients where
  "no_clients = \<lparr>num_clients = 0, client_list = replicate NUM_MAX_CLIENTS \<lparr>client_socket = -1, tid = -1\<rparr>\<rparr>"

text \<open>The first free slot is taken, and only then the client is counted.\<close>

fun claim_first :: "int \<Rightarrow> int \<Rightarrow> cl list \<Rightarrow> cl list option" where
  "claim_first sock t [] = None"
| "claim_first sock t (c # cs) =
     (if client_socket c = -1 then Some (c\<lparr>client_socket := sock, tid := t\<rparr> # cs)
      else map_option ((#) c) (claim_first sock t cs))"

definition claim_slot :: "int \<Rightarrow> int \<Rightarrow> clients \<Rightarrow> clients" where
  "claim_slot sock t k =
     (case claim_first sock t (client_list k) of
        None \<Rightarrow> k
      | Some cs \<Rightarrow> k\<lparr>client_list := cs, num_clients := num_clients k + 1\<rparr>)"

definition release_slot :: "int \<Rightarrow> int \<Rightarrow> clients \<Rightarrow> clients" where
  "release_slot sock t k =
     k\<lparr>num_clients := num_clients k - 1,
       client_list := map (\<lambda>c. if client_socket c = sock \<and> tid c = t then c\<lparr>client_socket := -1\<rparr> else c)
         (client_list k)\<rparr>"

section \<open>The state the threads share\<close>

text \<open>
  \<open>sv_clock\<close> is what \<open>gettimeofday\<close> answers and \<open>sv_shutdown\<close> whether the flag
  \<open>server_shutdown\<close> is set, both at the event number \<open>sv_ticks\<close>.
\<close>

record server =
  sv_mem :: mem
  sv_list :: ptr
  sv_chain :: chain
  sv_log :: server_log
  sv_clients :: clients
  sv_ticks :: nat
  sv_clock :: "nat \<Rightarrow> int option"
  sv_shutdown :: "nat \<Rightarrow> bool"

definition log_event ::
  "(string \<times> nat) option \<Rightarrow> event_type \<Rightarrow> MessageT option \<Rightarrow> server \<Rightarrow> server option" where
  "log_event peer etype msg sv = do {
     lg \<leftarrow> write_in_server_log (sv_clock sv (sv_ticks sv)) peer etype msg (sv_log sv);
     Some (sv\<lparr>sv_log := lg, sv_ticks := Suc (sv_ticks sv)\<rparr>)
   }"

section \<open>One request\<close>

definition needs_forward :: "MessageT \<Rightarrow> bool" where
  "needs_forward request \<longleftrightarrow> msg_opcode request = OP_ADD \<or> msg_opcode request = OP_DEL \<or>
     msg_opcode request = OP_ORDER"

definition apply_local :: "MessageT \<Rightarrow> server \<Rightarrow> (MessageT \<times> server) option" where
  "apply_local request sv = do {
     (r, reply, m1) \<leftarrow> invoke (Some request) (sv_list sv) (sv_mem sv);
     reply \<leftarrow> reply;
     Some (reply, sv\<lparr>sv_mem := m1\<rparr>)
   }"

text \<open>
  The critical section of \<open>lock_list\<close>.  It is generic in the way a request reaches the successor,
  so that a chain of servers can also be composed at the level of messages.
\<close>

definition handle_with ::
  "(MessageT \<Rightarrow> 'sv \<Rightarrow> (int \<times> 'sv) option) \<Rightarrow> (MessageT \<Rightarrow> 'sv \<Rightarrow> (MessageT \<times> 'sv) option) \<Rightarrow>
     MessageT \<Rightarrow> 'sv \<Rightarrow> (MessageT \<times> 'sv) option" where
  "handle_with fwd loc request sv =
     (if needs_forward request then do {
        (fwd_rc, sv1) \<leftarrow> fwd request sv;
        if fwd_rc = -2 then loc request sv1
        else if fwd_rc \<noteq> 0 then Some (request\<lparr>msg_opcode := OP_ERROR, msg_result := -1\<rparr>, sv1)
        else loc request sv1
      }
      else loc request sv)"

definition forward_request :: "codec \<Rightarrow> MessageT \<Rightarrow> server \<Rightarrow> (int \<times> server) option" where
  "forward_request cd request sv = do {
     (rc, ch, m1) \<leftarrow> zoo_forward_to_successor cd (Some request) (sv_chain sv) (sv_mem sv);
     Some (rc, sv\<lparr>sv_chain := ch, sv_mem := m1\<rparr>)
   }"

definition handle_request :: "codec \<Rightarrow> MessageT \<Rightarrow> server \<Rightarrow> (MessageT \<times> server) option" where
  "handle_request cd request sv = handle_with (forward_request cd) apply_local request sv"

section \<open>The thread of a client\<close>

text \<open>One turn of the loop; the first component says whether the loop goes on.\<close>

definition client_turn ::
  "codec \<Rightarrow> (string \<times> nat) option \<Rightarrow> conn \<Rightarrow> server \<Rightarrow> (bool \<times> conn \<times> server) option" where
  "client_turn cd peer s sv = do {
     (request, s1, m1) \<leftarrow> network_receive cd s (sv_mem sv);
     let sv1 = sv\<lparr>sv_mem := m1\<rparr>;
     case request of
       None \<Rightarrow> Some (False, s1, sv1)
     | Some request \<Rightarrow> do {
         sv2 \<leftarrow> log_event peer REQUEST (Some request) sv1;
         (reply, sv3) \<leftarrow> handle_request cd request sv2;
         (r, s2, m2) \<leftarrow> network_send cd reply s1 (sv_mem sv3);
         Some (\<not> r < 0, s2, sv3\<lparr>sv_mem := m2\<rparr>)
       }
   }"

partial_function (option) client_loop ::
  "codec \<Rightarrow> (string \<times> nat) option \<Rightarrow> conn \<Rightarrow> server \<Rightarrow> (conn \<times> server) option" where
  "client_loop cd peer s sv =
     (if sv_shutdown sv (sv_ticks sv) then Some (s, sv)
      else do {
        (continue, s1, sv1) \<leftarrow> client_turn cd peer s sv;
        if continue then client_loop cd peer s1 sv1 else Some (s1, sv1)
      })"

definition client_thread ::
  "codec \<Rightarrow> int \<Rightarrow> int \<Rightarrow> (string \<times> nat) option \<Rightarrow> conn \<Rightarrow> server \<Rightarrow> (conn \<times> server) option" where
  "client_thread cd t sock peer s sv = do {
     let sv1 = sv\<lparr>sv_clients := claim_slot sock t (sv_clients sv)\<rparr>;
     sv2 \<leftarrow> log_event peer CONNECT None sv1;
     (s1, sv3) \<leftarrow> client_loop cd peer s sv2;
     sv4 \<leftarrow> log_event peer CLOSE None sv3;
     let s2 = snd (sys_close s1);
     Some (s2, sv4\<lparr>sv_clients := release_slot sock t (sv_clients sv4)\<rparr>)
   }"

section \<open>Accepting connections\<close>

text \<open>
  One turn of \<open>network_main_loop\<close>.  \<open>accepted\<close> is the answer of \<open>accept\<close>, \<open>stopping\<close>
  the shutdown flag after it, \<open>starts\<close> whether \<open>pthread_create\<close> succeeds.
\<close>

datatype accepted = Accepted conn | AcceptFailed int

datatype main_turn = Leave int | Retry | Rejected conn mem | Started conn mem

definition opcode_msg :: "u32 \<Rightarrow> MessageT" where
  "opcode_msg op = message_t_init\<lparr>msg_opcode := op\<rparr>"

definition main_turn ::
  "codec \<Rightarrow> accepted \<Rightarrow> bool \<Rightarrow> bool \<Rightarrow> clients \<Rightarrow> mem \<Rightarrow> main_turn option" where
  "main_turn cd acc stopping starts k m =
     (if stopping then Some (Leave 0)
      else case acc of
        AcceptFailed e \<Rightarrow>
          Some (if e = EINTR then Retry else if e = EBADF then Leave 0 else Leave (-1))
      | Accepted s \<Rightarrow>
          if num_clients k \<ge> int NUM_MAX_CLIENTS then do {
            (r, s1, m1) \<leftarrow> network_send cd (opcode_msg OP_BUSY) s m;
            Some (Rejected (snd (sys_close s1)) m1)
          }
          else let (granted, m1) = malloc_block m
          in if \<not> granted \<or> \<not> starts then do {
               (r, s1, m2) \<leftarrow> network_send cd (opcode_msg OP_BUSY) s m1;
               Some (Rejected (snd (sys_close s1)) m2)
             }
             else do {
               (r, s1, m2) \<leftarrow> network_send cd (opcode_msg OP_READY) s m1;
               Some (Started s1 m2)
             })"

section \<open>Starting the server\<close>

text \<open>The answers of \<open>socket\<close>, \<open>bind\<close> and \<open>listen\<close>, and the result of
  \<open>create_server_log\<close>, which is not checked.\<close>

definition network_server_init ::
  "int \<Rightarrow> int \<Rightarrow> int \<Rightarrow> int \<times> server_log \<Rightarrow> server \<Rightarrow> int \<times> server" where
  "network_server_init sock bound listening created sv =
     (let sv = sv\<lparr>sv_clients := (sv_clients sv)\<lparr>client_list := client_list no_clients\<rparr>\<rparr>
      in if sock < 0 then (-1, sv)
         else if bound < 0 then (-1, sv)
         else if listening < 0 then (-1, sv)
         else (sock, sv\<lparr>sv_log := snd created\<rparr>))"

end
