(* ===== verification/BubbleSort.thy ===== *)
theory BubbleSort
  imports Main "HOL-Library.Multiset"
begin

text \<open>
  The list-level view of \<open>list_order_by_year\<close>: one pass of the inner loop over a list of
  values with an integer key, the number of inversions that a swapping pass decreases, and the
  fact that a pass keeps the order of equal keys.  The pointer-level loop is shown elsewhere to
  perform these passes, so it ends, and it ends with the stable sort of the list.
\<close>

fun bpass :: "('a \<Rightarrow> int) \<Rightarrow> 'a list \<Rightarrow> bool \<times> 'a list" where
  "bpass f (x # y # zs) =
     (if f y < f x then (True, y # snd (bpass f (x # zs)))
      else (fst (bpass f (y # zs)), x # snd (bpass f (y # zs))))"
| "bpass f xs = (False, xs)"

fun inversions :: "('a \<Rightarrow> int) \<Rightarrow> 'a list \<Rightarrow> nat" where
  "inversions f [] = 0"
| "inversions f (x # xs) = length (filter (\<lambda>y. f y < f x) xs) + inversions f xs"

lemma bpass_mset [simp]: "mset (snd (bpass f xs)) = mset xs"
  by (induction f xs rule: bpass.induct) auto

lemma bpass_set [simp]: "set (snd (bpass f xs)) = set xs"
  by (rule mset_eq_setD) simp

lemma bpass_length [simp]: "length (snd (bpass f xs)) = length xs"
  by (metis bpass_mset size_mset)

lemma bpass_filter_length [simp]:
  "length (filter P (snd (bpass f xs))) = length (filter P xs)"
  by (metis bpass_mset mset_filter size_mset)

text \<open>A pass never adds an inversion, and a pass that swaps removes one.\<close>

lemma bpass_inversions:
  "inversions f (snd (bpass f xs)) + (if fst (bpass f xs) then 1 else 0) \<le> inversions f xs"
proof (induction f xs rule: bpass.induct)
  case (1 f x y zs)
  show ?case
  proof (cases "f y < f x")
    case True
    with "1.IH"(1) show ?thesis by (auto split: if_splits)
  next
    case False
    with "1.IH"(2) show ?thesis by (auto split: if_splits)
  qed
qed auto

text \<open>A pass that does not swap has found the list sorted, and has not changed it.\<close>

lemma bpass_unswapped:
  "\<not> fst (bpass f xs) \<Longrightarrow> snd (bpass f xs) = xs \<and> sorted (map f xs)"
proof (induction f xs rule: bpass.induct)
  case (1 f x y zs)
  then have "\<not> f y < f x" and un: "\<not> fst (bpass f (y # zs))"
    by (auto split: if_splits)
  with "1.IH"(2) have "snd (bpass f (y # zs)) = y # zs" "sorted (map f (y # zs))" by auto
  with \<open>\<not> f y < f x\<close> show ?case by fastforce
qed auto

lemma bpass_stable: "filter (\<lambda>x. f x = k) (snd (bpass f xs)) = filter (\<lambda>x. f x = k) xs"
proof (induction f xs rule: bpass.induct)
  case (1 f x y zs)
  then show ?case by (cases "f y < f x") auto
qed auto

lemma bpass_map: "bpass f (map g xs) = map_prod id (map g) (bpass (f \<circ> g) xs)"
proof (induction "f \<circ> g" xs rule: bpass.induct)
  case (1 x y zs)
  then show ?case by (cases "f (g y) < f (g x)") (auto simp: map_prod_def split: prod.splits)
qed auto

text \<open>A permutation that keeps equal keys in order and is sorted is the stable sort.\<close>

lemma stable_sorted_eq_sort_key:
  assumes "mset ys = mset xs" "\<And>k. filter (\<lambda>x. f x = k) ys = filter (\<lambda>x. f x = k) xs"
    and "sorted (map f ys)"
  shows "ys = sort_key f xs"
proof -
  have "filter (\<lambda>x. f k = f x) ys = filter (\<lambda>x. f k = f x) xs" for k
    using assms(2)[of "f k"] by (simp add: eq_commute)
  then show ?thesis
    using properties_for_sort_key[of ys xs f] assms(1,3) by simp
qed

lemma sort_key_bpass: "sort_key f (snd (bpass f xs)) = sort_key f xs"
proof (rule stable_sorted_eq_sort_key)
  show "filter (\<lambda>x. f x = k) (sort_key f (snd (bpass f xs))) = filter (\<lambda>x. f x = k) xs" for k
    by (metis (mono_tags, lifting) bpass_stable sort_key_stable)
qed auto

lemma map_sort_key: "map g (sort_key (f \<circ> g) xs) = sort_key f (map g xs)"
proof (rule stable_sorted_eq_sort_key)
  show "filter (\<lambda>x. f x = k) (map g (sort_key (f \<circ> g) xs)) = filter (\<lambda>x. f x = k) (map g xs)" for k
    using sort_key_stable[of "f \<circ> g" k xs] by (simp add: filter_map comp_def)
  show "sorted (map f (map g (sort_key (f \<circ> g) xs)))"
    by (metis map_map sorted_sort_key)
qed auto

end
