(* ===== verification/ListRep.thy ===== *)
theory ListRep
  imports ListC BubbleSort
begin

text \<open>
  What it means that the memory holds a list of cars, and the lemmas on linked segments and
  owned blocks that the correctness proofs of \<open>source/list.c\<close> share.
\<close>

section \<open>Linked segments\<close>

text \<open>
  \<open>seg_ptr ns q\<close> is the pointer to the first node of a segment with node addresses \<open>ns\<close>
  that ends in the pointer \<open>q\<close>; \<open>linked N ns ds q\<close> says that the nodes are live, linked
  in this order, and carry the \<open>data\<close> pointers \<open>ds\<close>.
\<close>

definition seg_ptr :: "addr list \<Rightarrow> ptr \<Rightarrow> ptr" where
  "seg_ptr ns q = (case ns of [] \<Rightarrow> q | n # _ \<Rightarrow> Some n)"

lemma seg_ptr_simps [simp]:
  "seg_ptr [] q = q" "seg_ptr (n # ns) q = Some n"
  by (simp_all add: seg_ptr_def)

lemma seg_ptr_append [simp]: "seg_ptr (as @ bs) q = seg_ptr as (seg_ptr bs q)"
  by (cases as) simp_all

lemma seg_ptr_None_iff [simp]: "seg_ptr ns None = None \<longleftrightarrow> ns = []"
  by (cases ns) simp_all

fun linked :: "(addr \<rightharpoonup> car_t) \<Rightarrow> addr list \<Rightarrow> addr list \<Rightarrow> ptr \<Rightarrow> bool" where
  "linked N [] [] q = True"
| "linked N (n # ns) (d # ds) q =
     (N n = Some \<lparr>car_data = Some d, car_next = seg_ptr ns q\<rparr> \<and> linked N ns ds q)"
| "linked N _ _ q = False"

lemma linked_length: "linked N ns ds q \<Longrightarrow> length ns = length ds"
  by (induction N ns ds q rule: linked.induct) auto

lemma linked_append:
  "length as = length das \<Longrightarrow>
     linked N (as @ bs) (das @ dbs) q \<longleftrightarrow> linked N as das (seg_ptr bs q) \<and> linked N bs dbs q"
  by (induction as das rule: list_induct2) auto

lemma linked_cong:
  "(\<And>a. a \<in> set ns \<Longrightarrow> N a = N' a) \<Longrightarrow> linked N ns ds q = linked N' ns ds q"
  by (induction N ns ds q rule: linked.induct) auto

lemma linked_upd [simp]: "a \<notin> set ns \<Longrightarrow> linked (N(a := v)) ns ds q = linked N ns ds q"
  by (rule linked_cong) auto

lemma linked_last:
  "linked N ns ds q \<Longrightarrow> ns \<noteq> [] \<Longrightarrow> N (last ns) = Some \<lparr>car_data = Some (last ds), car_next = q\<rparr>"
proof (induction N ns ds q rule: linked.induct)
  case (2 N n ns d ds q)
  then show ?case using linked_length[of N ns ds q] by (cases ns) (auto simp: linked_length)
qed auto

text \<open>Redirecting the last \<open>next\<close> pointer of a segment.\<close>

lemma linked_set_tail:
  assumes "linked N ns ds q" "ns \<noteq> []" "distinct ns"
  shows "linked (N(last ns \<mapsto> \<lparr>car_data = Some (last ds), car_next = q'\<rparr>)) ns ds q'"
  using assms
proof (induction N ns ds q rule: linked.induct)
  case (2 N n ns d ds q)
  show ?case
  proof (cases "ns = []")
    case True
    with "2.prems" show ?thesis using linked_length[of N ns ds q] by simp
  next
    case False
    moreover from this "2.prems" have "last ns \<noteq> n" "ds \<noteq> []"
      using linked_length[of N ns ds q] by auto
    ultimately show ?thesis using 2 by (cases ns) auto
  qed
qed auto

lemma linked_live: "linked N ns ds q \<Longrightarrow> a \<in> set ns \<Longrightarrow> N a \<noteq> None"
  by (induction N ns ds q rule: linked.induct) auto

section \<open>Owned blocks\<close>

text \<open>
  A block is the address of a \<open>struct data_t\<close>, the address of its \<open>modelo\<close> string, and the
  car they hold.  \<open>blocks m B\<close> says that the live \<open>data_t\<close> blocks and strings of the
  memory are exactly those of \<open>B\<close>, with no sharing.
\<close>

type_synonym block = "addr \<times> addr \<times> car"

abbreviation b_data :: "block \<Rightarrow> addr" where "b_data b \<equiv> fst b"
abbreviation b_str :: "block \<Rightarrow> addr" where "b_str b \<equiv> fst (snd b)"
abbreviation b_car :: "block \<Rightarrow> car" where "b_car b \<equiv> snd (snd b)"

definition blocks :: "mem \<Rightarrow> block list \<Rightarrow> bool" where
  "blocks m B \<longleftrightarrow> distinct (map b_data B) \<and> distinct (map b_str B) \<and>
     list_all (\<lambda>b. car_at m (b_data b) (b_str b) (b_car b)) B \<and>
     dom (m_datas m) = b_data ` set B \<and> dom (m_strs m) = b_str ` set B"

lemma blocks_car_at: "blocks m B \<Longrightarrow> b \<in> set B \<Longrightarrow> car_at m (b_data b) (b_str b) (b_car b)"
  by (simp add: blocks_def list_all_iff)

lemma blocks_perm:
  assumes "mset A = mset B"
  shows "blocks m A = blocks m B"
proof -
  have "set A = set B" using assms by (rule mset_eq_setD)
  moreover have "distinct (map b_data A) = distinct (map b_data B)"
    "distinct (map b_str A) = distinct (map b_str B)"
    using assms by (metis mset_eq_imp_distinct_iff mset_map)+
  ultimately show ?thesis by (simp add: blocks_def list_all_iff)
qed

lemma blocks_same:
  "m_datas m' = m_datas m \<Longrightarrow> m_strs m' = m_strs m \<Longrightarrow> blocks m' B = blocks m B"
  by (simp add: blocks_def car_at_def)

lemma blocks_transfer:
  "blocks m B \<Longrightarrow> m_datas m' = m_datas m \<Longrightarrow> m_strs m' = m_strs m \<Longrightarrow> blocks m' B"
  by (simp add: blocks_def car_at_def)

lemma blocks_with_car:
  assumes "blocks m B" "mem_wf m"
  shows "blocks (with_car c m) ((m_brk m, Suc (m_brk m), c) # B)"
proof -
  have "m_brk m \<notin> dom (m_datas m)" "Suc (m_brk m) \<notin> dom (m_strs m)"
    using mem_wf_fresh[OF assms(2)] by (auto simp: domIff)
  then have "m_brk m \<notin> b_data ` set B" "Suc (m_brk m) \<notin> b_str ` set B"
    using assms(1) by (auto simp: blocks_def)
  with assms(1) show ?thesis by (auto simp: blocks_def list_all_iff car_at_def image_iff)
qed

lemma blocks_destroy:
  assumes "blocks m (b # B)"
  shows "data_destroy (Some (b_data b)) m = Some (0,
      m\<lparr>m_strs := (m_strs m)(b_str b := None), m_datas := (m_datas m)(b_data b := None)\<rparr>)"
    and "blocks (m\<lparr>m_strs := (m_strs m)(b_str b := None),
                   m_datas := (m_datas m)(b_data b := None)\<rparr>) B"
proof -
  have "car_at m (b_data b) (b_str b) (b_car b)"
    using assms by (rule blocks_car_at) simp
  then show "data_destroy (Some (b_data b)) m = Some (0,
      m\<lparr>m_strs := (m_strs m)(b_str b := None), m_datas := (m_datas m)(b_data b := None)\<rparr>)"
    by (rule data_destroy_car_at)
  have "b_data b \<notin> b_data ` set B" "b_str b \<notin> b_str ` set B"
    using assms by (auto simp: blocks_def)
  then show "blocks (m\<lparr>m_strs := (m_strs m)(b_str b := None),
                   m_datas := (m_datas m)(b_data b := None)\<rparr>) B"
    using assms by (auto simp: blocks_def list_all_iff car_at_def image_iff)
qed

section \<open>The memory of a list\<close>

text \<open>
  \<open>list_mem m l ns bs fr\<close>: the memory holds exactly one \<open>struct list_t\<close>, at \<open>l\<close>, whose
  nodes are \<open>ns\<close> and whose blocks are \<open>bs\<close> in list order, its \<open>size\<close> field is
  right, and besides these only the blocks \<open>fr\<close> of local variables are live.
\<close>

definition list_mem :: "mem \<Rightarrow> addr \<Rightarrow> addr list \<Rightarrow> block list \<Rightarrow> block list \<Rightarrow> bool" where
  "list_mem m l ns bs fr \<longleftrightarrow>
     m_lists m = [l \<mapsto> \<lparr>l_size = of_nat (length bs), l_head = seg_ptr ns None\<rparr>] \<and>
     linked (m_nodes m) ns (map b_data bs) None \<and> distinct ns \<and> dom (m_nodes m) = set ns \<and>
     blocks m (bs @ fr) \<and> length bs < 2147483648"

text \<open>The list at \<open>l\<close> is \<open>xs\<close>, and the process holds no other block.\<close>

definition list_is :: "mem \<Rightarrow> addr \<Rightarrow> car list \<Rightarrow> bool" where
  "list_is m l xs \<longleftrightarrow> mem_wf m \<and> (\<exists>ns bs. list_mem m l ns bs [] \<and> map b_car bs = xs)"

lemma list_mem_same: "same_blocks m m' \<Longrightarrow> list_mem m' l ns bs fr = list_mem m l ns bs fr"
  using blocks_same[of m' m] by (auto simp: list_mem_def same_blocks_def)

lemma list_is_same: "same_blocks m m' \<Longrightarrow> list_is m l xs \<Longrightarrow> list_is m' l xs"
  by (auto simp: list_is_def list_mem_same dest: same_blocks_wf)

lemma list_mem_lengths: "list_mem m l ns bs fr \<Longrightarrow> length ns = length bs"
  by (auto simp: list_mem_def dest: linked_length)

lemma list_mem_deref:
  "list_mem m l ns bs fr \<Longrightarrow>
     deref m_lists (Some l) m = Some \<lparr>l_size = of_nat (length bs), l_head = seg_ptr ns None\<rparr>"
  by (simp add: list_mem_def deref_def)

lemma list_mem_car_at:
  "list_mem m l ns bs fr \<Longrightarrow> b \<in> set bs \<or> b \<in> set fr \<Longrightarrow> car_at m (b_data b) (b_str b) (b_car b)"
  by (auto simp: list_mem_def intro: blocks_car_at)

text \<open>The part of the memory no list operation writes: the clock and the allocator's answers.\<close>

definition env_same :: "mem \<Rightarrow> mem \<Rightarrow> bool" where
  "env_same m m' \<longleftrightarrow> m_tm_year m' = m_tm_year m \<and> m_avail m' = m_avail m \<and> m_brk m \<le> m_brk m'"

lemma env_same_refl [simp]: "env_same m m"
  by (simp add: env_same_def)

lemma env_same_trans: "env_same m m1 \<Longrightarrow> env_same m1 m2 \<Longrightarrow> env_same m m2"
  by (simp add: env_same_def)

lemma same_blocks_env: "same_blocks m m' \<Longrightarrow> env_same m m'"
  by (simp add: same_blocks_def env_same_def)

lemma env_same_ano_atual: "env_same m m' \<Longrightarrow> ano_atual m' = ano_atual m"
  by (simp add: env_same_def ano_atual_def)

section \<open>A memory with two cars\<close>

definition two_cars :: mem where
  "two_cars = \<lparr>m_strs = [3 \<mapsto> ''Yaris'', 6 \<mapsto> ''M3''],
     m_datas = [2 \<mapsto> block_of yaris 3, 5 \<mapsto> block_of m3 6],
     m_nodes = [1 \<mapsto> \<lparr>car_data = Some 2, car_next = Some 4\<rparr>, 4 \<mapsto> \<lparr>car_data = Some 5, car_next = None\<rparr>],
     m_lists = [0 \<mapsto> \<lparr>l_size = 2, l_head = Some 1\<rparr>],
     m_brk = 7, m_avail = (\<lambda>_. True), m_tm_year = 125\<rparr>"

lemma two_cars_list [simp]:
  "list_mem two_cars 0 [1, 4] [(2, 3, yaris), (5, 6, m3)] []"
  by (auto simp: list_mem_def blocks_def car_at_def two_cars_def yaris_def m3_def)

lemma two_cars_wf [simp]: "mem_wf two_cars"
  by (auto simp: mem_wf_def two_cars_def)

lemma two_cars_simps [simp]:
  "m_brk two_cars = 7" "m_avail two_cars n" "ano_atual two_cars = 2025"
  by (simp_all add: two_cars_def ano_atual_def)

lemma two_cars_is [simp]: "list_is two_cars 0 [yaris, m3]"
  using two_cars_list two_cars_wf by (fastforce simp: list_is_def)

end
