(* ===== verification/ListAdd.thy ===== *)
theory ListAdd
  imports ListRep
begin

text \<open>
  Correctness of \<open>list_create\<close>, \<open>list_add\<close>, \<open>list_size\<close> and \<open>list_destroy\<close>:
  on a memory that holds a list they do not go wrong, they do to the list what their
  descriptions in \<open>list.h\<close> say, and no block is lost.
\<close>

section \<open>Creating a list\<close>

lemma list_create_ok:
  assumes "m_avail (empty_mem y) 0"
  shows "list_create (empty_mem y) = (Some 0, (empty_mem y)\<lparr>m_lists := [0 \<mapsto> \<lparr>l_size = 0, l_head = None\<rparr>], m_brk := 1\<rparr>)"
  using assms by (simp add: list_create_def new_cell_def empty_mem_def)

lemma list_create_list_mem:
  assumes "mem_wf m" "m_nodes m = Map.empty" "m_lists m = Map.empty" "blocks m fr"
    and "m_avail m (m_brk m)"
  shows "\<exists>m'. list_create m = (Some (m_brk m), m') \<and> list_mem m' (m_brk m) [] [] fr \<and> mem_wf m'"
  using assms blocks_transfer[OF assms(4)]
  by (auto simp: list_create_def new_cell_def list_mem_def mem_wf_def)

section \<open>Appending a car\<close>

lemma list_tail_last:
  "linked (m_nodes m) ns ds None \<Longrightarrow> ns \<noteq> [] \<Longrightarrow>
     list_tail (seg_ptr ns None) m = Some (Some (last ns))"
proof (induction ns arbitrary: ds)
  case (Cons n ns)
  then obtain d ds' where ds: "ds = d # ds'"
    and n: "m_nodes m n = Some \<lparr>car_data = Some d, car_next = seg_ptr ns None\<rparr>"
    and ns: "linked (m_nodes m) ns ds' None"
    by (cases ds) auto
  show ?case
  proof (cases "ns = []")
    case True
    with n show ?thesis by (subst list_tail.simps) (simp add: deref_def)
  next
    case False
    with Cons.IH[OF ns] n show ?thesis by (subst list_tail.simps) (simp add: deref_def)
  qed
qed simp

definition three_blocks_granted :: "mem \<Rightarrow> bool" where
  "three_blocks_granted m \<longleftrightarrow> m_avail m (m_brk m) \<and> m_avail m (Suc (m_brk m)) \<and>
     m_avail m (Suc (Suc (m_brk m)))"

text \<open>The memory after the new node, at the old break, has been allocated.\<close>

abbreviation with_node :: "mem \<Rightarrow> mem" where
  "with_node m \<equiv> m\<lparr>m_brk := Suc (m_brk m),
     m_nodes := (m_nodes m)(m_brk m \<mapsto> \<lparr>car_data = None, car_next = None\<rparr>)\<rparr>"

lemma mem_wf_with_node: "mem_wf m \<Longrightarrow> mem_wf (with_node m)"
  by (auto simp: mem_wf_def)

lemma car_at_with_node [simp]: "car_at (with_node m) d s c = car_at m d s c"
  by (simp add: car_at_def)

lemma list_add_fail:
  assumes "mem_wf m" "car_at m d s c" "\<not> (car_valid (ano_atual m) c \<and> three_blocks_granted m)"
  obtains m' where "list_add (Some l) (Some d) m = Some (-1, m')" "same_blocks m m'"
proof (cases "m_avail m (m_brk m)")
  case True
  have "car_at (with_node m) d s c" using assms(2) by simp
  moreover have "\<not> (car_valid (ano_atual (with_node m)) c \<and> two_blocks_granted (with_node m))"
    using assms(3) True by (auto simp: ano_atual_def three_blocks_granted_def two_blocks_granted_def)
  then obtain m2 where "data_create_car c (with_node m) = Some (None, m2)"
    and same: "same_blocks (with_node m) m2"
    using data_create_fail[OF mem_wf_with_node[OF assms(1)]] by blast
  ultimately have "data_dup (Some d) (with_node m) = Some (None, m2)"
    by (simp add: data_dup_car_at)
  moreover have "(m_nodes m)(m_brk m := None) = m_nodes m"
    using mem_wf_fresh[OF assms(1), of "m_brk m"] by (simp add: fun_upd_idem)
  ultimately show ?thesis using True same that
    by (simp add: list_add_def new_cell_def free_cell_def same_blocks_def)
next
  case False
  then show ?thesis using that[of "m\<lparr>m_brk := Suc (m_brk m)\<rparr>"]
    by (simp add: list_add_def new_cell_def same_blocks_def)
qed

text \<open>The nodes after the append: the new node is linked behind the last one.\<close>

definition nodes_add :: "(addr \<rightharpoonup> car_t) \<Rightarrow> addr list \<Rightarrow> addr list \<Rightarrow> addr \<Rightarrow> addr \<Rightarrow> (addr \<rightharpoonup> car_t)" where
  "nodes_add N ns ds n d =
     (let N' = N(n \<mapsto> \<lparr>car_data = Some d, car_next = None\<rparr>)
      in if ns = [] then N'
         else N'(last ns \<mapsto> \<lparr>car_data = Some (last ds), car_next = Some n\<rparr>))"

lemma linked_nodes_add:
  assumes "linked N ns ds None" "distinct ns" "n \<notin> set ns"
  shows "linked (nodes_add N ns ds n d) (ns @ [n]) (ds @ [d]) None"
proof (cases "ns = []")
  case True
  with assms show ?thesis using linked_length[OF assms(1)] by (simp add: nodes_add_def)
next
  case False
  let ?N = "N(n \<mapsto> \<lparr>car_data = Some d, car_next = None\<rparr>)"
  have "linked ?N ns ds None" using assms by simp
  from linked_set_tail[OF this False assms(2), of "Some n"]
  have "linked (nodes_add N ns ds n d) ns ds (Some n)"
    using False by (simp add: nodes_add_def)
  moreover have "nodes_add N ns ds n d n = Some \<lparr>car_data = Some d, car_next = None\<rparr>"
    using False assms(3) by (auto simp: nodes_add_def)
  ultimately show ?thesis
    using linked_length[OF assms(1)] by (simp add: linked_append)
qed

lemma dom_nodes_add:
  "dom N = set ns \<Longrightarrow> dom (nodes_add N ns ds n d) = insert n (set ns)"
  by (auto simp: nodes_add_def Let_def)

lemma list_add_ok:
  assumes list: "list_mem m l ns bs fr" and wf: "mem_wf m" and car: "car_at m d s c"
    and valid: "car_valid (ano_atual m) c" and granted: "three_blocks_granted m"
    and room: "length bs < 2147483647"
  obtains m' b where "list_add (Some l) (Some d) m = Some (0, m')" "mem_wf m'" "env_same m m'"
    "list_mem m' l (ns @ [m_brk m]) (bs @ [b]) fr" "b_car b = c"
proof -
  let ?n = "m_brk m" and ?d = "Suc (m_brk m)" and ?s = "Suc (Suc (m_brk m))"
  let ?ds = "map b_data bs"
  let ?m' = "(with_car c (with_node m))\<lparr>
     m_nodes := nodes_add (m_nodes m) ns ?ds ?n ?d,
     m_lists := [l \<mapsto> \<lparr>l_size = of_nat (Suc (length bs)), l_head = seg_ptr (ns @ [?n]) None\<rparr>]\<rparr>"
  have dup: "data_dup (Some d) (with_node m) = Some (Some ?d, with_car c (with_node m))"
    using car valid granted data_create_ok[of "with_node m" c]
    by (simp add: data_dup_car_at[where s = s and c = c] ano_atual_def two_blocks_granted_def
        three_blocks_granted_def)
  have linked: "linked (m_nodes m) ns ?ds None" and dist: "distinct ns" and "dom (m_nodes m) = set ns"
    and lists: "m_lists m = [l \<mapsto> \<lparr>l_size = of_nat (length bs), l_head = seg_ptr ns None\<rparr>]"
    and blks: "blocks m (bs @ fr)"
    using list by (simp_all add: list_mem_def)
  have fresh: "?n \<notin> set ns"
    using linked_live[OF linked, of ?n] mem_wf_fresh[OF wf, of ?n] by auto
  let ?N = "(m_nodes m)(?n \<mapsto> \<lparr>car_data = Some ?d, car_next = None\<rparr>)"
  have add: "list_add (Some l) (Some d) m = Some (0, ?m')"
  proof (cases "ns = []")
    case True
    with dup lists granted room show ?thesis
      by (simp add: list_add_def new_cell_def three_blocks_granted_def store_def deref_def
          int_inc_of_nat nodes_add_def with_car_def)
  next
    case False
    let ?m3 = "(with_car c (with_node m))\<lparr>m_nodes := ?N\<rparr>"
    have "linked (m_nodes ?m3) ns ?ds None" using linked fresh by simp
    moreover have "seg_ptr ns (Some ?n) = seg_ptr ns None" using False by (cases ns) simp_all
    ultimately show ?thesis
      using list_tail_last[of ?m3 ns ?ds] linked_last[of "m_nodes ?m3" ns ?ds None] False dup lists
        granted room
      by (simp add: list_add_def new_cell_def three_blocks_granted_def store_def deref_def
          int_inc_of_nat nodes_add_def with_car_def)
  qed
  let ?b = "(?d, ?s, c)"
  have "blocks (with_car c (with_node m)) (?b # bs @ fr)"
    using blocks_with_car[OF blocks_transfer[OF blks] mem_wf_with_node[OF wf], of c] by simp
  then have "blocks (with_car c (with_node m)) ((bs @ [?b]) @ fr)"
    by (subst blocks_perm[where B = "?b # bs @ fr"]) simp_all
  then have "blocks ?m' ((bs @ [?b]) @ fr)"
    by (rule blocks_transfer) simp_all
  then have list': "list_mem ?m' l (ns @ [?n]) (bs @ [?b]) fr"
    using linked_nodes_add[OF linked dist fresh, of ?d] dom_nodes_add[OF \<open>dom (m_nodes m) = set ns\<close>]
      dist fresh room by (simp add: list_mem_def)
  have "set ns \<subseteq> {..< m_brk m}" using \<open>dom (m_nodes m) = set ns\<close> mem_wf_live(3)[OF wf] by auto
  then have "a \<notin> dom (nodes_add (m_nodes m) ns ?ds ?n ?d)" if "?s < a" for a
    unfolding dom_nodes_add[OF \<open>dom (m_nodes m) = set ns\<close>] using that by auto
  then have "nodes_add (m_nodes m) ns ?ds ?n ?d a = None" if "?s < a" for a
    using that by (simp add: domIff)
  moreover have "l < m_brk m" using lists mem_wf_live(4)[OF wf, of l] by simp
  ultimately have "mem_wf ?m'"
    using mem_wf_fresh[OF wf] by (simp add: mem_wf_def)
  moreover have "env_same m ?m'" by (simp add: env_same_def)
  ultimately show ?thesis using add list' that[of ?m' ?b] by simp
qed

section \<open>Size and destruction\<close>

lemma list_size_list_mem:
  "list_mem m l ns bs fr \<Longrightarrow> list_size (Some l) m = Some (of_nat (length bs))"
  by (simp add: list_size_def list_mem_deref)

lemma destroy_nodes_ok:
  assumes "linked (m_nodes m) ns (map b_data bs) None" "distinct ns" "dom (m_nodes m) = set ns"
    and "blocks m (bs @ fr)"
  shows "\<exists>m'. destroy_nodes (seg_ptr ns None) m = Some m' \<and> m_nodes m' = Map.empty \<and>
           blocks m' fr \<and> m_lists m' = m_lists m \<and> env_same m m'"
  using assms
proof (induction ns arbitrary: m bs)
  case Nil
  then have "bs = []" by (cases bs) auto
  with Nil show ?case by (subst destroy_nodes.simps) simp
next
  case (Cons n ns)
  then obtain b bs' where bs: "bs = b # bs'"
    and n: "m_nodes m n = Some \<lparr>car_data = Some (b_data b), car_next = seg_ptr ns None\<rparr>"
    and ns: "linked (m_nodes m) ns (map b_data bs') None"
    by (cases bs) auto
  let ?m1 = "m\<lparr>m_strs := (m_strs m)(b_str b := None), m_datas := (m_datas m)(b_data b := None)\<rparr>"
  let ?m2 = "?m1\<lparr>m_nodes := (m_nodes m)(n := None)\<rparr>"
  have blk: "blocks m (b # bs' @ fr)" using Cons.prems(4) bs by simp
  have 1: "linked (m_nodes ?m2) ns (map b_data bs') None" and 2: "distinct ns"
    and 3: "dom (m_nodes ?m2) = set ns"
    using ns Cons.prems(2,3) by auto
  have 4: "blocks ?m2 (bs' @ fr)"
    by (rule blocks_transfer[OF blocks_destroy(2)[OF blk]]) simp_all
  from Cons.IH[OF 1 2 3 4] obtain m' where "destroy_nodes (seg_ptr ns None) ?m2 = Some m'"
    "m_nodes m' = Map.empty" "blocks m' fr" "m_lists m' = m_lists ?m2" "env_same ?m2 m'"
    by blast
  with n blocks_destroy(1)[OF blk] show ?case
    by (subst destroy_nodes.simps) (simp add: deref_def free_cell_def env_same_def)
qed

text \<open>Destroying the list frees every node, block, string and the list itself.\<close>

lemma list_destroy_ok:
  assumes "list_mem m l ns bs fr"
  obtains m' where "list_destroy (Some l) m = Some (0, m')" "m_nodes m' = Map.empty"
    "m_lists m' = Map.empty" "blocks m' fr" "env_same m m'"
proof -
  have "linked (m_nodes m) ns (map b_data bs) None" "distinct ns" "dom (m_nodes m) = set ns"
    "blocks m (bs @ fr)" and lists: "m_lists m = [l \<mapsto> \<lparr>l_size = of_nat (length bs), l_head = seg_ptr ns None\<rparr>]"
    using assms by (simp_all add: list_mem_def)
  from destroy_nodes_ok[OF this(1-4)] obtain m1 where
    "destroy_nodes (seg_ptr ns None) m = Some m1" and nodes: "m_nodes m1 = Map.empty"
    and blks: "blocks m1 fr" and "m_lists m1 = m_lists m" and env: "env_same m m1" by blast
  with lists have "list_destroy (Some l) m = Some (0, m1\<lparr>m_lists := Map.empty\<rparr>)"
    by (simp add: list_destroy_def deref_def free_cell_def)
  moreover have "blocks (m1\<lparr>m_lists := Map.empty\<rparr>) fr"
    by (rule blocks_transfer[OF blks]) simp_all
  ultimately show ?thesis using nodes env that by (simp add: env_same_def)
qed

section \<open>Properties\<close>

text \<open>C11: \<open>list_add\<close> of a live car never goes wrong, whatever the allocator.  When the car is
  valid and the node, the copy and its string are granted, it returns 0 and the list is the old one
  with an equal car in blocks of its own at the end; otherwise it returns -1 and the list and all
  other blocks are as before.  The caller's car stays the caller's in both cases.\<close>

theorem list_add_appends:
  assumes "list_mem m l ns bs fr" "mem_wf m" "b \<in> set fr" "length bs < 2147483647"
  shows "\<exists>r m' ns' bs'. list_add (Some l) (Some (b_data b)) m = Some (r, m') \<and>
    list_mem m' l ns' bs' fr \<and> mem_wf m' \<and>
    (if car_valid (ano_atual m) (b_car b) \<and> three_blocks_granted m
     then r = 0 \<and> map b_car bs' = map b_car bs @ [b_car b] \<and> take (length bs) bs' = bs
     else r = -1 \<and> bs' = bs \<and> same_blocks m m')"
proof (cases "car_valid (ano_atual m) (b_car b) \<and> three_blocks_granted m")
  case True
  have at: "car_at m (b_data b) (b_str b) (b_car b)"
    using assms(1,3) by (auto simp: list_mem_def intro: blocks_car_at)
  from True obtain m' b' where "list_add (Some l) (Some (b_data b)) m = Some (0, m')" "mem_wf m'"
    "list_mem m' l (ns @ [m_brk m]) (bs @ [b']) fr" "b_car b' = b_car b"
    using list_add_ok[OF assms(1,2) at _ _ assms(4)] by blast
  with True show ?thesis by (intro exI[of _ 0] exI[of _ m'] exI[of _ "ns @ [m_brk m]"] exI[of _ "bs @ [b']"]) simp
next
  case False
  have at: "car_at m (b_data b) (b_str b) (b_car b)"
    using assms(1,3) by (auto simp: list_mem_def intro: blocks_car_at)
  obtain m' where "list_add (Some l) (Some (b_data b)) m = Some (-1, m')" "same_blocks m m'"
    by (rule list_add_fail[OF assms(2) at False])
  with False assms show ?thesis
    by (intro exI[of _ "-1"] exI[of _ m'] exI[of _ ns] exI[of _ bs])
      (auto simp: list_mem_same intro: same_blocks_wf)
qed

theorem list_add_appends_witness:
  "\<exists>m' ns' bs'. list_add (Some 0) (Some 2) (two_cars\<lparr>m_nodes := Map.empty,
       m_lists := [0 \<mapsto> \<lparr>l_size = 0, l_head = None\<rparr>]\<rparr>) = Some (0, m') \<and>
     list_mem m' 0 ns' bs' [(2, 3, yaris), (5, 6, m3)] \<and> map b_car bs' = [yaris]"
proof -
  let ?m = "two_cars\<lparr>m_nodes := Map.empty, m_lists := [0 \<mapsto> \<lparr>l_size = 0, l_head = None\<rparr>]\<rparr>"
  have "list_mem ?m 0 [] [] [(2, 3, yaris), (5, 6, m3)]"
    using two_cars_list by (simp add: list_mem_def blocks_def car_at_def)
  moreover have "mem_wf ?m" by (auto simp: mem_wf_def two_cars_def)
  moreover have "ano_atual ?m = 2025" "three_blocks_granted ?m"
    by (simp_all add: ano_atual_def three_blocks_granted_def two_cars_def)
  ultimately show ?thesis
    using list_add_appends[of ?m 0 "[]" "[]" "[(2, 3, yaris), (5, 6, m3)]" "(2, 3, yaris)"]
    by simp metis
qed

text \<open>C33: \<open>list_destroy\<close> of any list returns 0 and frees every node, every car, every model
  string and the list itself: no live block is left, so nothing leaks and nothing is freed twice.\<close>

theorem list_destroy_frees_all:
  assumes "list_is m l xs"
  shows "\<exists>m'. list_destroy (Some l) m = Some (0, m') \<and> m_nodes m' = Map.empty \<and>
    m_lists m' = Map.empty \<and> m_datas m' = Map.empty \<and> m_strs m' = Map.empty"
proof -
  obtain ns bs where "list_mem m l ns bs []" using assms by (auto simp: list_is_def)
  then obtain m' where "list_destroy (Some l) m = Some (0, m')" "m_nodes m' = Map.empty"
    "m_lists m' = Map.empty" "blocks m' []"
    using list_destroy_ok by blast
  then show ?thesis by (auto simp: blocks_def)
qed

theorem list_destroy_frees_all_witness:
  "\<exists>m'. list_destroy (Some 0) two_cars = Some (0, m') \<and> m_datas m' = Map.empty"
  using list_destroy_frees_all[OF two_cars_is] by auto

end
