(* ===== verification/ListRemove.thy ===== *)
theory ListRemove
  imports ListAdd
begin

text \<open>
  Correctness of \<open>list_remove_by_model\<close>: the first car of the model is unlinked and its node,
  block and string are freed; a model that is not in the list changes nothing.
\<close>

fun remove_first :: "('a \<Rightarrow> bool) \<Rightarrow> 'a list \<Rightarrow> 'a list" where
  "remove_first P [] = []"
| "remove_first P (x # xs) = (if P x then xs else x # remove_first P xs)"

lemma remove_first_map: "remove_first P (map f xs) = map f (remove_first (P \<circ> f) xs)"
  by (induction xs) auto

lemma remove_first_none [simp]: "\<not> (\<exists>x \<in> set xs. P x) \<Longrightarrow> remove_first P xs = xs"
  by (induction xs) auto

lemma remove_first_split:
  "\<exists>x \<in> set xs. P x \<Longrightarrow>
     \<exists>us x vs. xs = us @ x # vs \<and> P x \<and> (\<forall>u \<in> set us. \<not> P u) \<and> remove_first P xs = us @ vs"
proof (induction xs)
  case (Cons x xs)
  show ?case
  proof (cases "P x")
    case True
    then show ?thesis by (intro exI[of _ "[]"]) auto
  next
    case False
    with Cons obtain us y vs where "xs = us @ y # vs" "P y" "\<forall>u \<in> set us. \<not> P u"
      "remove_first P xs = us @ vs" by auto
    with False show ?thesis by (intro exI[of _ "x # us"]) auto
  qed
qed simp

section \<open>Unlinking one node\<close>

text \<open>The nodes after the node \<open>n\<close> behind \<open>as\<close> has been unlinked and freed.\<close>

definition nodes_unlink ::
  "(addr \<rightharpoonup> car_t) \<Rightarrow> addr list \<Rightarrow> addr list \<Rightarrow> addr \<Rightarrow> ptr \<Rightarrow> (addr \<rightharpoonup> car_t)" where
  "nodes_unlink N as das n q =
     (if as = [] then N else N(last as \<mapsto> \<lparr>car_data = Some (last das), car_next = q\<rparr>))(n := None)"

lemma linked_unlink:
  assumes "linked N (as @ n # ns) (das @ d # ds) None" "length as = length das"
    and "distinct (as @ n # ns)"
  shows "linked (nodes_unlink N as das n (seg_ptr ns None)) (as @ ns) (das @ ds) None"
proof -
  have seg: "linked N as das (Some n)" and rest: "linked N ns ds None"
    using assms(1,2) by (simp_all add: linked_append)
  show ?thesis
  proof (cases "as = []")
    case True
    with rest assms(2,3) show ?thesis by (simp add: nodes_unlink_def)
  next
    case False
    let ?N = "N(last as \<mapsto> \<lparr>car_data = Some (last das), car_next = seg_ptr ns None\<rparr>)"
    have "linked ?N as das (seg_ptr ns None)"
      using linked_set_tail[OF seg False] assms(3) by simp
    moreover have "last as \<notin> set ns" using assms(3) last_in_set[OF False] by auto
    then have "linked ?N ns ds None" using rest by simp
    ultimately show ?thesis
      using False assms(2,3) by (simp add: nodes_unlink_def linked_append)
  qed
qed

lemma dom_nodes_unlink:
  assumes "dom N = set (as @ n # ns)" "distinct (as @ n # ns)"
  shows "dom (nodes_unlink N as das n q) = set (as @ ns)"
proof (cases "as = []")
  case True
  with assms show ?thesis by (auto simp: nodes_unlink_def)
next
  case False
  then have "insert (last as) (set (as @ n # ns)) = set (as @ n # ns)" by auto
  with False assms show ?thesis by (auto simp: nodes_unlink_def)
qed

definition mem_unlink :: "mem \<Rightarrow> addr \<Rightarrow> addr list \<Rightarrow> block list \<Rightarrow> addr \<Rightarrow> block \<Rightarrow> addr list \<Rightarrow> nat \<Rightarrow> mem" where
  "mem_unlink m l as bas n b ns k =
     m\<lparr>m_strs := (m_strs m)(b_str b := None), m_datas := (m_datas m)(b_data b := None),
       m_nodes := nodes_unlink (m_nodes m) as (map b_data bas) n (seg_ptr ns None),
       m_lists := [l \<mapsto> \<lparr>l_size = of_nat k, l_head = seg_ptr (as @ ns) None\<rparr>]\<rparr>"

lemma list_mem_unlink:
  assumes "list_mem m l (as @ n # ns) (bas @ b # bs) fr" "length as = length bas"
  shows "list_mem (mem_unlink m l as bas n b ns (length (bas @ bs))) l (as @ ns) (bas @ bs) fr"
proof -
  let ?m1 = "m\<lparr>m_strs := (m_strs m)(b_str b := None), m_datas := (m_datas m)(b_data b := None)\<rparr>"
  have link: "linked (m_nodes m) (as @ n # ns) (map b_data bas @ b_data b # map b_data bs) None"
    and dist: "distinct (as @ n # ns)" and dom: "dom (m_nodes m) = set (as @ n # ns)"
    and blk: "blocks m ((bas @ b # bs) @ fr)" and len: "length (bas @ b # bs) < 2147483648"
    using assms(1) by (simp_all add: list_mem_def)
  have "blocks m (b # (bas @ bs) @ fr)"
    using blk by (subst blocks_perm[where B = "(bas @ b # bs) @ fr"]) simp_all
  from blocks_destroy(2)[OF this]
  have "blocks (mem_unlink m l as bas n b ns (length (bas @ bs))) ((bas @ bs) @ fr)"
    by (rule blocks_transfer) (simp_all add: mem_unlink_def)
  moreover have "linked (m_nodes (mem_unlink m l as bas n b ns (length (bas @ bs))))
      (as @ ns) (map b_data (bas @ bs)) None"
    using linked_unlink[OF link _ dist] assms(2) by (simp add: mem_unlink_def)
  ultimately show ?thesis
    using dist len dom_nodes_unlink[OF dom dist]
    by (simp add: list_mem_def mem_unlink_def)
qed

lemma remove_scan_hit:
  assumes list: "list_mem m l (as @ n # ns) (bas @ b # bs) fr" and len: "length as = length bas"
    and hit: "c_modelo (b_car b) = modelo"
  shows "remove_scan (Some l) modelo (if as = [] then None else Some (last as)) (Some n) m =
     Some (0, mem_unlink m l as bas n b ns (length (bas @ bs)))"
proof -
  have link: "linked (m_nodes m) (as @ n # ns) (map b_data bas @ b_data b # map b_data bs) None"
    and dist: "distinct (as @ n # ns)" and blk: "blocks m ((bas @ b # bs) @ fr)"
    and lists: "m_lists m = [l \<mapsto> \<lparr>l_size = of_nat (length (bas @ b # bs)),
                                  l_head = seg_ptr (as @ n # ns) None\<rparr>]"
    and small: "length (bas @ b # bs) < 2147483648"
    using list by (simp_all add: list_mem_def)
  have node: "m_nodes m n = Some \<lparr>car_data = Some (b_data b), car_next = seg_ptr ns None\<rparr>"
    and seg: "linked (m_nodes m) as (map b_data bas) (Some n)"
    using link len by (simp_all add: linked_append)
  have car: "m_datas m (b_data b) = Some (block_of (b_car b) (b_str b))"
    "m_strs m (b_str b) = Some (c_modelo (b_car b))"
    using blocks_car_at[OF blk, of b] by (simp_all add: car_at_def)
  have dec: "int_dec (of_nat (length (bas @ b # bs))) = Some (of_nat (length (bas @ bs)))"
    using int_dec_of_nat[OF small] by simp
  show ?thesis
  proof (cases "as = []")
    case True
    with node car lists dec hit len show ?thesis
      by (subst remove_scan.simps) (simp add: deref_def store_def data_destroy_def free_cell_def
          mem_unlink_def nodes_unlink_def)
  next
    case False
    moreover have "last as \<noteq> n" using False dist by auto
    moreover have "seg_ptr as (Some n) = seg_ptr as (seg_ptr ns None)"
      using False by (cases as) simp_all
    ultimately show ?thesis
      using linked_last[OF seg False] node car lists dec hit
      by (subst remove_scan.simps) (simp add: deref_def store_def data_destroy_def free_cell_def
          mem_unlink_def nodes_unlink_def)
  qed
qed

lemma remove_scan_miss:
  assumes list: "list_mem m l (as @ n # ns) (bas @ b # bs) fr" and len: "length as = length bas"
    and miss: "c_modelo (b_car b) \<noteq> modelo"
  shows "remove_scan (Some l) modelo prev (Some n) m =
     remove_scan (Some l) modelo (Some n) (seg_ptr ns None) m"
proof -
  have "m_nodes m n = Some \<lparr>car_data = Some (b_data b), car_next = seg_ptr ns None\<rparr>"
    using list len by (simp add: list_mem_def linked_append)
  moreover have "car_at m (b_data b) (b_str b) (b_car b)"
    using list_mem_car_at[OF list, of b] by simp
  ultimately show ?thesis using miss
    by (subst remove_scan.simps) (simp add: deref_def car_at_def)
qed

lemma remove_scan_ok:
  assumes "list_mem m l (as @ ns) (bas @ bs) fr" "length as = length bas"
  shows "if \<exists>b \<in> set bs. c_modelo (b_car b) = modelo
     then \<exists>m' ns'. remove_scan (Some l) modelo (if as = [] then None else Some (last as))
              (seg_ptr ns None) m = Some (0, m') \<and>
            list_mem m' l ns' (bas @ remove_first (\<lambda>b. c_modelo (b_car b) = modelo) bs) fr \<and>
            env_same m m' \<and> (mem_wf m \<longrightarrow> mem_wf m')
     else remove_scan (Some l) modelo (if as = [] then None else Some (last as))
              (seg_ptr ns None) m = Some (1, m)"
  using assms
proof (induction bs arbitrary: as bas ns)
  case Nil
  then have "ns = []" using list_mem_lengths[OF Nil(1)] by simp
  then show ?case by (subst remove_scan.simps) simp
next
  case (Cons b bs)
  obtain n ns' where ns: "ns = n # ns'"
    using list_mem_lengths[OF Cons.prems(1)] Cons.prems(2) by (cases ns) auto
  have list: "list_mem m l (as @ n # ns') (bas @ b # bs) fr" using Cons.prems(1) ns by simp
  show ?case
  proof (cases "c_modelo (b_car b) = modelo")
    case True
    let ?m = "mem_unlink m l as bas n b ns' (length (bas @ bs))"
    have "list_mem ?m l (as @ ns') (bas @ bs) fr" by (rule list_mem_unlink[OF list Cons.prems(2)])
    moreover have "mem_wf ?m" if "mem_wf m"
    proof (rule mem_wf_sub[OF that])
      have "dom (m_nodes m) = set (as @ n # ns')" "distinct (as @ n # ns')" and "l \<in> dom (m_lists m)"
        using list by (simp_all add: list_mem_def)
      then show "dom (m_nodes ?m) \<subseteq> dom (m_nodes m)" "dom (m_lists ?m) \<subseteq> dom (m_lists m)"
        using dom_nodes_unlink[of "m_nodes m" as n ns'] by (auto simp: mem_unlink_def)
    qed (auto simp: mem_unlink_def split: if_splits)
    moreover have "env_same m ?m" by (simp add: env_same_def mem_unlink_def)
    ultimately show ?thesis
      using remove_scan_hit[OF list Cons.prems(2) True] True ns by auto
  next
    case False
    have "list_mem m l ((as @ [n]) @ ns') ((bas @ [b]) @ bs) fr" "length (as @ [n]) = length (bas @ [b])"
      using list Cons.prems(2) by simp_all
    note IH = Cons.IH[OF this]
    note step = remove_scan_miss[OF list Cons.prems(2) False]
    show ?thesis
    proof (cases "\<exists>b \<in> set bs. c_modelo (b_car b) = modelo")
      case True
      with IH step[of "if as = [] then None else Some (last as)"] False ns show ?thesis by auto
    next
      case none: False
      with IH step[of "if as = [] then None else Some (last as)"] False ns show ?thesis by auto
    qed
  qed
qed

section \<open>The operation\<close>

lemma list_remove_none:
  assumes "list_mem m l ns bs fr" "\<not> (\<exists>b \<in> set bs. c_modelo (b_car b) = modelo)"
  shows "list_remove_by_model (Some l) (Some modelo) m = Some (1, m)"
  using remove_scan_ok[of m l "[]" ns "[]" bs fr modelo] assms
  by (simp add: list_remove_by_model_def list_mem_deref)

lemma list_remove_some:
  assumes "list_mem m l ns bs fr" "\<exists>b \<in> set bs. c_modelo (b_car b) = modelo"
  obtains m' ns' where "list_remove_by_model (Some l) (Some modelo) m = Some (0, m')"
    "list_mem m' l ns' (remove_first (\<lambda>b. c_modelo (b_car b) = modelo) bs) fr" "env_same m m'"
    "mem_wf m \<Longrightarrow> mem_wf m'"
proof -
  have "list_remove_by_model (Some l) (Some modelo) m =
      remove_scan (Some l) modelo None (seg_ptr ns None) m"
    using list_mem_deref[OF assms(1)] by (simp add: list_remove_by_model_def)
  then show ?thesis using remove_scan_ok[of m l "[]" ns "[]" bs fr modelo] assms that by auto
qed

section \<open>Properties\<close>

text \<open>C10: \<open>list_remove_by_model\<close> removes exactly the first car with the given model, frees its
  node, its block and its string, decrements the size and returns 0; when no car has the model it
  returns 1 and the memory is untouched.  The other cars keep their blocks and their order.\<close>

theorem list_remove_first_match:
  assumes "list_mem m l ns bs fr" "mem_wf m"
  shows "\<exists>r m' ns'. list_remove_by_model (Some l) (Some modelo) m = Some (r, m') \<and> mem_wf m' \<and>
    list_mem m' l ns' (remove_first (\<lambda>b. c_modelo (b_car b) = modelo) bs) fr \<and>
    (if \<exists>b \<in> set bs. c_modelo (b_car b) = modelo then r = 0 else r = 1 \<and> m' = m)"
proof (cases "\<exists>b \<in> set bs. c_modelo (b_car b) = modelo")
  case True
  then show ?thesis using list_remove_some[OF assms(1) True] assms(2) by metis
next
  case False
  then show ?thesis using list_remove_none[OF assms(1) False] assms by auto
qed

theorem list_remove_first_match_witness:
  "\<exists>m' ns'. list_remove_by_model (Some 0) (Some ''Yaris'') two_cars = Some (0, m') \<and>
     list_mem m' 0 ns' [(5, 6, m3)] []"
  using list_remove_first_match[OF two_cars_list two_cars_wf, of "''Yaris''"]
  by (auto simp: yaris_def m3_def split: if_splits)

end
