(* ===== verification/ListQuery.thy ===== *)
theory ListQuery
  imports ListRep
begin

text \<open>
  Correctness of the reading operations of \<open>source/list.c\<close>: \<open>list_get_by_marca\<close>,
  \<open>list_get_by_year\<close>, \<open>list_get_model_list\<close> and \<open>list_free_model_list\<close>.  The
  arrays they build are filled within their bounds, to the last cell, which is NULL.
\<close>

section \<open>Scanning a held segment\<close>

definition holds_seg :: "mem \<Rightarrow> addr list \<Rightarrow> block list \<Rightarrow> bool" where
  "holds_seg m ns bs \<longleftrightarrow> linked (m_nodes m) ns (map b_data bs) None \<and>
     (\<forall>b \<in> set bs. car_at m (b_data b) (b_str b) (b_car b))"

lemma list_mem_holds_seg: "list_mem m l ns bs fr \<Longrightarrow> holds_seg m ns bs"
  using list_mem_car_at[of m l ns bs fr] by (auto simp: holds_seg_def list_mem_def)

lemma holds_seg_Nil [simp]: "holds_seg m ns [] \<longleftrightarrow> ns = []"
  by (cases ns) (auto simp: holds_seg_def)

lemma holds_seg_Cons:
  assumes "holds_seg m ns (b # bs)"
  obtains n ns' where "ns = n # ns'"
    "m_nodes m n = Some \<lparr>car_data = Some (b_data b), car_next = seg_ptr ns' None\<rparr>"
    "m_datas m (b_data b) = Some (block_of (b_car b) (b_str b))"
    "m_strs m (b_str b) = Some (c_modelo (b_car b))" "holds_seg m ns' bs"
  using assms by (cases ns) (auto simp: holds_seg_def car_at_def)

lemma holds_seg_same: "same_blocks m m' \<Longrightarrow> holds_seg m' ns bs = holds_seg m ns bs"
  by (auto simp: holds_seg_def same_blocks_def car_at_def)

section \<open>The first car of a brand\<close>

lemma marca_scan_ok:
  "holds_seg m ns bs \<Longrightarrow> marca_scan marca (seg_ptr ns None) m =
     Some (map_option b_data (find (\<lambda>b. c_marca (b_car b) = marca) bs))"
proof (induction bs arbitrary: ns)
  case Nil
  then show ?case by (subst marca_scan.simps) simp
next
  case (Cons b bs)
  then obtain n ns' where "ns = n # ns'"
    "m_nodes m n = Some \<lparr>car_data = Some (b_data b), car_next = seg_ptr ns' None\<rparr>"
    "m_datas m (b_data b) = Some (block_of (b_car b) (b_str b))" "holds_seg m ns' bs"
    by (elim holds_seg_Cons)
  with Cons.IH show ?case by (subst marca_scan.simps) (simp add: deref_def)
qed

lemma list_get_by_marca_ok:
  "list_mem m l ns bs fr \<Longrightarrow> list_get_by_marca (Some l) marca m =
     Some (map_option b_data (find (\<lambda>b. c_marca (b_car b) = marca) bs))"
  by (simp add: list_get_by_marca_def list_mem_deref marca_scan_ok list_mem_holds_seg)

section \<open>The cars of a year\<close>

abbreviation of_year :: "i32 \<Rightarrow> block list \<Rightarrow> block list" where
  "of_year ano bs \<equiv> filter (\<lambda>b. c_ano (b_car b) = ano) bs"

lemma year_count_ok:
  "holds_seg m ns bs \<Longrightarrow>
     year_count ano (seg_ptr ns None) k m = Some (k + length (of_year ano bs))"
proof (induction bs arbitrary: ns k)
  case Nil
  then show ?case by (subst year_count.simps) simp
next
  case (Cons b bs)
  then obtain n ns' where "ns = n # ns'"
    "m_nodes m n = Some \<lparr>car_data = Some (b_data b), car_next = seg_ptr ns' None\<rparr>"
    "m_datas m (b_data b) = Some (block_of (b_car b) (b_str b))" "holds_seg m ns' bs"
    by (elim holds_seg_Cons)
  with Cons.IH show ?case by (subst year_count.simps) (simp add: deref_def)
qed

lemma year_fill_ok:
  "holds_seg m ns bs \<Longrightarrow>
     year_fill ano (seg_ptr ns None) (length ps)
       (map Some ps @ replicate (length (of_year ano bs) + r) None) m =
     Some (length ps + length (of_year ano bs),
           map Some (ps @ map (Some \<circ> b_data) (of_year ano bs)) @ replicate r None)"
proof (induction bs arbitrary: ns ps)
  case Nil
  then show ?case by (subst year_fill.simps) simp
next
  case (Cons b bs)
  then obtain n ns' where ns: "ns = n # ns'"
    "m_nodes m n = Some \<lparr>car_data = Some (b_data b), car_next = seg_ptr ns' None\<rparr>"
    "m_datas m (b_data b) = Some (block_of (b_car b) (b_str b))" and seg: "holds_seg m ns' bs"
    by (elim holds_seg_Cons)
  show ?case
  proof (cases "c_ano (b_car b) = ano")
    case True
    with ns Cons.IH[OF seg, of "ps @ [Some (b_data b)]"] show ?thesis
      by (subst year_fill.simps) (simp add: deref_def arr_set_next[simplified])
  next
    case False
    with ns Cons.IH[OF seg, of ps] show ?thesis
      by (subst year_fill.simps) (simp add: deref_def)
  qed
qed

text \<open>A NULL-terminated array.\<close>

definition terminated :: "'a list \<Rightarrow> 'a option arr" where
  "terminated xs = map Some (map Some xs @ [None])"

lemma terminated_filled: "arr_set (length xs) None (map Some (map Some xs) @ [None]) = Some (terminated xs)"
  using arr_set_next[of "map Some xs" None "[]"] by (simp add: terminated_def)

definition after_malloc :: "nat \<Rightarrow> mem \<Rightarrow> mem" where
  "after_malloc k m = m\<lparr>m_brk := m_brk m + k\<rparr>"

lemma after_malloc_same: "same_blocks m (after_malloc k m)"
  by (simp add: after_malloc_def same_blocks_def)

lemma list_get_by_year_ok:
  assumes "list_mem m l ns bs fr"
  shows "list_get_by_year (Some l) ano m =
     Some (if m_avail m (m_brk m) then Some (terminated (map b_data (of_year ano bs))) else None,
           after_malloc 1 m)"
proof -
  have seg: "holds_seg m ns bs" using assms by (rule list_mem_holds_seg)
  then have "holds_seg (after_malloc 1 m) ns bs" by (simp add: holds_seg_same[OF after_malloc_same])
  from year_fill_ok[OF this, of ano "[]" 1] year_count_ok[OF seg, of ano 0]
  show ?thesis
    using terminated_filled[of "map b_data (of_year ano bs)"]
    by (simp add: list_get_by_year_def list_mem_deref[OF assms] malloc_arr_def after_malloc_def
        nat_add_distrib comp_def)
qed

section \<open>The models\<close>

lemma models_fill_ok:
  assumes "holds_seg m ns bs" "\<forall>i < length bs. m_avail m (m_brk m + i)"
  shows "models_fill (seg_ptr ns None) (length ps) (map Some ps @ replicate (length bs + r) None) m =
     Some (Some (length ps + length bs,
                 map Some (ps @ map (Some \<circ> c_modelo \<circ> b_car) bs) @ replicate r None),
           after_malloc (length bs) m)"
  using assms
proof (induction bs arbitrary: ns ps m)
  case Nil
  then show ?case by (subst models_fill.simps) (simp add: after_malloc_def)
next
  case (Cons b bs)
  from Cons.prems(1) obtain n ns' where ns: "ns = n # ns'"
    "m_nodes m n = Some \<lparr>car_data = Some (b_data b), car_next = seg_ptr ns' None\<rparr>"
    "m_datas m (b_data b) = Some (block_of (b_car b) (b_str b))"
    "m_strs m (b_str b) = Some (c_modelo (b_car b))" and seg: "holds_seg m ns' bs"
    by (elim holds_seg_Cons)
  let ?m = "after_malloc 1 m"
  have "holds_seg ?m ns' bs" using seg by (simp add: holds_seg_same[OF after_malloc_same])
  moreover have "\<forall>i < length bs. m_avail ?m (m_brk ?m + i)"
  proof (intro allI impI)
    fix i assume "i < length bs"
    with Cons.prems(2)[rule_format, of "Suc i"] show "m_avail ?m (m_brk ?m + i)"
      by (simp add: after_malloc_def)
  qed
  moreover have "m_avail m (m_brk m)" using Cons.prems(2)[rule_format, of 0] by simp
  ultimately show ?case
    using ns Cons.IH[of ?m ns' "ps @ [Some (c_modelo (b_car b))]"]
    by (subst models_fill.simps) (simp add: deref_def malloc_block_def after_malloc_def)
qed

lemma models_fill_fail:
  assumes "holds_seg m ns bs" "\<not> (\<forall>i < length bs. m_avail m (m_brk m + i))"
  shows "\<exists>m'. models_fill (seg_ptr ns None) (length ps) (map Some ps @ replicate (length bs + r) None) m =
     Some (None, m') \<and> same_blocks m m'"
  using assms
proof (induction bs arbitrary: ns ps m)
  case (Cons b bs)
  from Cons.prems(1) obtain n ns' where ns: "ns = n # ns'"
    "m_nodes m n = Some \<lparr>car_data = Some (b_data b), car_next = seg_ptr ns' None\<rparr>"
    "m_datas m (b_data b) = Some (block_of (b_car b) (b_str b))"
    "m_strs m (b_str b) = Some (c_modelo (b_car b))" and seg: "holds_seg m ns' bs"
    by (elim holds_seg_Cons)
  let ?m = "after_malloc 1 m"
  have same: "same_blocks m ?m" by (rule after_malloc_same)
  show ?case
  proof (cases "m_avail m (m_brk m)")
    case False
    with ns same show ?thesis
      by (subst models_fill.simps) (simp add: deref_def malloc_block_def after_malloc_def)
  next
    case True
    obtain i where "i < length (b # bs)" and refused: "\<not> m_avail m (m_brk m + i)"
      using Cons.prems(2) by blast
    then obtain j where i: "i = Suc j" using True by (cases i) auto
    have "holds_seg ?m ns' bs" using seg by (simp add: holds_seg_same[OF after_malloc_same])
    moreover have "\<not> (\<forall>i < length bs. m_avail ?m (m_brk ?m + i))"
      using \<open>i < length (b # bs)\<close> refused i by (auto simp: after_malloc_def)
    ultimately obtain m' where
      "models_fill (seg_ptr ns' None) (length (ps @ [Some (c_modelo (b_car b))]))
         (map Some (ps @ [Some (c_modelo (b_car b))]) @ replicate (length bs + r) None) ?m =
       Some (None, m')" "same_blocks ?m m'"
      using Cons.IH[of ?m ns' "ps @ [Some (c_modelo (b_car b))]"] by blast
    with ns True same_blocks_trans[OF same] show ?thesis
      by (subst models_fill.simps) (auto simp: deref_def malloc_block_def after_malloc_def)
  qed
qed simp

definition blocks_granted :: "nat \<Rightarrow> mem \<Rightarrow> bool" where
  "blocks_granted k m \<longleftrightarrow> (\<forall>i < k. m_avail m (m_brk m + i))"

lemma list_get_model_list_ok:
  assumes list: "list_mem m l ns bs fr" and room: "length bs < 2147483647"
    and granted: "blocks_granted (Suc (length bs)) m"
  shows "list_get_model_list (Some l) m =
     Some (Some (terminated (map (c_modelo \<circ> b_car) bs)), after_malloc (Suc (length bs)) m)"
proof -
  have avail: "m_avail m (m_brk m)" "\<forall>i < length bs. m_avail (after_malloc 1 m) (m_brk (after_malloc 1 m) + i)"
    using granted by (auto simp: blocks_granted_def after_malloc_def)
  have "holds_seg (after_malloc 1 m) ns bs"
    using list_mem_holds_seg[OF list] by (simp add: holds_seg_same[OF after_malloc_same])
  from models_fill_ok[OF this avail(2), of "[]" 1] avail(1)
  show ?thesis
    using terminated_filled[of "map (c_modelo \<circ> b_car) bs"] room
    by (simp add: list_get_model_list_def list_mem_deref[OF list] int_inc_of_nat malloc_arr_def
        sint_of_nat_small[of "Suc (length bs)", simplified] after_malloc_def nat_add_distrib comp_def)
qed

lemma list_get_model_list_fail:
  assumes list: "list_mem m l ns bs fr" and room: "length bs < 2147483647"
    and refused: "\<not> blocks_granted (Suc (length bs)) m"
  obtains m' where "list_get_model_list (Some l) m = Some (None, m')" "same_blocks m m'"
proof (cases "m_avail m (m_brk m)")
  case False
  then show ?thesis using that[of "after_malloc 1 m"] room
    by (simp add: list_get_model_list_def list_mem_deref[OF list] int_inc_of_nat malloc_arr_def
        after_malloc_def same_blocks_def)
next
  case True
  obtain i where i: "i < Suc (length bs)" "\<not> m_avail m (m_brk m + i)"
    using refused by (auto simp: blocks_granted_def)
  with True obtain j where "i = Suc j" by (cases i) auto
  with i have "\<not> (\<forall>i < length bs. m_avail (after_malloc 1 m) (m_brk (after_malloc 1 m) + i))"
    by (auto simp: after_malloc_def)
  moreover have "holds_seg (after_malloc 1 m) ns bs"
    using list_mem_holds_seg[OF list] by (simp add: holds_seg_same[OF after_malloc_same])
  ultimately obtain m' where
    "models_fill (seg_ptr ns None) 0 (replicate (length bs + 1) None) (after_malloc 1 m) = Some (None, m')"
    "same_blocks (after_malloc 1 m) m'"
    using models_fill_fail[of "after_malloc 1 m" ns bs "[]" 1] by auto
  then show ?thesis using that[of m'] True room same_blocks_trans[OF after_malloc_same[of m 1]]
    by (simp add: list_get_model_list_def list_mem_deref[OF list] int_inc_of_nat malloc_arr_def
        sint_of_nat_small[of "Suc (length bs)", simplified] after_malloc_def nat_add_distrib)
qed

lemma free_models_ok:
  "i \<le> length xs \<Longrightarrow> free_models i (terminated xs) = Some ()"
proof (induction "length xs - i" arbitrary: i)
  case 0
  then have "arr_get i (terminated xs) = Some None"
    by (simp add: terminated_def arr_get_def nth_append)
  then show ?case by (subst free_models.simps) simp
next
  case (Suc k)
  then have "arr_get i (terminated xs) = Some (Some (xs ! i))"
    by (simp add: terminated_def arr_get_def nth_append)
  with Suc show ?case by (subst free_models.simps) simp
qed

lemma list_free_model_list_ok: "list_free_model_list (Some (terminated xs)) = Some 0"
  by (simp add: list_free_model_list_def free_models_ok)

section \<open>Properties\<close>

text \<open>\<open>list_get_by_marca\<close> returns the car of the first node with the make, NULL when there
  is none; it reads only live blocks and ends on every list.\<close>

theorem list_get_by_marca_first:
  assumes "list_mem m l ns bs fr"
  shows "list_get_by_marca (Some l) marca m =
    Some (case dropWhile (\<lambda>b. c_marca (b_car b) \<noteq> marca) bs of [] \<Rightarrow> None | b # _ \<Rightarrow> Some (b_data b))"
proof -
  have "map_option b_data (find (\<lambda>b. c_marca (b_car b) = marca) bs) =
    (case dropWhile (\<lambda>b. c_marca (b_car b) \<noteq> marca) bs of [] \<Rightarrow> None | b # _ \<Rightarrow> Some (b_data b))"
    by (induction bs) auto
  then show ?thesis using list_get_by_marca_ok[OF assms] by simp
qed

theorem list_get_by_marca_first_witness:
  "list_get_by_marca (Some 0) MARCA_BMW two_cars = Some (Some 5)"
  using list_get_by_marca_first[OF two_cars_list, of 1] by (simp add: yaris_def m3_def)

text \<open>\<open>list_get_by_year\<close> stays inside the array it allocates: its two passes agree, so the
  array has exactly one cell per car of the year, in list order, and the closing NULL; when the
  array is refused the result is NULL.  The list is not changed.\<close>

theorem list_get_by_year_exact:
  assumes "list_mem m l ns bs fr"
  shows "\<exists>r m'. list_get_by_year (Some l) ano m = Some (r, m') \<and> same_blocks m m' \<and>
    r = (if m_avail m (m_brk m)
         then Some (map Some (map (Some \<circ> b_data) (filter (\<lambda>b. c_ano (b_car b) = ano) bs) @ [None]))
         else None)"
  using list_get_by_year_ok[OF assms, of ano] after_malloc_same[of m 1]
  by (auto simp: terminated_def)

theorem list_get_by_year_exact_witness:
  "\<exists>m'. list_get_by_year (Some 0) 1999 two_cars = Some (Some [Some (Some 5), Some None], m')"
  using list_get_by_year_exact[OF two_cars_list, of 1999] by (auto simp: yaris_def m3_def)



end
