(* ===== verification/ListOrder.thy ===== *)
theory ListOrder
  imports ListQuery
begin

text \<open>
  Correctness of \<open>list_order_by_year\<close>: the bubble sort on the \<open>data\<close> pointers ends, and
  leaves the list stably sorted by year; nodes and blocks stay where they are.
\<close>

abbreviation year_of :: "block \<Rightarrow> int" where
  "year_of b \<equiv> sint (c_ano (b_car b))"

lemma linked_swap:
  assumes "linked N (n # k # ns) (d # e # ds) None" "distinct (n # k # ns)"
  shows "linked (N(n \<mapsto> \<lparr>car_data = Some e, car_next = Some k\<rparr>,
                   k \<mapsto> \<lparr>car_data = Some d, car_next = seg_ptr ns None\<rparr>))
           (n # k # ns) (e # d # ds) None"
  using assms by simp

text \<open>One pass of the inner loop is one \<open>bpass\<close> on the blocks.\<close>

lemma bubble_pass_single:
  assumes "holds_seg m ns [b]"
  shows "bubble_pass (seg_ptr ns None) sw m = Some (sw, m) \<and> linked (m_nodes m) ns [b_data b] None"
proof -
  from assms obtain n where "ns = [n]"
    "m_nodes m n = Some \<lparr>car_data = Some (b_data b), car_next = None\<rparr>"
    by (elim holds_seg_Cons) simp
  then show ?thesis by (subst bubble_pass.simps) (simp add: deref_def)
qed

lemma bubble_pass_ok:
  assumes "holds_seg m ns bs" "distinct ns"
  shows "\<exists>N'. bubble_pass (seg_ptr ns None) sw m =
           Some (sw \<or> fst (bpass year_of bs), m\<lparr>m_nodes := N'\<rparr>) \<and>
         linked N' ns (map b_data (snd (bpass year_of bs))) None \<and>
         (\<forall>a. a \<notin> set ns \<longrightarrow> N' a = m_nodes m a)"
  using assms
proof (induction year_of bs arbitrary: ns sw m rule: bpass.induct)
  case (1 b c bs)
  obtain n ns1 where ns: "ns = n # ns1"
    and n: "m_nodes m n = Some \<lparr>car_data = Some (b_data b), car_next = seg_ptr ns1 None\<rparr>"
    and b: "m_datas m (b_data b) = Some (block_of (b_car b) (b_str b))"
    and seg1: "holds_seg m ns1 (c # bs)"
    by (rule holds_seg_Cons[OF "1.prems"(1)]) blast
  obtain k ns2 where ns1: "ns1 = k # ns2"
    and k: "m_nodes m k = Some \<lparr>car_data = Some (b_data c), car_next = seg_ptr ns2 None\<rparr>"
    and c: "m_datas m (b_data c) = Some (block_of (b_car c) (b_str c))"
    by (rule holds_seg_Cons[OF seg1]) blast
  have dist: "distinct (n # k # ns2)" using "1.prems"(2) ns ns1 by simp
  show ?case
  proof (cases "year_of c < year_of b")
    case True
    let ?N = "(m_nodes m)(n \<mapsto> \<lparr>car_data = Some (b_data c), car_next = Some k\<rparr>,
                 k \<mapsto> \<lparr>car_data = Some (b_data b), car_next = seg_ptr ns2 None\<rparr>)"
    let ?m = "m\<lparr>m_nodes := ?N\<rparr>"
    have "linked ?N (n # k # ns2) (b_data c # b_data b # map b_data bs) None"
      using linked_swap[OF _ dist] dist "1.prems"(1) ns ns1 by (simp add: holds_seg_def)
    then have "linked ?N (k # ns2) (map b_data (b # bs)) None" by simp
    then have "holds_seg ?m (k # ns2) (b # bs)"
      using "1.prems"(1) by (simp add: holds_seg_def car_at_def)
    from "1.hyps"(1)[OF True this, of True] dist obtain N' where
      N': "bubble_pass (seg_ptr (k # ns2) None) True ?m = Some (True, ?m\<lparr>m_nodes := N'\<rparr>)"
        "linked N' (k # ns2) (map b_data (snd (bpass year_of (b # bs)))) None"
        "\<forall>a. a \<notin> set (k # ns2) \<longrightarrow> N' a = ?N a"
      by auto
    have "N' n = ?N n" using N'(3) dist by auto
    then have "N' n = Some \<lparr>car_data = Some (b_data c), car_next = Some k\<rparr>" using dist by simp
    moreover have "bubble_pass (seg_ptr ns None) sw m = bubble_pass (Some k) True ?m"
      using ns ns1 n k b c True dist
      by (subst bubble_pass.simps) (simp add: deref_def store_def)
    ultimately show ?thesis using N' True ns ns1 by (intro exI[of _ N']) auto
  next
    case False
    have "distinct ns1" using dist ns1 by simp
    from "1.hyps"(2)[OF False seg1 this, of sw] obtain N' where
      N': "bubble_pass (seg_ptr ns1 None) sw m = Some (sw \<or> fst (bpass year_of (c # bs)), m\<lparr>m_nodes := N'\<rparr>)"
        "linked N' ns1 (map b_data (snd (bpass year_of (c # bs)))) None"
        "\<forall>a. a \<notin> set ns1 \<longrightarrow> N' a = m_nodes m a"
      by blast
    have "N' n = m_nodes m n" using N'(3) dist ns1 by auto
    moreover have "bubble_pass (seg_ptr ns None) sw m = bubble_pass (seg_ptr ns1 None) sw m"
      using ns ns1 n k b c False by (subst bubble_pass.simps) (simp add: deref_def)
    ultimately show ?thesis using N' False ns n by (intro exI[of _ N']) auto
  qed
next
  case "2_1"
  then have "ns = []" by simp
  with "2_1" show ?case
    by (subst bubble_pass.simps) (auto intro!: exI[of _ "m_nodes m"])
next
  case "2_2"
  then show ?case
    using bubble_pass_single[OF "2_2"(1)] by (auto intro!: exI[of _ "m_nodes m"])
qed

text \<open>The outer loop ends because a swapping pass removes an inversion.\<close>

lemma bubble_loop_ok:
  assumes "holds_seg m ns bs" "distinct ns" "m_lists m l = Some \<lparr>l_size = sz, l_head = seg_ptr ns None\<rparr>"
    and "dom (m_nodes m) = set ns"
  shows "\<exists>N'. bubble_loop (Some l) m = Some (m\<lparr>m_nodes := N'\<rparr>) \<and>
         linked N' ns (map b_data (sort_key year_of bs)) None \<and> dom N' = set ns"
  using assms
proof (induction "inversions year_of bs" arbitrary: m bs rule: less_induct)
  case less
  obtain N' where pass: "bubble_pass (seg_ptr ns None) False m =
        Some (fst (bpass year_of bs), m\<lparr>m_nodes := N'\<rparr>)"
    and link: "linked N' ns (map b_data (snd (bpass year_of bs))) None"
    and out: "\<forall>a. a \<notin> set ns \<longrightarrow> N' a = m_nodes m a"
    using bubble_pass_ok[OF less.prems(1,2), of False] by auto
  have "set ns \<subseteq> dom N'" using linked_live[OF link] by auto
  then have dom: "dom N' = set ns" using out less.prems(4) by (auto simp: domIff dom_def)
  show ?case
  proof (cases "fst (bpass year_of bs)")
    case True
    let ?m = "m\<lparr>m_nodes := N'\<rparr>" and ?bs = "snd (bpass year_of bs)"
    have "inversions year_of ?bs < inversions year_of bs"
      using bpass_inversions[of year_of bs] True by simp
    moreover have "holds_seg ?m ns ?bs"
      using link less.prems(1) by (simp add: holds_seg_def car_at_def)
    ultimately obtain N2 where "bubble_loop (Some l) ?m = Some (?m\<lparr>m_nodes := N2\<rparr>)"
      "linked N2 ns (map b_data (sort_key year_of ?bs)) None" "dom N2 = set ns"
      using less.hyps[of ?bs ?m] less.prems(2,3) dom by auto
    with pass True less.prems(3) show ?thesis
      by (subst bubble_loop.simps) (auto simp: deref_def sort_key_bpass intro!: exI[of _ N2])
  next
    case False
    with bpass_unswapped[OF this] have "snd (bpass year_of bs) = sort_key year_of bs"
      by (simp add: sorted_sort_id flip: sort_key_id_if_sorted)
    with pass False link dom less.prems(3) show ?thesis
      by (subst bubble_loop.simps) (auto simp: deref_def)
  qed
qed

lemma list_order_ok:
  assumes "list_mem m l ns bs fr" "mem_wf m"
  obtains m' where "list_order_by_year (Some l) m = Some (0, m')" "mem_wf m'" "env_same m m'"
    "list_mem m' l ns (sort_key year_of bs) fr"
proof -
  have lists: "m_lists m l = Some \<lparr>l_size = of_nat (length bs), l_head = seg_ptr ns None\<rparr>"
    and dist: "distinct ns" and dom: "dom (m_nodes m) = set ns" and blk: "blocks m (bs @ fr)"
    using assms(1) by (simp_all add: list_mem_def)
  from bubble_loop_ok[OF list_mem_holds_seg[OF assms(1)] dist lists dom] obtain N' where
    loop: "bubble_loop (Some l) m = Some (m\<lparr>m_nodes := N'\<rparr>)"
    and link: "linked N' ns (map b_data (sort_key year_of bs)) None" and dom': "dom N' = set ns"
    by blast
  let ?m = "m\<lparr>m_nodes := N'\<rparr>"
  have "blocks m (sort_key year_of bs @ fr)"
    using blk by (subst blocks_perm[where B = "bs @ fr"]) simp_all
  then have "blocks ?m (sort_key year_of bs @ fr)" by (rule blocks_transfer) simp_all
  then have "list_mem ?m l ns (sort_key year_of bs) fr"
    using assms(1) link dom' by (simp add: list_mem_def)
  moreover have "mem_wf ?m" using dom dom' by (intro mem_wf_sub[OF assms(2)]) auto
  moreover have "list_order_by_year (Some l) m = Some (0, ?m)"
    using loop by (simp add: list_order_by_year_def)
  ultimately show ?thesis using that by (simp add: env_same_def)
qed

section \<open>Properties\<close>

text \<open>C9: the bubble sort of \<open>list_order_by_year\<close> ends on every list and returns 0; it keeps
  the nodes and moves the \<open>data\<close> pointers so that the cars are in ascending order of year, no
  car is lost or duplicated, and cars of the same year stay in their order.\<close>

theorem list_order_sorts:
  assumes "list_mem m l ns bs fr" "mem_wf m"
  shows "\<exists>m' bs'. list_order_by_year (Some l) m = Some (0, m') \<and> mem_wf m' \<and>
    list_mem m' l ns bs' fr \<and> mset bs' = mset bs \<and> sorted (map year_of bs') \<and>
    (\<forall>y. filter (\<lambda>b. year_of b = y) bs' = filter (\<lambda>b. year_of b = y) bs)"
proof -
  have "filter (\<lambda>b. year_of b = y) (sort_key year_of bs) = filter (\<lambda>b. year_of b = y) bs" for y
    using sort_key_stable[of year_of y bs] by simp
  then show ?thesis using list_order_ok[OF assms] by (metis mset_sort sorted_sort_key)
qed

theorem list_order_sorts_witness:
  "\<exists>m'. list_order_by_year (Some 0) two_cars = Some (0, m')"
  using list_order_sorts[OF two_cars_list two_cars_wf] by blast

end
