(* ===== verification/SkelSpec.thy ===== *)
theory SkelSpec
  imports SkelC ListAdd ListRemove ListQuery ListOrder
begin

text \<open>
  The contract of the service skeleton: \<open>skel_step\<close> says what each request does to an
  abstract list of cars and what the reply is, and the lemmas show that \<open>invoke\<close> on the
  memory of the list refines it: it never goes wrong, keeps the memory well formed and free of
  lost blocks whatever the allocator answers, and is exactly \<open>skel_step\<close> when the allocator
  grants every request.
\<close>

section \<open>The abstract service\<close>

type_synonym outcome = "int \<times> MessageT \<times> car list"

definition reply_ok :: "MessageT \<Rightarrow> u32 \<Rightarrow> MessageT" where
  "reply_ok msg ct = msg\<lparr>msg_opcode := msg_opcode msg + 1, msg_c_type := ct\<rparr>"

definition cars_reply :: "MessageT \<Rightarrow> car list \<Rightarrow> MessageT" where
  "cars_reply msg cs = reply_ok (msg\<lparr>msg_cars := Some (map (Some \<circ> Some \<circ> pdata_of) cs),
     msg_n_cars := length cs\<rparr>) CT_LIST"

definition step_size :: "MessageT \<Rightarrow> car list \<Rightarrow> outcome" where
  "step_size msg xs = (0, reply_ok (msg\<lparr>msg_result := of_nat (length xs)\<rparr>) CT_RESULT, xs)"

definition step_add :: "i32 \<Rightarrow> MessageT \<Rightarrow> car list \<Rightarrow> outcome" where
  "step_add year msg xs =
     (case msg_data msg of
        None \<Rightarrow> (-1, reply_error msg, xs)
      | Some d \<Rightarrow> (case p_modelo d of
          None \<Rightarrow> (-1, reply_error msg, xs)
        | Some s \<Rightarrow>
            if car_valid year (car_of d s)
            then (0, reply_ok (msg\<lparr>msg_result := 0\<rparr>) CT_NONE, xs @ [car_of d s])
            else (-1, reply_error msg, xs)))"

definition step_get :: "MessageT \<Rightarrow> car list \<Rightarrow> outcome" where
  "step_get msg xs =
     (if msg_c_type msg = CT_MARCA then
        (case find (\<lambda>c. c_marca c = msg_result msg) xs of
           None \<Rightarrow> (0, reply_error msg, xs)
         | Some c \<Rightarrow> (0, reply_ok (msg\<lparr>msg_data := Some (pdata_of c)\<rparr>) CT_DATA, xs))
      else (0, msg, xs))"

abbreviation by_year :: "car list \<Rightarrow> car list" where
  "by_year \<equiv> sort_key (\<lambda>c. sint (c_ano c))"

definition step_getlist :: "MessageT \<Rightarrow> car list \<Rightarrow> outcome" where
  "step_getlist msg xs =
     (if msg_result msg \<noteq> -1
      then (0, cars_reply msg (filter (\<lambda>c. c_ano c = msg_result msg) xs), xs)
      else (0, cars_reply msg (by_year xs), by_year xs))"

definition step_getmodels :: "MessageT \<Rightarrow> car list \<Rightarrow> outcome" where
  "step_getmodels msg xs =
     (0, reply_ok (msg\<lparr>msg_models := Some (terminated (map c_modelo xs)),
                       msg_n_models := length xs\<rparr>) CT_MODEL, xs)"

text \<open>The model a delete request names.\<close>

definition del_model :: "MessageT \<Rightarrow> string option" where
  "del_model msg = Option.bind (msg_models msg) (\<lambda>a. Option.bind (arr_get 0 a) id)"

definition step_del :: "MessageT \<Rightarrow> car list \<Rightarrow> outcome" where
  "step_del msg xs =
     (if msg_n_models msg \<noteq> 1 then (0, reply_error msg, xs)
      else case del_model msg of
        None \<Rightarrow> (0, reply_ok (msg\<lparr>msg_result := -1\<rparr>) CT_RESULT, xs)
      | Some s \<Rightarrow> (0, reply_ok (msg\<lparr>msg_result := (if \<exists>c \<in> set xs. c_modelo c = s then 0 else 1)\<rparr>)
                       CT_RESULT, remove_first (\<lambda>c. c_modelo c = s) xs))"

definition skel_step :: "i32 \<Rightarrow> MessageT \<Rightarrow> car list \<Rightarrow> outcome" where
  "skel_step year msg xs =
     (if msg_opcode msg = OP_SIZE then step_size msg xs
      else if msg_opcode msg = OP_ADD then step_add year msg xs
      else if msg_opcode msg = OP_GET then step_get msg xs
      else if msg_opcode msg = OP_GETLISTBYTEAR then step_getlist msg xs
      else if msg_opcode msg = OP_GETMODELS then step_getmodels msg xs
      else if msg_opcode msg = OP_DEL then step_del msg xs
      else (0, reply_error msg, xs))"

text \<open>
  What unpacking a message guarantees of a delete request: a repeated field of one element is an
  array whose first cell is set.
\<close>

definition msg_ok :: "MessageT \<Rightarrow> bool" where
  "msg_ok msg \<longleftrightarrow> (msg_n_models msg = 1 \<longrightarrow>
     (case msg_models msg of None \<Rightarrow> False | Some a \<Rightarrow> arr_get 0 a \<noteq> None))"

section \<open>What refining a step means\<close>

definition all_granted :: "mem \<Rightarrow> bool" where
  "all_granted m \<longleftrightarrow> (\<forall>n. m_avail m n)"

lemma all_granted_env: "env_same m m' \<Longrightarrow> all_granted m' = all_granted m"
  by (simp add: all_granted_def env_same_def)

lemma all_granted_blocks [simp]:
  assumes "all_granted m"
  shows "two_blocks_granted m" "three_blocks_granted m" "blocks_granted k m" "m_avail m n"
  using assms
  by (simp_all add: all_granted_def two_blocks_granted_def three_blocks_granted_def blocks_granted_def)

definition refines_step :: "mem \<Rightarrow> addr \<Rightarrow> car list \<Rightarrow> reply \<Rightarrow> outcome \<Rightarrow> bool" where
  "refines_step m l xs r spec \<longleftrightarrow>
     (\<exists>rc msg' m' xs'. r = Some (rc, msg', m') \<and> list_is m' l xs' \<and> env_same m m' \<and>
        (xs' = xs \<or> xs' = snd (snd spec)) \<and> (all_granted m \<longrightarrow> (rc, msg', xs') = spec))"

lemma refines_stepI:
  assumes "r = Some (rc, msg', m')" "list_is m' l xs'" "env_same m m'"
    "xs' = xs \<or> xs' = snd (snd spec)" "all_granted m \<Longrightarrow> (rc, msg', xs') = spec"
  shows "refines_step m l xs r spec"
  using assms by (auto simp: refines_step_def)

section \<open>The cases\<close>

lemma invoke_size_refines:
  assumes "list_is m l xs"
  shows "refines_step m l xs (invoke_size msg (Some l) m) (step_size msg xs)"
proof -
  obtain ns bs where "list_mem m l ns bs []" and xs: "map b_car bs = xs"
    using assms by (auto simp: list_is_def)
  then have "list_size (Some l) m = Some (of_nat (length xs))" by (auto simp: list_size_list_mem)
  moreover have "length xs < 2147483648"
    using \<open>list_mem m l ns bs []\<close> xs by (auto simp: list_mem_def)
  ultimately show ?thesis
    by (intro refines_stepI[OF _ assms])
      (simp_all add: invoke_size_def step_size_def reply_ok_def of_nat_neq_minus_one)
qed

lemma list_isI: "list_mem m l ns bs [] \<Longrightarrow> mem_wf m \<Longrightarrow> map b_car bs = xs \<Longrightarrow> list_is m l xs"
  by (auto simp: list_is_def)

text \<open>A block of a local variable, once destroyed, leaves the list alone.\<close>

lemma list_mem_drop_local:
  assumes "list_mem m l ns bs (b # fr)" "mem_wf m"
  obtains m' where "data_destroy (Some (b_data b)) m = Some (0, m')" "list_mem m' l ns bs fr"
    "mem_wf m'" "env_same m m'"
proof -
  let ?m = "m\<lparr>m_strs := (m_strs m)(b_str b := None), m_datas := (m_datas m)(b_data b := None)\<rparr>"
  have "blocks m (b # bs @ fr)"
    using assms(1) by (subst blocks_perm[where B = "bs @ b # fr"]) (simp_all add: list_mem_def)
  note destroyed = blocks_destroy[OF this]
  have "list_mem ?m l ns bs fr" using assms(1) destroyed(2) by (simp add: list_mem_def)
  moreover have "mem_wf ?m" by (rule mem_wf_sub[OF assms(2)]) auto
  moreover have "env_same m ?m" by (simp add: env_same_def)
  ultimately show ?thesis using destroyed(1) that by blast
qed

lemma list_mem_new_local:
  assumes "list_mem m l ns bs fr" "mem_wf m"
  shows "list_mem (with_car c m) l ns bs ((m_brk m, Suc (m_brk m), c) # fr)"
proof -
  have "blocks (with_car c m) ((m_brk m, Suc (m_brk m), c) # bs @ fr)"
    using assms(1) blocks_with_car[OF _ assms(2)] by (simp add: list_mem_def)
  then have "blocks (with_car c m) (bs @ (m_brk m, Suc (m_brk m), c) # fr)"
    by (subst blocks_perm[where B = "(m_brk m, Suc (m_brk m), c) # bs @ fr"]) simp_all
  with assms(1) show ?thesis by (simp add: list_mem_def)
qed

lemma env_same_with_car: "env_same m (with_car c m)"
  by (simp add: env_same_def)

text \<open>\<open>list_add\<close> followed by \<open>data_destroy\<close>, as every caller of \<open>list_add\<close> here does.\<close>

lemma add_created:
  assumes list: "list_is m l xs" and room: "length xs < 2147483647"
    and valid: "car_valid (ano_atual m) c"
  shows "\<exists>res m2 m3 xs'. list_add (Some l) (Some (m_brk m)) (with_car c m) = Some (res, m2) \<and>
     data_destroy (Some (m_brk m)) m2 = Some (0, m3) \<and> list_is m3 l xs' \<and> env_same m m3 \<and>
     (res = 0 \<and> xs' = xs @ [c] \<or> res \<noteq> 0 \<and> xs' = xs \<and> \<not> all_granted m)"
proof -
  obtain ns bs where mem: "list_mem m l ns bs []" and wf: "mem_wf m" and xs: "map b_car bs = xs"
    using list by (auto simp: list_is_def)
  let ?m1 = "with_car c m" and ?b = "(m_brk m, Suc (m_brk m), c)"
  have mem1: "list_mem ?m1 l ns bs [?b]" and wf1: "mem_wf ?m1"
    using list_mem_new_local[OF mem wf] mem_wf_with_car[OF wf] by simp_all
  have at: "car_at ?m1 (m_brk m) (Suc (m_brk m)) c" by (rule car_at_with_car)
  have year: "ano_atual ?m1 = ano_atual m" by (simp add: ano_atual_def)
  show ?thesis
  proof (cases "three_blocks_granted ?m1")
    case True
    have "length bs < 2147483647" using room xs by auto
    from list_add_ok[OF mem1 wf1 at, unfolded year, OF valid True this] obtain m2 b where
      add: "list_add (Some l) (Some (m_brk m)) ?m1 = Some (0, m2)" "mem_wf m2" "env_same ?m1 m2"
        "list_mem m2 l (ns @ [m_brk ?m1]) (bs @ [b]) [?b]" "b_car b = c"
      by blast
    from list_mem_drop_local[OF add(4,2)] obtain m3 where
      drop: "data_destroy (Some (m_brk m)) m2 = Some (0, m3)"
      "list_mem m3 l (ns @ [m_brk ?m1]) (bs @ [b]) []" "mem_wf m3" "env_same m2 m3"
      by auto
    have "list_is m3 l (xs @ [c])" by (rule list_isI[OF drop(2,3)]) (use xs add(5) in simp)
    with drop(1,4) add(1) env_same_trans[OF env_same_trans[OF env_same_with_car add(3)]] show ?thesis by blast
  next
    case False
    then obtain m2 where add: "list_add (Some l) (Some (m_brk m)) ?m1 = Some (-1, m2)"
      "same_blocks ?m1 m2"
      using list_add_fail[OF wf1 at] by blast
    have "list_mem m2 l ns bs [?b]" "mem_wf m2"
      using mem1 wf1 add(2) by (simp_all add: list_mem_same same_blocks_wf)
    from list_mem_drop_local[OF this] obtain m3 where
      "data_destroy (Some (m_brk m)) m2 = Some (0, m3)" "env_same m2 m3" and
      drop: "list_mem m3 l ns bs []" "mem_wf m3"
      by auto
    moreover have "list_is m3 l xs" by (rule list_isI[OF drop xs])
    moreover have "\<not> all_granted m"
      using False all_granted_env[OF env_same_with_car[of m c]] by auto
    ultimately show ?thesis
      using add(1) env_same_trans[OF env_same_trans[OF env_same_with_car same_blocks_env[OF add(2)]]]
      by force
  qed
qed

lemma data_create_null: "data_create a p k None f m = Some (None, m)"
  by (simp add: data_create_def validar_dados_def)

lemma data_create_car_of:
  "data_create (p_ano d) (p_preco d) (p_marca d) (Some s) (p_combustivel d) m =
     data_create_car (car_of d s) m"
  by simp

lemma invoke_add_refines:
  assumes list: "list_is m l xs" and room: "length xs < 2147483647"
  shows "refines_step m l xs (invoke_add msg (Some l) m) (step_add (ano_atual m) msg xs)"
proof (cases "msg_data msg")
  case None
  then show ?thesis
    by (intro refines_stepI[OF _ list]) (simp_all add: invoke_add_def step_add_def)
next
  case (Some d)
  note d = Some
  show ?thesis
  proof (cases "p_modelo d")
    case None
    with d show ?thesis
      by (intro refines_stepI[OF _ list]) (simp_all add: invoke_add_def step_add_def data_create_null)
  next
    case (Some s)
    let ?c = "car_of d s"
    have wf: "mem_wf m" using list by (simp add: list_is_def)
    show ?thesis
    proof (cases "car_valid (ano_atual m) ?c \<and> two_blocks_granted m")
      case True
      from add_created[OF list room] True obtain res m2 m3 xs' where
        add: "list_add (Some l) (Some (m_brk m)) (with_car ?c m) = Some (res, m2)"
          "data_destroy (Some (m_brk m)) m2 = Some (0, m3)" and list': "list_is m3 l xs'"
        and env: "env_same m m3"
        and cases: "res = 0 \<and> xs' = xs @ [?c] \<or> res \<noteq> 0 \<and> xs' = xs \<and> \<not> all_granted m"
        by blast
      then have run: "invoke_add msg (Some l) m =
          Some (0, if res = 0 then msg\<lparr>msg_opcode := msg_opcode msg + 1, msg_c_type := CT_NONE,
                                       msg_result := 0\<rparr> else reply_error msg, m3)"
        using d Some True data_create_ok[of m ?c]
        by (simp add: invoke_add_def data_create_car_of del: car_of_sel)
      show ?thesis
        by (rule refines_stepI[OF run list' env])
          (use cases d Some True in \<open>auto simp: step_add_def reply_ok_def\<close>)
    next
      case False
      from data_create_fail[OF wf False] obtain m1 where
        "data_create_car ?c m = Some (None, m1)" and same: "same_blocks m m1" by blast
      then have run: "invoke_add msg (Some l) m = Some (-1, reply_error msg, m1)"
        using d Some by (simp add: invoke_add_def data_create_car_of del: car_of_sel)
      show ?thesis
        by (rule refines_stepI[OF run list_is_same[OF same list] same_blocks_env[OF same]])
          (use False d Some in \<open>auto simp: step_add_def\<close>)
    qed
  qed
qed

end
