(* ===== verification/Simulation.thy ===== *)
theory Simulation
  imports Prelude
begin

text \<open>
  The interface between a component that answers requests on a concrete state and its abstract
  specification: one request of the implementation simulates one step of the specification.  The
  locale lifts this to runs of requests; the service skeleton and the replica of a chain are its
  interpretations.
\<close>

fun run_steps :: "('i \<Rightarrow> 's \<Rightarrow> ('o \<times> 's) option) \<Rightarrow> 'i list \<Rightarrow> 's \<Rightarrow> ('o list \<times> 's) option" where
  "run_steps step [] s = Some ([], s)"
| "run_steps step (i # is) s = do {
     (out, s1) \<leftarrow> step i s;
     (outs, s2) \<leftarrow> run_steps step is s1;
     Some (out # outs, s2)
   }"

fun run_spec :: "('i \<Rightarrow> 'a \<Rightarrow> 'o \<times> 'a) \<Rightarrow> 'i list \<Rightarrow> 'a \<Rightarrow> 'o list \<times> 'a" where
  "run_spec spec [] a = ([], a)"
| "run_spec spec (i # is) a =
     (let (out, a1) = spec i a; (outs, a2) = run_spec spec is a1 in (out # outs, a2))"

fun run_ok :: "('i \<Rightarrow> 'a \<Rightarrow> 'o \<times> 'a) \<Rightarrow> ('i \<Rightarrow> 'a \<Rightarrow> bool) \<Rightarrow> 'i list \<Rightarrow> 'a \<Rightarrow> bool" where
  "run_ok spec ok [] a = True"
| "run_ok spec ok (i # is) a = (ok i a \<and> run_ok spec ok is (snd (spec i a)))"

lemma run_spec_append:
  "run_spec spec (is @ js) a =
     (let (outs, a1) = run_spec spec is a; (outs', a2) = run_spec spec js a1 in (outs @ outs', a2))"
  by (induction "is" arbitrary: a) (auto simp: Let_def split: prod.splits)

lemma run_spec_invariant:
  assumes "\<And>i a. P a \<Longrightarrow> P (snd (spec i a))" "P a"
  shows "P (snd (run_spec spec is a))"
  using assms(2)
proof (induction "is" arbitrary: a)
  case (Cons i "is")
  from Cons.IH[OF assms(1)[OF Cons.prems, of i]] show ?case
    by (auto simp: Let_def split: prod.splits)
qed simp

locale simulation =
  fixes R :: "'s \<Rightarrow> 'a \<Rightarrow> bool"
    and step :: "'i \<Rightarrow> 's \<Rightarrow> ('o \<times> 's) option"
    and spec :: "'i \<Rightarrow> 'a \<Rightarrow> 'o \<times> 'a"
    and ok :: "'i \<Rightarrow> 'a \<Rightarrow> bool"
  assumes sim_step: "R s a \<Longrightarrow> ok i a \<Longrightarrow>
    \<exists>s'. step i s = Some (fst (spec i a), s') \<and> R s' (snd (spec i a))"
begin

lemma sim_run:
  assumes "R s a" "run_ok spec ok is a"
  shows "\<exists>s'. run_steps step is s = Some (fst (run_spec spec is a), s') \<and>
    R s' (snd (run_spec spec is a))"
  using assms
proof (induction "is" arbitrary: s a)
  case (Cons i "is")
  then obtain s1 where "step i s = Some (fst (spec i a), s1)" "R s1 (snd (spec i a))"
    using sim_step by fastforce
  with Cons.IH[of s1 "snd (spec i a)"] Cons.prems show ?case
    by (auto simp: Let_def split: prod.splits)
qed simp

text \<open>Two implementations of one specification give the same answers.\<close>

lemma sim_deterministic:
  assumes "R s a" "R t a" "run_ok spec ok is a"
  shows "map_option fst (run_steps step is s) = map_option fst (run_steps step is t)"
  using sim_run[OF assms(1,3)] sim_run[OF assms(2,3)] by auto

end

end
