(* ===== verification/SkelRefine.thy ===== *)
theory SkelRefine
  imports SkelSpec Simulation
begin

text \<open>
  The refinement of the remaining cases of \<open>invoke\<close> (\<open>OP_GET\<close>, \<open>OP_GETLISTBYTEAR\<close>,
  \<open>OP_GETMODELS\<close>, \<open>OP_DEL\<close>) and of \<open>invoke\<close> as a whole.
\<close>

section \<open>Conversions to protobuf\<close>

lemma data_to_protobuf_ok:
  assumes "car_at m d s c"
  obtains r m' where "data_to_protobuf (Some d) m = Some (r, m')" "same_blocks m m'"
    "all_granted m \<Longrightarrow> r = Some (pdata_of c)"
proof (cases "m_avail m (m_brk m)")
  case False
  show ?thesis
    by (rule that[of None "m\<lparr>m_brk := Suc (m_brk m)\<rparr>"])
      (use False in \<open>simp_all add: data_to_protobuf_def malloc_block_def same_blocks_def all_granted_def\<close>)
next
  case True
  let ?p = "data_init\<lparr>p_ano := c_ano c, p_preco := c_preco c, p_marca := c_marca c,
    p_modelo := (if m_avail m (Suc (m_brk m)) then Some (c_modelo c) else None),
    p_combustivel := c_combustivel c\<rparr>"
  show ?thesis
    by (rule that[of "Some ?p" "m\<lparr>m_brk := Suc (Suc (m_brk m))\<rparr>"])
      (use True assms in \<open>simp_all add: data_to_protobuf_def malloc_block_def same_blocks_def
         all_granted_def deref_def car_at_def data_init_def pdata_of_def\<close>)
qed

lemma arr_get_terminated:
  "i < length xs \<Longrightarrow> arr_get i (terminated xs) = Some (Some (xs ! i))"
  "arr_get (length xs) (terminated xs) = Some None"
  by (simp_all add: terminated_def arr_get_def nth_append)

lemma cars_count_ok: "i \<le> length ps \<Longrightarrow> cars_count i (terminated ps) = Some (length ps)"
proof (induction "length ps - i" arbitrary: i)
  case 0
  then have "i = length ps" by simp
  then show ?case by (subst cars_count.simps) (simp add: arr_get_terminated)
next
  case (Suc k)
  then show ?case by (subst cars_count.simps) (simp add: arr_get_terminated)
qed

lemma cars_convert_ok:
  assumes "\<forall>b \<in> set bs. car_at m (b_data b) (b_str b) (b_car b)" "length ds = length pre"
  shows "\<exists>es m'. cars_convert (length pre) (length (pre @ bs)) (terminated (map b_data (pre @ bs)))
            (map Some ds @ replicate (length bs) None) m = Some (map Some (ds @ es), m') \<and>
          same_blocks m m' \<and> (all_granted m \<longrightarrow> es = map (Some \<circ> pdata_of \<circ> b_car) bs)"
  using assms
proof (induction bs arbitrary: pre ds m)
  case Nil
  then show ?case by (subst cars_convert.simps) simp
next
  case (Cons b bs)
  have "car_at m (b_data b) (b_str b) (b_car b)" using Cons.prems(1) by simp
  then obtain r m1 where conv: "data_to_protobuf (Some (b_data b)) m = Some (r, m1)"
    and same: "same_blocks m m1" and r: "all_granted m \<Longrightarrow> r = Some (pdata_of (b_car b))"
    by (rule data_to_protobuf_ok) blast
  have get: "arr_get (length pre) (terminated (map b_data (pre @ b # bs))) = Some (Some (b_data b))"
    using arr_get_terminated(1)[of "length pre" "map b_data (pre @ b # bs)"]
    by (simp add: nth_append)
  have set: "arr_set (length pre) r (map Some ds @ replicate (length (b # bs)) None) =
      Some (map Some (ds @ [r]) @ replicate (length bs) None)"
    using Cons.prems(2) arr_set_next[of ds r] by simp
  have "\<forall>b \<in> set bs. car_at m1 (b_data b) (b_str b) (b_car b)"
    using Cons.prems(1) same by (simp add: car_at_def same_blocks_def)
  moreover have "length (ds @ [r]) = length (pre @ [b])" using Cons.prems(2) by simp
  ultimately obtain es m' where
    "cars_convert (length (pre @ [b])) (length ((pre @ [b]) @ bs))
       (terminated (map b_data ((pre @ [b]) @ bs)))
       (map Some (ds @ [r]) @ replicate (length bs) None) m1 = Some (map Some ((ds @ [r]) @ es), m')"
    "same_blocks m1 m'" "all_granted m1 \<longrightarrow> es = map (Some \<circ> pdata_of \<circ> b_car) bs"
    using Cons.IH by blast
  moreover have "all_granted m1 = all_granted m"
    using same by (intro all_granted_env same_blocks_env)
  ultimately show ?case
    using get set conv r same_blocks_trans[OF same] same
    by (subst cars_convert.simps) (auto intro!: exI[of _ "r # es"])
qed

lemma to_protobuf_array_ok:
  assumes "\<forall>b \<in> set bs. car_at m (b_data b) (b_str b) (b_car b)"
  obtains arr k m' where
    "data_array_to_protobuf_array (Some (terminated (map b_data bs))) m = Some ((arr, k), m')"
    "same_blocks m m'"
    "all_granted m \<Longrightarrow> arr = Some (map (Some \<circ> Some \<circ> pdata_of \<circ> b_car) bs) \<and> k = length bs"
proof (cases "m_avail m (m_brk m)")
  case False
  then show ?thesis using that[of None 0 "after_malloc 1 m"] cars_count_ok[of 0 "map b_data bs"]
    by (auto simp: data_array_to_protobuf_array_def malloc_arr_def after_malloc_def same_blocks_def
        all_granted_def)
next
  case True
  let ?m = "after_malloc 1 m"
  have "\<forall>b \<in> set bs. car_at ?m (b_data b) (b_str b) (b_car b)"
    using assms by (simp add: car_at_def after_malloc_def)
  from cars_convert_ok[OF this, of "[]" "[]"] obtain es m' where
    conv: "cars_convert 0 (length bs) (terminated (map b_data bs)) (replicate (length bs) None) ?m =
        Some (map Some es, m')"
    and "same_blocks ?m m'" and es: "all_granted ?m \<longrightarrow> es = map (Some \<circ> pdata_of \<circ> b_car) bs"
    by auto
  then have "same_blocks m m'" using same_blocks_trans[OF after_malloc_same] by blast
  moreover have "all_granted ?m = all_granted m"
    by (intro all_granted_env same_blocks_env after_malloc_same)
  moreover have "data_array_to_protobuf_array (Some (terminated (map b_data bs))) m =
      Some ((Some (map Some es), length bs), m')"
    using True conv cars_count_ok[of 0 "map b_data bs"]
    by (simp add: data_array_to_protobuf_array_def malloc_arr_def after_malloc_def)
  ultimately show ?thesis using that es by (auto simp: comp_def)
qed

lemma all_fill_ok:
  "holds_seg m ns bs \<Longrightarrow>
     all_fill (seg_ptr ns None) (length ps) (map Some ps @ replicate (length bs + r) None) m =
     Some (length ps + length bs, map Some (ps @ map (Some \<circ> b_data) bs) @ replicate r None)"
proof (induction bs arbitrary: ns ps)
  case Nil
  then show ?case by (subst all_fill.simps) simp
next
  case (Cons b bs)
  from Cons.prems obtain n ns' where "ns = n # ns'"
    "m_nodes m n = Some \<lparr>car_data = Some (b_data b), car_next = seg_ptr ns' None\<rparr>"
    and seg: "holds_seg m ns' bs"
    by (elim holds_seg_Cons)
  with Cons.IH[OF seg, of "ps @ [Some (b_data b)]"] show ?case
    by (subst all_fill.simps) (simp add: deref_def arr_set_next[simplified])
qed

lemma list_get_all_ok:
  assumes list: "list_mem m l ns bs fr" and room: "length bs < 2147483647"
  shows "list_get_all (Some l) m =
     Some (if m_avail m (m_brk m) then Some (terminated (map b_data bs)) else None, after_malloc 1 m)"
proof -
  have "holds_seg (after_malloc 1 m) ns bs"
    using list_mem_holds_seg[OF list] by (simp add: holds_seg_same[OF after_malloc_same])
  from all_fill_ok[OF this, of "[]" 1]
  show ?thesis
    using terminated_filled[of "map b_data bs"] room
    by (simp add: list_get_all_def list_mem_deref[OF list] int_inc_of_nat malloc_arr_def
        sint_of_nat_small[of "Suc (length bs)", simplified] after_malloc_def nat_add_distrib comp_def)
qed

section \<open>Requests that read\<close>

lemma reply_cars_ok:
  assumes "list_mem m l ns bs []" "set cs \<subseteq> set bs"
  obtains msg' m' where "reply_cars msg (Some (terminated (map b_data cs))) m = Some (0, msg', m')"
    "same_blocks m m'" "all_granted m \<Longrightarrow> msg' = cars_reply msg (map b_car cs)"
proof -
  have "\<forall>b \<in> set cs. car_at m (b_data b) (b_str b) (b_car b)"
    using list_mem_car_at[OF assms(1)] assms(2) by blast
  then obtain arr k m' where
    "data_array_to_protobuf_array (Some (terminated (map b_data cs))) m = Some ((arr, k), m')"
    "same_blocks m m'"
    "all_granted m \<Longrightarrow> arr = Some (map (Some \<circ> Some \<circ> pdata_of \<circ> b_car) cs) \<and> k = length cs"
    by (rule to_protobuf_array_ok) blast
  then show ?thesis using that
    by (simp add: reply_cars_def cars_reply_def reply_ok_def comp_def)
qed

lemma invoke_get_refines:
  assumes "list_is m l xs"
  shows "refines_step m l xs (invoke_get msg (Some l) m) (step_get msg xs)"
proof (cases "msg_c_type msg = CT_MARCA")
  case False
  then show ?thesis
    by (intro refines_stepI[OF _ assms]) (simp_all add: invoke_get_def step_get_def)
next
  case True
  obtain ns bs where mem: "list_mem m l ns bs []" and xs: "xs = map b_car bs"
    using assms by (auto simp: list_is_def)
  let ?P = "\<lambda>b. c_marca (b_car b) = msg_result msg"
  have find: "find (\<lambda>c. c_marca c = msg_result msg) xs = map_option b_car (find ?P bs)"
    unfolding xs by (induction bs) auto
  show ?thesis
  proof (cases "find ?P bs")
    case None
    with True find list_get_by_marca_ok[OF mem] show ?thesis
      by (intro refines_stepI[OF _ assms]) (simp_all add: invoke_get_def step_get_def)
  next
    case (Some b)
    then have "b \<in> set bs" by (auto simp: find_Some_iff)
    then have "car_at m (b_data b) (b_str b) (b_car b)" using list_mem_car_at[OF mem] by blast
    then obtain r m' where conv: "data_to_protobuf (Some (b_data b)) m = Some (r, m')"
      and same: "same_blocks m m'" and r: "all_granted m \<Longrightarrow> r = Some (pdata_of (b_car b))"
      by (rule data_to_protobuf_ok) blast
    let ?msg = "msg\<lparr>msg_data := r\<rparr>"
    have run: "invoke_get msg (Some l) m = Some (0, if r = None then reply_error ?msg
        else reply_ok ?msg CT_DATA, m')"
      using True Some conv list_get_by_marca_ok[OF mem]
      by (simp add: invoke_get_def reply_ok_def Let_def)
    show ?thesis
      by (rule refines_stepI[OF run list_is_same[OF same assms] same_blocks_env[OF same]])
        (use True find Some r in \<open>auto simp: step_get_def\<close>)
  qed
qed

lemma invoke_getlist_refines:
  assumes list: "list_is m l xs" and room: "length xs < 2147483647"
  shows "refines_step m l xs (invoke_getlist msg (Some l) m) (step_getlist msg xs)"
proof -
  obtain ns bs where mem: "list_mem m l ns bs []" and wf: "mem_wf m" and xs: "map b_car bs = xs"
    using list by (auto simp: list_is_def)
  have yr: "m_avail (after_malloc k m') = m_avail m'" for k m' by (simp add: after_malloc_def)
  show ?thesis
  proof (cases "msg_result msg = -1")
    case False
    let ?cs = "of_year (msg_result msg) bs" and ?m1 = "after_malloc 1 m"
    have cs: "map b_car ?cs = filter (\<lambda>c. c_ano c = msg_result msg) xs"
      by (simp add: filter_map comp_def flip: xs)
    have same1: "same_blocks m ?m1" by (rule after_malloc_same)
    have "list_mem ?m1 l ns bs []" using mem by (simp add: list_mem_same[OF after_malloc_same])
    then obtain msg' m' where conv: "reply_cars msg (Some (terminated (map b_data ?cs))) ?m1 = Some (0, msg', m')"
      and same: "same_blocks ?m1 m'"
      and msg': "all_granted ?m1 \<Longrightarrow> msg' = cars_reply msg (map b_car ?cs)"
      using reply_cars_ok[of ?m1 l ns bs ?cs msg] by (metis filter_is_subset)
    let ?r = "if m_avail m (m_brk m) then (msg', m') else (reply_error msg, ?m1)"
    have run: "invoke_getlist msg (Some l) m = Some (0, fst ?r, snd ?r)"
      using False conv list_get_by_year_ok[OF mem, of "msg_result msg"]
      by (auto simp: invoke_getlist_def reply_cars_def)
    have same': "same_blocks m (snd ?r)" using same1 same by (auto intro: same_blocks_trans)
    have "all_granted ?m1 = all_granted m" by (simp add: all_granted_def yr)
    with False msg' cs show ?thesis
      by (intro refines_stepI[OF run list_is_same[OF same' list] same_blocks_env[OF same']])
        (auto simp: step_getlist_def)
  next
    case True
    from list_order_ok[OF mem wf] obtain m0 where
      order: "list_order_by_year (Some l) m = Some (0, m0)" and wf0: "mem_wf m0"
      and env0: "env_same m m0" and mem0: "list_mem m0 l ns (sort_key year_of bs) []" by blast
    let ?cs = "sort_key year_of bs" and ?m1 = "after_malloc 1 m0"
    have cs: "map b_car ?cs = by_year xs"
      using map_sort_key[of b_car "\<lambda>c. sint (c_ano c)" bs] xs by (simp add: comp_def)
    have list0: "list_is m0 l (by_year xs)" by (rule list_isI[OF mem0 wf0 cs])
    have same1: "same_blocks m0 ?m1" by (rule after_malloc_same)
    have "list_mem ?m1 l ns ?cs []" using mem0 by (simp add: list_mem_same[OF after_malloc_same])
    then obtain msg' m' where conv: "reply_cars msg (Some (terminated (map b_data ?cs))) ?m1 = Some (0, msg', m')"
      and same: "same_blocks ?m1 m'"
      and msg': "all_granted ?m1 \<Longrightarrow> msg' = cars_reply msg (map b_car ?cs)"
      using reply_cars_ok[of ?m1 l ns ?cs ?cs msg] by blast
    let ?r = "if m_avail m0 (m_brk m0) then (msg', m') else (reply_error msg, ?m1)"
    have "length ?cs < 2147483647" using room by (simp flip: xs)
    then have run: "invoke_getlist msg (Some l) m = Some (0, fst ?r, snd ?r)"
      using True conv order list_get_all_ok[OF mem0]
      by (auto simp: invoke_getlist_def reply_cars_def)
    have same': "same_blocks m0 (snd ?r)" using same1 same by (auto intro: same_blocks_trans)
    have "all_granted ?m1 = all_granted m"
      using all_granted_env[OF env0] by (simp add: all_granted_def yr)
    moreover have "all_granted m \<Longrightarrow> m_avail m0 (m_brk m0)"
      using all_granted_env[OF env0] by simp
    ultimately show ?thesis
      using True msg' cs env_same_trans[OF env0 same_blocks_env[OF same']]
      by (intro refines_stepI[OF run list_is_same[OF same' list0]])
        (auto simp: step_getlist_def)
  qed
qed

lemma invoke_getmodels_refines:
  assumes list: "list_is m l xs" and room: "length xs < 2147483647"
  shows "refines_step m l xs (invoke_getmodels msg (Some l) m) (step_getmodels msg xs)"
proof -
  obtain ns bs where mem: "list_mem m l ns bs []" and xs: "xs = map b_car bs"
    using list by (auto simp: list_is_def)
  have len: "length bs < 2147483647" using room xs by simp
  show ?thesis
  proof (cases "blocks_granted (Suc (length bs)) m")
    case True
    let ?m = "after_malloc (Suc (length bs)) m"
    have same: "same_blocks m ?m" by (rule after_malloc_same)
    then have "list_mem ?m l ns bs []" using mem by (simp add: list_mem_same)
    then have "list_size (Some l) ?m = Some (of_nat (length bs))" by (rule list_size_list_mem)
    then have run: "invoke_getmodels msg (Some l) m = Some (0, reply_ok (msg\<lparr>
        msg_models := Some (terminated (map c_modelo xs)), msg_n_models := length xs\<rparr>) CT_MODEL, ?m)"
      using list_get_model_list_ok[OF mem len True] len xs
      by (simp add: invoke_getmodels_def reply_ok_def to_size_t_of_nat)
    show ?thesis
      by (rule refines_stepI[OF run list_is_same[OF same list] same_blocks_env[OF same]])
        (simp_all add: step_getmodels_def)
  next
    case False
    from list_get_model_list_fail[OF mem len this] obtain m' where
      fail: "list_get_model_list (Some l) m = Some (None, m')" and same: "same_blocks m m'" by blast
    then have "list_mem m' l ns bs []" using mem by (simp add: list_mem_same)
    then have "list_size (Some l) m' = Some (of_nat (length bs))" by (rule list_size_list_mem)
    then have run: "invoke_getmodels msg (Some l) m = Some (0, reply_error (msg\<lparr>
        msg_models := None, msg_n_models := length xs\<rparr>), m')"
      using fail len xs by (simp add: invoke_getmodels_def to_size_t_of_nat)
    show ?thesis
      by (rule refines_stepI[OF run list_is_same[OF same list] same_blocks_env[OF same]])
        (use False in auto)
  qed
qed

section \<open>Deletion\<close>

lemma invoke_del_refines:
  assumes list: "list_is m l xs" and ok: "msg_ok msg"
  shows "refines_step m l xs (invoke_del msg (Some l) m) (step_del msg xs)"
proof (cases "msg_n_models msg = 1")
  case False
  then show ?thesis
    by (intro refines_stepI[OF _ list]) (simp_all add: invoke_del_def step_del_def)
next
  case True
  with ok obtain a s where a: "msg_models msg = Some a" "arr_get 0 a = Some s"
    by (auto simp: msg_ok_def split: option.splits)
  obtain ns bs where mem: "list_mem m l ns bs []" and wf: "mem_wf m" and xs: "map b_car bs = xs"
    using list by (auto simp: list_is_def)
  show ?thesis
  proof (cases s)
    case None
    with True a show ?thesis
      by (intro refines_stepI[OF _ list])
        (simp_all add: invoke_del_def step_del_def del_model_def list_remove_by_model_def reply_ok_def)
  next
    case (Some t)
    have ex: "(\<exists>b \<in> set bs. c_modelo (b_car b) = t) \<longleftrightarrow> (\<exists>c \<in> set xs. c_modelo c = t)"
      by (auto simp flip: xs)
    show ?thesis
    proof (cases "\<exists>b \<in> set bs. c_modelo (b_car b) = t")
      case hit: True
      from list_remove_some[OF mem hit] obtain m' ns' where
        run: "list_remove_by_model (Some l) (Some t) m = Some (0, m')"
        and mem': "list_mem m' l ns' (remove_first (\<lambda>b. c_modelo (b_car b) = t) bs) []"
        and env: "env_same m m'" and "mem_wf m'" using wf by blast
      then have list': "list_is m' l (remove_first (\<lambda>c. c_modelo c = t) xs)"
        by (intro list_isI[OF mem']) (simp_all add: remove_first_map comp_def flip: xs)
      have "invoke_del msg (Some l) m = Some (0, reply_ok (msg\<lparr>msg_result := 0\<rparr>) CT_RESULT, m')"
        using True a Some run by (simp add: invoke_del_def reply_ok_def)
      then show ?thesis
        by (rule refines_stepI[OF _ list' env])
          (use True a Some hit ex in \<open>auto simp: step_del_def del_model_def\<close>)
    next
      case miss: False
      have "invoke_del msg (Some l) m = Some (0, reply_ok (msg\<lparr>msg_result := 1\<rparr>) CT_RESULT, m)"
        using True a Some list_remove_none[OF mem miss] by (simp add: invoke_del_def reply_ok_def)
      then show ?thesis
        by (rule refines_stepI[OF _ list])
          (use True a Some miss ex in \<open>auto simp: step_del_def del_model_def\<close>)
    qed
  qed
qed

section \<open>The dispatch\<close>

lemma invoke_cases_refine:
  assumes list: "list_is m l xs" and room: "length xs < 2147483647" and ok: "msg_ok msg"
  shows "\<exists>r. refines_step m l xs r (skel_step (ano_atual m) msg xs) \<and>
     invoke (Some msg) (Some l) m = map_option (\<lambda>(rc, msg', m'). (rc, Some msg', m')) r"
proof -
  let ?r = "if msg_opcode msg = OP_SIZE then invoke_size msg (Some l) m
     else if msg_opcode msg = OP_ADD then invoke_add msg (Some l) m
     else if msg_opcode msg = OP_GET then invoke_get msg (Some l) m
     else if msg_opcode msg = OP_GETLISTBYTEAR then invoke_getlist msg (Some l) m
     else if msg_opcode msg = OP_GETMODELS then invoke_getmodels msg (Some l) m
     else if msg_opcode msg = OP_DEL then invoke_del msg (Some l) m
     else Some (0, reply_error msg, m)"
  have other: "refines_step m l xs (Some (0, reply_error msg, m)) (0, reply_error msg, xs)"
    by (rule refines_stepI[OF refl list]) simp_all
  have "refines_step m l xs ?r (skel_step (ano_atual m) msg xs)"
    using invoke_size_refines[OF list] invoke_add_refines[OF list room] invoke_get_refines[OF list]
      invoke_getlist_refines[OF list room] invoke_getmodels_refines[OF list room]
      invoke_del_refines[OF list ok] other
    by (simp add: skel_step_def)
  moreover have "invoke (Some msg) (Some l) m = map_option (\<lambda>(rc, msg', m'). (rc, Some msg', m')) ?r"
    unfolding invoke_def by (auto split: option.splits simp: map_option_case bind_eq_Some_conv)
  ultimately show ?thesis by blast
qed

section \<open>Runs of requests\<close>

text \<open>
  The server applies its requests one after the other under one mutex: \<open>serve_step\<close> is one
  call of \<open>invoke\<close> on the list of the process, \<open>spec_step\<close> the same on an abstract list.
\<close>

definition serve_step :: "addr \<Rightarrow> MessageT \<Rightarrow> mem \<Rightarrow> ((int \<times> MessageT option) \<times> mem) option" where
  "serve_step l msg m = do {
     (rc, msg', m') \<leftarrow> invoke (Some msg) (Some l) m;
     Some ((rc, msg'), m')
   }"

definition spec_step :: "i32 \<Rightarrow> MessageT \<Rightarrow> car list \<Rightarrow> (int \<times> MessageT option) \<times> car list" where
  "spec_step year msg xs = (let (rc, msg', xs') = skel_step year msg xs in ((rc, Some msg'), xs'))"

definition serve_rel :: "addr \<Rightarrow> i32 \<Rightarrow> mem \<Rightarrow> car list \<Rightarrow> bool" where
  "serve_rel l year m xs \<longleftrightarrow> list_is m l xs \<and> all_granted m \<and> ano_atual m = year"

definition serve_ok :: "MessageT \<Rightarrow> car list \<Rightarrow> bool" where
  "serve_ok msg xs \<longleftrightarrow> msg_ok msg \<and> length xs < 2147483647"

interpretation skel: simulation "serve_rel l year" "serve_step l" "spec_step year" serve_ok for l year
proof
  fix m xs msg
  assume "serve_rel l year m xs" "serve_ok msg xs"
  then obtain r where "refines_step m l xs r (skel_step year msg xs)"
    "invoke (Some msg) (Some l) m = map_option (\<lambda>(rc, msg', m'). (rc, Some msg', m')) r"
    "all_granted m" "ano_atual m = year"
    using invoke_cases_refine[of m l xs msg] by (auto simp: serve_rel_def serve_ok_def)
  then show "\<exists>m'. serve_step l msg m = Some (fst (spec_step year msg xs), m') \<and>
      serve_rel l year m' (snd (spec_step year msg xs))"
    using all_granted_env env_same_ano_atual
    by (auto simp: refines_step_def serve_step_def spec_step_def serve_rel_def split: prod.splits)
qed

lemma car_valid_remove_first:
  "\<forall>c \<in> set xs. P c \<Longrightarrow> \<forall>c \<in> set (remove_first Q xs). P c"
  by (induction xs) auto

lemma step_cars_valid:
  assumes "\<forall>c \<in> set xs. car_valid year c"
  shows "\<forall>c \<in> set (snd (spec_step year msg xs)). car_valid year c"
  using assms car_valid_remove_first[OF assms]
  by (auto simp: spec_step_def skel_step_def step_size_def step_add_def step_get_def step_getlist_def
      step_getmodels_def step_del_def split: option.splits)

section \<open>Properties\<close>

text \<open>C1: \<open>invoke\<close> on a list of the process never goes wrong: whatever the request and the
  allocator, it returns, the memory afterwards holds exactly one well formed list and no lost
  block, and the list is the old one or the one the abstract service prescribes.  When the
  allocator grants every request, the return value, the reply and the list are exactly those of
  the abstract service.\<close>

theorem invoke_refines_service:
  assumes "list_is m l xs" "length xs < 2147483647" "msg_ok msg"
  shows "\<exists>rc msg' m' xs'. invoke (Some msg) (Some l) m = Some (rc, Some msg', m') \<and>
    list_is m' l xs' \<and> (xs' = xs \<or> xs' = snd (snd (skel_step (ano_atual m) msg xs))) \<and>
    (all_granted m \<longrightarrow> (rc, msg', xs') = skel_step (ano_atual m) msg xs)"
  using invoke_cases_refine[OF assms] by (fastforce simp: refines_step_def)

text \<open>A request to delete a model and a request to add a car.\<close>

definition del_request :: "string \<Rightarrow> MessageT" where
  "del_request s = message_t_init\<lparr>msg_opcode := OP_DEL, msg_c_type := CT_MODEL, msg_n_models := 1,
     msg_models := Some [Some (Some s)]\<rparr>"

definition add_request :: "car \<Rightarrow> MessageT" where
  "add_request c = message_t_init\<lparr>msg_opcode := OP_ADD, msg_c_type := CT_DATA,
     msg_data := Some (pdata_of c)\<rparr>"

lemma del_request_ok [simp]: "msg_ok (del_request s)"
  by (simp add: msg_ok_def del_request_def message_t_init_def arr_get_def)

lemma add_request_ok [simp]: "msg_ok (add_request c)"
  by (simp add: msg_ok_def add_request_def message_t_init_def)

lemma two_cars_granted [simp]: "all_granted two_cars"
  by (simp add: all_granted_def two_cars_def)

lemma request_sel [simp]:
  "msg_opcode (del_request s) = OP_DEL" "msg_opcode (add_request c) = OP_ADD"
  by (simp_all add: del_request_def add_request_def)

lemma spec_del:
  "skel_step y (del_request s) xs = (0, reply_ok ((del_request s)\<lparr>msg_result :=
     (if \<exists>c \<in> set xs. c_modelo c = s then 0 else 1)\<rparr>) CT_RESULT, remove_first (\<lambda>c. c_modelo c = s) xs)"
  by (simp add: skel_step_def step_del_def del_model_def del_request_def message_t_init_def arr_get_def)

lemma spec_add:
  "car_valid y c \<Longrightarrow> skel_step y (add_request c) xs =
     (0, reply_ok ((add_request c)\<lparr>msg_result := 0\<rparr>) CT_NONE, xs @ [c])"
  by (simp add: skel_step_def step_add_def add_request_def message_t_init_def)

theorem invoke_refines_service_witness:
  "\<exists>msg' m'. invoke (Some (del_request ''Yaris'')) (Some 0) two_cars = Some (0, Some msg', m') \<and>
     msg_opcode msg' = 31 \<and> msg_result msg' = 0 \<and> list_is m' 0 [m3]"
  using invoke_refines_service[OF two_cars_is _ del_request_ok, of "''Yaris''"]
  by (auto simp: spec_del reply_ok_def)

text \<open>C8: A run of requests on the memory of a fresh or used list gives, one by one, the return
  values and replies of the abstract service and ends in its list, as long as the allocator grants
  every request and the list stays below the range of its \<open>int\<close> size.\<close>

theorem serve_run_refines:
  assumes "list_is m l xs" "all_granted m" "run_ok (spec_step (ano_atual m)) serve_ok msgs xs"
  shows "\<exists>m'. run_steps (serve_step l) msgs m = Some (fst (run_spec (spec_step (ano_atual m)) msgs xs), m') \<and>
    list_is m' l (snd (run_spec (spec_step (ano_atual m)) msgs xs))"
  using skel.sim_run[of l "ano_atual m" m xs msgs] assms by (auto simp: serve_rel_def)

theorem serve_run_refines_witness:
  "\<exists>out m'. run_steps (serve_step 0) [add_request yaris, del_request ''Yaris''] two_cars = Some (out, m') \<and>
     list_is m' 0 [m3, yaris]"
  using serve_run_refines[OF two_cars_is, of "[add_request yaris, del_request ''Yaris'']"]
  by (auto simp: spec_step_def spec_add spec_del serve_ok_def)



text \<open>After a successful add, a request by make finds the new car, provided no car of that
  make was stored before: the reply carries exactly the data that was sent.\<close>

theorem add_then_get:
  assumes "list_is m l xs" "length xs < 2147483646" "all_granted m" "car_valid (ano_atual m) c"
    and "\<forall>c' \<in> set xs. c_marca c' \<noteq> c_marca c" "msg_opcode req = OP_GET" "msg_c_type req = CT_MARCA"
    and "msg_result req = c_marca c" "msg_n_models req = 0"
  shows "\<exists>out m' reply. run_steps (serve_step l) [add_request c, req] m = Some ([out, (0, Some reply)], m') \<and>
    msg_opcode reply = OP_GET + 1 \<and> msg_data reply = Some (pdata_of c)"
proof -
  have "find (\<lambda>c'. c_marca c' = c_marca c) (xs @ [c]) = Some c"
    using assms(5) by (induction xs) auto
  then have get: "skel_step (ano_atual m) req (xs @ [c]) =
      (0, reply_ok (req\<lparr>msg_data := Some (pdata_of c)\<rparr>) CT_DATA, xs @ [c])"
    using assms(6-8) by (simp add: skel_step_def step_get_def)
  then have "run_ok (spec_step (ano_atual m)) serve_ok [add_request c, req] xs"
    using assms(2,4,9) add_request_ok[of c]
    by (simp add: spec_step_def spec_add serve_ok_def msg_ok_def[of req])
  from skel.sim_run[OF _ this, of l m] get assms(1,3,4,6) show ?thesis
    by (auto simp: serve_rel_def spec_step_def spec_add reply_ok_def)
qed

theorem add_then_get_witness:
  "\<exists>out m' reply. run_steps (serve_step 0) [add_request (m3\<lparr>c_marca := 4\<rparr>),
       message_t_init\<lparr>msg_opcode := OP_GET, msg_c_type := CT_MARCA, msg_result := 4\<rparr>] two_cars =
     Some ([out, (0, Some reply)], m') \<and>
     msg_opcode reply = 21 \<and> msg_data reply = Some (pdata_of (m3\<lparr>c_marca := 4\<rparr>))"
  using add_then_get[OF two_cars_is, of "m3\<lparr>c_marca := 4\<rparr>"
      "message_t_init\<lparr>msg_opcode := OP_GET, msg_c_type := CT_MARCA, msg_result := 4\<rparr>"]
  by (simp add: car_valid_def float_lt_zero_def m3_def message_t_init_def)

text \<open>The reply protocol of \<open>invoke\<close>: on a list of the process the reply's opcode is the
  request's plus one, or \<open>OP_ERROR\<close> with \<open>CT_NONE\<close> and result -1; the one exception is an
  \<open>OP_GET\<close> whose content type is not \<open>CT_MARCA\<close>, which is answered with the request itself.\<close>

theorem invoke_reply_protocol:
  assumes "list_is m l xs" "length xs < 2147483647" "msg_ok msg"
    and "invoke (Some msg) (Some l) m = Some (rc, Some msg', m')" "all_granted m"
  shows "msg_opcode msg' = msg_opcode msg + 1 \<or>
    msg_opcode msg' = OP_ERROR \<and> msg_c_type msg' = CT_NONE \<and> msg_result msg' = -1 \<or>
    msg_opcode msg = OP_GET \<and> msg_c_type msg \<noteq> CT_MARCA \<and> msg' = msg \<and> rc = 0"
proof -
  obtain r where "refines_step m l xs r (skel_step (ano_atual m) msg xs)"
    "invoke (Some msg) (Some l) m = map_option (\<lambda>(rc, msg', m'). (rc, Some msg', m')) r"
    using invoke_cases_refine[OF assms(1-3)] by blast
  with assms(4,5) obtain xs' where "(rc, msg', xs') = skel_step (ano_atual m) msg xs"
    by (auto simp: refines_step_def)
  then show ?thesis
    by (auto simp: skel_step_def step_size_def step_add_def step_get_def step_getlist_def
        step_getmodels_def step_del_def reply_ok_def cars_reply_def reply_error_def
        split: if_splits option.splits)
qed

theorem invoke_reply_protocol_witness:
  "\<exists>msg' m'. invoke (Some (del_request ''Yaris'')) (Some 0) two_cars = Some (0, Some msg', m') \<and>
     msg_opcode msg' \<noteq> 30"
proof -
  have size: "length [yaris, m3] < 2147483647" by simp
  obtain rc msg' m' where
    run: "invoke (Some (del_request ''Yaris'')) (Some 0) two_cars = Some (rc, Some msg', m')" and "rc = 0"
    using invoke_cases_refine[OF two_cars_is size del_request_ok, of "''Yaris''"]
    by (auto simp: refines_step_def spec_del)
  with invoke_reply_protocol[OF two_cars_is size del_request_ok run two_cars_granted]
  \<open>rc = 0\<close> show ?thesis by auto
qed

text \<open>When an allocation of \<open>OP_GETMODELS\<close> is refused, the reply is an error but keeps
  \<open>n_models\<close> equal to the size of the list beside a NULL \<open>models\<close>: the message that the
  server packs next announces strings that do not exist.\<close>

theorem getmodels_refused:
  assumes "list_is m l xs" "length xs < 2147483647" "i \<le> length xs" "\<not> m_avail m (m_brk m + i)"
    and "msg_opcode msg = OP_GETMODELS"
  shows "\<exists>m'. invoke (Some msg) (Some l) m =
    Some (0, Some (reply_error (msg\<lparr>msg_models := None, msg_n_models := length xs\<rparr>)), m')"
proof -
  obtain ns bs where mem: "list_mem m l ns bs []" and xs: "xs = map b_car bs"
    using assms(1) by (auto simp: list_is_def)
  have len: "length bs < 2147483647" using assms(2) xs by simp
  have "\<not> blocks_granted (Suc (length bs)) m"
    using assms(3,4) xs by (auto simp: blocks_granted_def less_Suc_eq_le)
  from list_get_model_list_fail[OF mem len this] obtain m' where
    fail: "list_get_model_list (Some l) m = Some (None, m')" and same: "same_blocks m m'" by blast
  then have "list_size (Some l) m' = Some (of_nat (length bs))"
    using mem by (intro list_size_list_mem) (simp add: list_mem_same)
  with fail len xs assms(5) show ?thesis
    by (simp add: invoke_def invoke_getmodels_def to_size_t_of_nat)
qed

theorem getmodels_refused_witness:
  "\<exists>msg' m'. invoke (Some (message_t_init\<lparr>msg_opcode := OP_GETMODELS\<rparr>)) (Some 0)
       (two_cars\<lparr>m_avail := (\<lambda>n. n < 8)\<rparr>) = Some (0, Some msg', m') \<and>
     msg_n_models msg' = 2 \<and> msg_models msg' = None"
proof -
  let ?m = "two_cars\<lparr>m_avail := (\<lambda>n. n < 8)\<rparr>"
  have "list_mem ?m 0 [1, 4] [(2, 3, yaris), (5, 6, m3)] []" "mem_wf ?m"
    using two_cars_list two_cars_wf by (simp_all add: list_mem_def blocks_def car_at_def mem_wf_def)
  then have "list_is ?m 0 [yaris, m3]" by (intro list_isI) auto
  from getmodels_refused[OF this, of 1 "message_t_init\<lparr>msg_opcode := OP_GETMODELS\<rparr>"]
  show ?thesis by (auto simp: reply_error_def)
qed

end
