(* ===== verification/LogQueue.thy ===== *)
theory LogQueue
  imports ServerLog ListRep
begin

text \<open>
  The linked queue of the log implements the contract of \<open>Fifo\<close>, and what that gives: no line
  is lost, duplicated or reordered, and \<open>close_server_log\<close> writes every queued line and frees
  every node.
\<close>

section \<open>The nodes of the queue\<close>

fun log_seg :: "(addr \<rightharpoonup> log_node) \<Rightarrow> addr list \<Rightarrow> string option list \<Rightarrow> ptr \<Rightarrow> bool" where
  "log_seg N [] [] p = True"
| "log_seg N (n # ns) (l # ls) p =
     (N n = Some \<lparr>log_str = l, log_next = seg_ptr ns p\<rparr> \<and> log_seg N ns ls p)"
| "log_seg N _ _ p = False"

lemma log_seg_length: "log_seg N ns ls p \<Longrightarrow> length ns = length ls"
  by (induction N ns ls p rule: log_seg.induct) auto

lemma log_seg_Cons:
  assumes "log_seg N ns (l # ls) p"
  obtains n ns' where "ns = n # ns'" "N n = Some \<lparr>log_str = l, log_next = seg_ptr ns' p\<rparr>"
    "log_seg N ns' ls p"
  using assms by (cases ns) auto

lemma log_seg_upd [simp]: "a \<notin> set ns \<Longrightarrow> log_seg (N(a := v)) ns ls p = log_seg N ns ls p"
  by (induction N ns ls p rule: log_seg.induct) auto

lemma log_seg_snoc:
  assumes "log_seg N ns ls None" "distinct (ns @ [a])"
  shows "log_seg (if ns = [] then N(a \<mapsto> \<lparr>log_str = l, log_next = None\<rparr>)
      else N(a \<mapsto> \<lparr>log_str = l, log_next = None\<rparr>, last ns \<mapsto> (the (N (last ns)))\<lparr>log_next := Some a\<rparr>))
    (ns @ [a]) (ls @ [l]) None"
  using assms
proof (induction N ns ls "None :: ptr" rule: log_seg.induct)
  case (2 N n ns l' ls)
  show ?case
  proof (cases ns)
    case Nil
    with 2 show ?thesis by (cases ls) auto
  next
    case (Cons n' ns')
    then have "last ns \<noteq> n" "last ns \<in> set ns" using "2.prems"(2) by auto
    with 2 Cons show ?thesis by (auto simp: fun_upd_twist)
  qed
qed auto

text \<open>The queue holds exactly the lines \<open>ls\<close>, and no other node is allocated.\<close>

definition log_holds :: "server_log \<Rightarrow> string option list \<Rightarrow> bool" where
  "log_holds q ls \<longleftrightarrow> (\<exists>ns. log_seg (log_nodes q) ns ls None \<and> distinct ns \<and> dom (log_nodes q) = set ns \<and>
     log_head q = seg_ptr ns None \<and> log_tail q = (if ns = [] then None else Some (last ns)) \<and>
     (\<forall>a \<in> set ns. a < log_brk q))"

definition log_room :: "server_log \<Rightarrow> bool" where
  "log_room q \<longleftrightarrow> (\<forall>a. log_avail q a)"

lemma log_seg_last:
  "log_seg N ns ls p \<Longrightarrow> ns \<noteq> [] \<Longrightarrow> \<exists>n. N (last ns) = Some n"
  by (induction N ns ls p rule: log_seg.induct) auto

lemma log_enqueue_holds:
  assumes "log_holds q ls" "log_avail q (log_brk q)"
  obtains q' where "log_enqueue l q = Some q'" "log_holds q' (ls @ [l])" "log_avail q' = log_avail q"
    "filed q' = filed q" "file_room q' = file_room q" "writer_running q' = writer_running q"
proof -
  obtain ns where seg: "log_seg (log_nodes q) ns ls None" and dist: "distinct ns"
    and dom: "dom (log_nodes q) = set ns" and head: "log_head q = seg_ptr ns None"
    and tail: "log_tail q = (if ns = [] then None else Some (last ns))"
    and brk: "\<forall>a \<in> set ns. a < log_brk q"
    using assms(1) by (auto simp: log_holds_def)
  let ?a = "log_brk q"
  let ?N = "if ns = [] then (log_nodes q)(?a \<mapsto> \<lparr>log_str = l, log_next = None\<rparr>)
      else (log_nodes q)(?a \<mapsto> \<lparr>log_str = l, log_next = None\<rparr>,
                        last ns \<mapsto> (the (log_nodes q (last ns)))\<lparr>log_next := Some ?a\<rparr>)"
  let ?q = "q\<lparr>log_nodes := ?N, log_head := seg_ptr (ns @ [?a]) None, log_tail := Some ?a, log_brk := Suc ?a\<rparr>"
  have "last ns \<noteq> ?a" if "ns \<noteq> []" using brk last_in_set[OF that] by (metis less_irrefl)
  then have "log_enqueue l q = Some ?q"
    using assms(2) head tail log_seg_last[OF seg] by (cases ns) (auto simp: log_enqueue_def Let_def)
  moreover have "log_seg ?N (ns @ [?a]) (ls @ [l]) None"
    using dist brk by (intro log_seg_snoc[OF seg]) auto
  then have "log_holds ?q (ls @ [l])"
    unfolding log_holds_def using dist brk dom
    by (intro exI[of _ "ns @ [?a]"]) auto
  ultimately show ?thesis by (intro that[of ?q]) simp_all
qed

lemma log_dequeue_holds:
  assumes "log_holds q (l # ls)"
  obtains q' where "log_dequeue q = Some (Some l, q')" "log_holds q' ls" "log_avail q' = log_avail q"
    "filed q' = filed q" "file_room q' = file_room q" "writer_running q' = writer_running q"
proof -
  obtain as where seg: "log_seg (log_nodes q) as (l # ls) None" and as: "distinct as"
    "dom (log_nodes q) = set as" "log_head q = seg_ptr as None"
    "log_tail q = (if as = [] then None else Some (last as))" "\<forall>a \<in> set as. a < log_brk q"
    using assms by (auto simp: log_holds_def)
  from seg obtain n ns where ns: "as = n # ns"
    and n: "log_nodes q n = Some \<lparr>log_str = l, log_next = seg_ptr ns None\<rparr>"
    and rest: "log_seg (log_nodes q) ns ls None" by (rule log_seg_Cons)
  let ?q = "q\<lparr>log_nodes := (log_nodes q)(n := None), log_head := seg_ptr ns None,
      log_tail := (if ns = [] then None else log_tail q)\<rparr>"
  have "log_dequeue q = Some (Some l, ?q)"
    using as n ns by (cases q) (simp add: log_dequeue_def Let_def)
  moreover have "log_holds ?q ls"
    unfolding log_holds_def using as rest ns by (intro exI[of _ ns]) auto
  ultimately show ?thesis by (intro that[of ?q]) simp_all
qed

lemma log_dequeue_empty: "log_holds q [] \<Longrightarrow> log_dequeue q = Some (None, q) \<and> log_head q = None"
  by (auto simp: log_holds_def log_dequeue_def dest!: log_seg_length)

lemma log_holds_Nil: "log_holds q [] \<Longrightarrow> log_nodes q = Map.empty \<and> log_head q = None"
  by (auto simp: log_holds_def dest!: log_seg_length)

lemma log_holds_nonempty: "log_holds q (l # ls) \<Longrightarrow> log_head q \<noteq> None"
  by (auto simp: log_holds_def dest!: log_seg_length)

interpretation log: fifo_queue log_holds log_room log_enqueue log_dequeue
proof
  fix q ls l
  assume "log_holds q ls"
  show "\<exists>q'. log_enqueue l q = Some q' \<and>
      (log_holds q' (ls @ [l]) \<or> \<not> log_room q \<and> log_holds q' ls) \<and> (log_room q \<longrightarrow> log_room q')"
  proof (cases "log_avail q (log_brk q)")
    case True
    from log_enqueue_holds[OF \<open>log_holds q ls\<close> True, of l] obtain q' where
      "log_enqueue l q = Some q'" "log_holds q' (ls @ [l])" "log_avail q' = log_avail q" by blast
    then show ?thesis by (simp add: log_room_def)
  next
    case False
    have "log_holds (q\<lparr>log_brk := Suc (log_brk q)\<rparr>) ls"
      using \<open>log_holds q ls\<close> by (fastforce simp: log_holds_def less_Suc_eq)
    with False show ?thesis by (auto simp: log_enqueue_def log_room_def Let_def)
  qed
next
  fix q ls
  assume holds: "log_holds q ls"
  show "\<exists>q'. log_dequeue q = Some (case ls of [] \<Rightarrow> None | x # _ \<Rightarrow> Some x, q') \<and>
      log_holds q' (tl ls) \<and> (log_room q \<longrightarrow> log_room q')"
  proof (cases ls)
    case Nil
    with holds log_dequeue_empty[of q] show ?thesis by simp
  next
    case (Cons l ls')
    from log_dequeue_holds[OF holds[unfolded Cons]] obtain q' where
      "log_dequeue q = Some (Some l, q')" "log_holds q' ls'" "log_avail q' = log_avail q" by blast
    with Cons show ?thesis by (simp add: log_room_def)
  qed
qed

section \<open>The writer\<close>

text \<open>The file accepts what is written: no call fails but interrupted ones.\<close>

definition file_ok :: "server_log \<Rightarrow> bool" where
  "file_ok q \<longleftrightarrow> list_all out_good (file_room q)"

lemma write_line_ok:
  assumes "list_all out_good es" "write_line p es fl = Some (es', fl')"
  shows "fl' = fl @ p \<and> list_all out_good es'"
  using assms
proof (induction es arbitrary: p fl)
  case Nil
  then show ?case by (subst (asm) write_line.simps) (auto split: if_splits)
next
  case (Cons ev es)
  show ?case
  proof (cases ev)
    case (Room k)
    with Cons.prems show ?thesis
      by (subst (asm) write_line.simps)
        (auto split: if_splits dest!: Cons.IH[rotated])
  next
    case (SendFail e)
    with Cons.prems show ?thesis
      by (subst (asm) write_line.simps) (auto split: if_splits dest!: Cons.IH[rotated])
  qed
qed

lemma write_line_room:
  assumes "list_all out_good es" "length p \<le> out_room es"
  shows "\<exists>es'. write_line p es fl = Some (es', fl @ p) \<and> list_all out_good es' \<and>
    out_room es' = out_room es - length p"
  using assms
proof (induction es arbitrary: p fl)
  case Nil
  then show ?case by (subst write_line.simps) simp
next
  case (Cons ev es)
  show ?case
  proof (cases "p = []")
    case True
    with Cons.prems show ?thesis by (subst write_line.simps) simp
  next
    case p: False
    show ?thesis
    proof (cases ev)
      case (Room k)
      show ?thesis
      proof (cases "k \<le> length p")
        case True
        have "write_line p (ev # es) fl = write_line (drop k p) es (fl @ take k p)"
          using p Room True by (subst write_line.simps) simp
        moreover have "\<exists>es'. write_line (drop k p) es (fl @ take k p) = Some (es', (fl @ take k p) @ drop k p) \<and>
            list_all out_good es' \<and> out_room es' = out_room es - length (drop k p)"
          using Cons.prems Room True by (intro Cons.IH) simp_all
        ultimately show ?thesis using Room True by auto
      next
        case False
        with p Room Cons.prems show ?thesis by (subst write_line.simps) simp
      qed
    next
      case (SendFail e)
      with p Cons.prems Cons.IH[of p fl] show ?thesis by (subst write_line.simps) simp
    qed
  qed
qed

lemma writer_turn_line:
  assumes "log_holds q (Some s # ls)" "writer_turn q = Some (Wrote q')" "file_ok q"
  shows "log_holds q' ls \<and> filed q' = filed q @ s \<and> file_ok q'"
proof -
  obtain q1 where "log_dequeue q = Some (Some (Some s), q1)" and holds: "log_holds q1 ls"
    and same: "filed q1 = filed q" "file_room q1 = file_room q"
    using log_dequeue_holds[OF assms(1)] by metis
  with assms(2) log_holds_nonempty[OF assms(1)] obtain evs fl where
    "write_line s (file_room q) (filed q) = Some (evs, fl)"
    and q': "q' = q1\<lparr>file_room := evs, filed := fl\<rparr>"
    by (auto simp: writer_turn_def bind_eq_Some_conv)
  with write_line_ok assms(3) have "fl = filed q @ s \<and> list_all out_good evs"
    by (auto simp: file_ok_def)
  with holds q' show ?thesis by (simp add: file_ok_def log_holds_def)
qed

lemma handle_writing_drains:
  assumes "log_holds q (map Some ss)" "file_ok q" "length (concat ss) \<le> out_room (file_room q)"
    and "\<not> writer_running q"
  shows "\<exists>q'. handle_writing q = Some q' \<and> log_holds q' [] \<and> filed q' = filed q @ concat ss"
  using assms
proof (induction ss arbitrary: q)
  case Nil
  then have "log_head q = None" using log_dequeue_empty by simp
  with Nil show ?case by (subst handle_writing.simps) (simp add: writer_turn_def)
next
  case (Cons s ss)
  from Cons.prems(1) obtain q1 where deq: "log_dequeue q = Some (Some (Some s), q1)" "log_holds q1 (map Some ss)"
    "filed q1 = filed q" "file_room q1 = file_room q" "writer_running q1 = writer_running q"
    using log_dequeue_holds by (metis list.simps(9))
  obtain es' where es: "write_line s (file_room q) (filed q) = Some (es', filed q @ s)"
    "list_all out_good es'" "out_room es' = out_room (file_room q) - length s"
    using write_line_room[of "file_room q" s "filed q"] Cons.prems(2,3) by (auto simp: file_ok_def)
  let ?q = "q1\<lparr>file_room := es', filed := filed q @ s\<rparr>"
  have "writer_turn q = Some (Wrote ?q)"
    using deq es log_holds_nonempty Cons.prems(1) by (auto simp: writer_turn_def)
  then have "handle_writing q = handle_writing ?q" by (subst handle_writing.simps) simp
  moreover have "\<exists>q'. handle_writing ?q = Some q' \<and> log_holds q' [] \<and> filed q' = filed ?q @ concat ss"
    using deq es Cons.prems by (intro Cons.IH) (simp_all add: file_ok_def log_holds_def)
  ultimately show ?case by auto
qed

section \<open>Producers and the writer, interleaved\<close>

text \<open>
  One step is one critical section: a thread adds a line (which is dropped when its node is
  refused) or the writer takes and writes the first one.  The second component collects the lines
  that were accepted.
\<close>

inductive log_step :: "server_log \<times> string list \<Rightarrow> server_log \<times> string list \<Rightarrow> bool" where
  accept: "log_avail q (log_brk q) \<Longrightarrow> log_enqueue (Some s) q = Some q' \<Longrightarrow> log_step (q, h) (q', h @ [s])"
| refuse: "\<not> log_avail q (log_brk q) \<Longrightarrow> log_enqueue (Some s) q = Some q' \<Longrightarrow> log_step (q, h) (q', h)"
| written: "writer_turn q = Some (Wrote q') \<Longrightarrow> log_step (q, h) (q', h)"

inductive_cases log_stepE: "log_step (q, h) st"

definition log_inv :: "string \<Rightarrow> server_log \<times> string list \<Rightarrow> bool" where
  "log_inv fl st \<longleftrightarrow> (\<exists>before pending. snd st = before @ pending \<and> log_holds (fst st) (map Some pending) \<and>
     filed (fst st) = fl @ concat before \<and> file_ok (fst st))"

lemma log_step_inv:
  assumes "log_step st st'" "log_inv fl st"
  shows "log_inv fl st'"
  using assms
proof (induction rule: log_step.induct)
  case (accept q s q' h)
  then obtain before pending where inv: "h = before @ pending" "log_holds q (map Some pending)"
    "filed q = fl @ concat before" "file_ok q" by (auto simp: log_inv_def)
  from log_enqueue_holds[OF inv(2) accept(1), of "Some s"] accept(2)
  have "log_holds q' (map Some (pending @ [s]))" "filed q' = filed q" "file_room q' = file_room q"
    by auto
  with inv show ?case
    unfolding log_inv_def file_ok_def by (intro exI[of _ before] exI[of _ "pending @ [s]"]) simp
next
  case (refuse q s q' h)
  then have "q' = q\<lparr>log_brk := Suc (log_brk q)\<rparr>" by (simp add: log_enqueue_def Let_def)
  with refuse show ?case
    by (fastforce simp: log_inv_def log_holds_def file_ok_def less_Suc_eq)
next
  case (written q q' h)
  then obtain before pending where inv: "h = before @ pending" "log_holds q (map Some pending)"
    "filed q = fl @ concat before" "file_ok q" by (auto simp: log_inv_def)
  show ?case
  proof (cases pending)
    case Nil
    with inv(2) log_dequeue_empty[of q] have "log_head q = None" by simp
    with written(1) show ?thesis by (simp add: writer_turn_def split: if_splits)
  next
    case (Cons s rest)
    with writer_turn_line[OF _ written(1) inv(4), of s "map Some rest"] inv(2)
    have "log_holds q' (map Some rest)" "filed q' = filed q @ s" "file_ok q'" by auto
    with inv Cons show ?thesis
      unfolding log_inv_def by (intro exI[of _ "before @ [s]"] exI[of _ rest]) simp
  qed
qed

section \<open>When a line can be built\<close>

lemma write_in_server_log_None:
  assumes "log_holds q ls"
  shows "write_in_server_log (Some ts) peer etype msg q = None \<longleftrightarrow> final_line ts peer etype msg = None"
proof -
  have "log_holds (q\<lparr>log_brk := Suc (log_brk q)\<rparr>) ls"
    using assms by (fastforce simp: log_holds_def less_Suc_eq)
  then have "log_enqueue l q \<noteq> None" "log_enqueue l (q\<lparr>log_brk := Suc (log_brk q)\<rparr>) \<noteq> None" for l
    using log.enq_law assms by (metis option.distinct(1))+
  then show ?thesis
    by (cases "final_line ts peer etype msg") (auto simp: write_in_server_log_def Let_def)
qed

lemma final_line_None:
  "final_line ts peer etype (Some msg) = None \<longleftrightarrow>
     msg_opcode msg = OP_DEL \<and> Option.bind (msg_models msg) (arr_get 0) = None"
  by (cases "msg_models msg") (auto simp: final_line_def Let_def bind_eq_None_conv)

section \<open>Closing\<close>

lemma close_server_log_ok:
  assumes "log_holds q (map Some ss)" "file_ok q" "length (concat ss) \<le> out_room (file_room q)"
    and "writer_running q"
  shows "\<exists>q'. close_server_log q = Some q' \<and> filed q' = filed q @ concat ss \<and> log_nodes q' = Map.empty \<and>
    log_head q' = None \<and> log_tail q' = None"
proof -
  let ?q = "q\<lparr>writer_running := False\<rparr>"
  have "log_holds ?q (map Some ss)" "file_ok ?q"
    using assms by (simp_all add: log_holds_def file_ok_def)
  from handle_writing_drains[OF this] assms(3) obtain q1 where
    "handle_writing ?q = Some q1" and q1: "log_holds q1 []" "filed q1 = filed q @ concat ss" by auto
  moreover have "log_nodes q1 = Map.empty" "log_head q1 = None"
    using log_holds_Nil[OF q1(1)] by simp_all
  moreover have "free_log_nodes None q1 = Some q1" by (subst free_log_nodes.simps) simp
  ultimately show ?thesis using assms(4) by (simp add: close_server_log_def)
qed

section \<open>Properties\<close>

definition demo_log :: server_log where
  "demo_log = fresh_log (\<lambda>_. True) [Room 3, SendFail EINTR, Room 100] True"

lemma demo_log_holds [simp]: "log_holds demo_log []" "file_ok demo_log" "log_room demo_log"
  by (auto simp: demo_log_def fresh_log_def log_holds_def file_ok_def log_room_def intro!: exI[of _ "[]"])

lemma demo_log_sel [simp]: "filed demo_log = []" "file_room demo_log = [Room 3, SendFail EINTR, Room 100]"
  by (simp_all add: demo_log_def fresh_log_def)



text \<open>The linked queue of the log is a first-in first-out queue for every sequence of its
  operations.  While the allocator grants the nodes, what was taken out and what is left are exactly
  what was put in, in order; when it refuses some, they are a subsequence of it.\<close>

theorem log_queue_fifo:
  assumes "log_holds q ls"
  shows "\<exists>out q' ys. queue_run log_enqueue log_dequeue ops q = Some (out, q') \<and> log_holds q' ys \<and>
    subseq (out @ ys) (ls @ enqueued ops) \<and> (log_room q \<longrightarrow> out @ ys = ls @ enqueued ops)"
  using log.run_subseq[OF assms, of ops] log.run_fifo[OF assms, of ops]
  by (cases "log_room q") (metis subseq_order.order_refl, blast)

theorem log_queue_fifo_witness:
  "\<exists>out q' ys. queue_run log_enqueue log_dequeue [Enq (Some ''a''), Enq (Some ''b''), Deq] demo_log = Some (out, q') \<and>
     out @ ys = [Some ''a'', Some ''b''] \<and> log_holds q' ys"
  using log_queue_fifo[OF demo_log_holds(1), of "[Enq (Some ''a''), Enq (Some ''b''), Deq]"] by fastforce

text \<open>C32: \<open>close_server_log\<close> ends, writes every line that is still queued to the file, in order
  and completely although \<open>write\<close> may be partial or interrupted, and frees every node.\<close>

theorem close_log_flushes:
  assumes "log_holds q (map Some ss)" "file_ok q" "length (concat ss) \<le> out_room (file_room q)"
    and "writer_running q"
  shows "\<exists>q'. close_server_log q = Some q' \<and> filed q' = filed q @ concat ss \<and> log_nodes q' = Map.empty \<and>
    log_head q' = None \<and> log_tail q' = None"
  by (rule close_server_log_ok[OF assms])

theorem close_log_flushes_witness:
  "\<exists>q q'. log_enqueue (Some ''abcdef'') demo_log = Some q \<and> close_server_log q = Some q' \<and> filed q' = ''abcdef''"
proof -
  have avail: "log_avail demo_log (log_brk demo_log)" by (simp add: demo_log_def fresh_log_def)
  obtain q where enq: "log_enqueue (Some ''abcdef'') demo_log = Some q"
    "log_holds q ([] @ [Some ''abcdef''])" "filed q = filed demo_log" "file_room q = file_room demo_log"
    "writer_running q = writer_running demo_log"
    by (rule log_enqueue_holds[OF demo_log_holds(1) avail]) blast
  then have q: "log_holds q (map Some [''abcdef''])" "filed q = []"
    "file_room q = [Room 3, SendFail EINTR, Room 100]"
    by simp_all
  have "file_ok q" "length (concat [''abcdef'']) \<le> out_room (file_room q)"
    by (simp_all add: file_ok_def q(3))
  moreover have "writer_running q" using enq(5) by (simp add: demo_log_def fresh_log_def)
  ultimately have "\<exists>q'. close_server_log q = Some q' \<and> filed q' = filed q @ concat [''abcdef'']"
    using close_log_flushes[OF q(1)] by blast
  with q(2) obtain q' where
    "close_server_log q = Some q'" "filed q' = ''abcdef''" by auto
  with enq(1) show ?thesis by blast
qed

text \<open>\<open>write_in_server_log\<close> of a request is defined for every message but one kind: an
  \<open>OP_DEL\<close> whose \<open>models\<close> array is NULL (no model in the request), where it dereferences NULL.
  This request reaches the log before \<open>invoke\<close> can reject it.\<close>

theorem log_request_undefined_iff:
  assumes "log_holds q ls"
  shows "write_in_server_log (Some ts) peer REQUEST (Some msg) q = None \<longleftrightarrow>
    msg_opcode msg = OP_DEL \<and> (case msg_models msg of None \<Rightarrow> True | Some a \<Rightarrow> arr_get 0 a = None)"
  unfolding write_in_server_log_None[OF assms] final_line_None
  by (auto split: option.splits)

theorem log_request_undefined_iff_witness:
  "write_in_server_log (Some 1700000000) None REQUEST
     (Some (message_t_init\<lparr>msg_opcode := OP_DEL, msg_c_type := CT_MODEL\<rparr>)) demo_log = None"
  using log_request_undefined_iff[OF demo_log_holds(1)] by (simp add: message_t_init_def)

end
