(* ===== verification/Session.thy ===== *)
theory Session
  imports NetServer SkelRefine LogQueue
begin

text \<open>
  What a client sees of a server without successor: the bytes of its requests, in any chunks, are
  answered with the bytes of the replies of the abstract service, the list of the process follows
  the abstract list, and the log gets one line per request.
\<close>

section \<open>One request on a server without successor\<close>

definition tail_spec :: "i32 \<Rightarrow> MessageT \<Rightarrow> car list \<Rightarrow> MessageT \<times> car list" where
  "tail_spec year msg xs = (let (rc, msg', xs') = skel_step year msg xs in (msg', xs'))"

definition tail_rel :: "addr \<Rightarrow> i32 \<Rightarrow> server \<Rightarrow> car list \<Rightarrow> bool" where
  "tail_rel l year sv xs \<longleftrightarrow> serve_rel l year (sv_mem sv) xs \<and> sv_list sv = Some l \<and>
     rl_next_server (sv_chain sv) = None"

lemma serve_rel_same:
  "serve_rel l year m xs \<Longrightarrow> same_blocks m m' \<Longrightarrow> serve_rel l year m' xs"
  using all_granted_env[OF same_blocks_env, of m m'] by (auto simp: serve_rel_def list_is_same ano_atual_same)

lemma forward_tail:
  "rl_next_server (sv_chain sv) = None \<Longrightarrow> forward_request cd msg sv = Some (-2, sv)"
  by (simp add: forward_request_def zoo_forward_to_successor_def)

text \<open>Without a successor a write is applied like a read.\<close>

lemma handle_tail:
  "rl_next_server (sv_chain sv) = None \<Longrightarrow> handle_request cd msg sv = apply_local msg sv"
  by (simp add: handle_request_def handle_with_def forward_tail)

lemma apply_local_ok:
  assumes "serve_rel l year (sv_mem sv) xs" "sv_list sv = Some l" "serve_ok msg xs"
  shows "\<exists>m'. apply_local msg sv = Some (fst (tail_spec year msg xs), sv\<lparr>sv_mem := m'\<rparr>) \<and>
    serve_rel l year m' (snd (tail_spec year msg xs))"
proof -
  obtain rc msg' xs' where step: "skel_step year msg xs = (rc, msg', xs')"
    by (cases "skel_step year msg xs")
  with skel.sim_step[OF assms(1,3)] obtain m' where
    "serve_step l msg (sv_mem sv) = Some ((rc, Some msg'), m')" "serve_rel l year m' xs'"
    by (auto simp: spec_step_def)
  with assms(2) step show ?thesis
    by (auto simp: apply_local_def serve_step_def tail_spec_def bind_eq_Some_conv)
qed

interpretation tail: simulation "tail_rel l year" "handle_request cd" "tail_spec year" serve_ok for l year cd
proof
  fix sv xs msg
  assume rel: "tail_rel l year sv xs" and "serve_ok msg xs"
  then show "\<exists>sv'. handle_request cd msg sv = Some (fst (tail_spec year msg xs), sv') \<and>
      tail_rel l year sv' (snd (tail_spec year msg xs))"
    using apply_local_ok[of l year sv xs msg] by (auto simp: tail_rel_def handle_tail)
qed

section \<open>One turn of the client thread\<close>

text \<open>A request that can be logged: not a delete without a models array.\<close>

definition loggable :: "MessageT \<Rightarrow> bool" where
  "loggable msg \<longleftrightarrow> (msg_opcode msg = OP_DEL \<longrightarrow> Option.bind (msg_models msg) (arr_get 0) \<noteq> None)"

definition log_line :: "server \<Rightarrow> (string \<times> nat) option \<Rightarrow> MessageT \<Rightarrow> string option list" where
  "log_line sv peer msg = (case sv_clock sv (sv_ticks sv) of None \<Rightarrow> []
     | Some ts \<Rightarrow> [the (final_line ts peer REQUEST (Some msg))])"

lemma log_request_ok:
  assumes "log_holds (sv_log sv) ls" "log_room (sv_log sv)" "loggable msg"
  obtains lg where "log_event peer REQUEST (Some msg) sv = Some (sv\<lparr>sv_log := lg, sv_ticks := Suc (sv_ticks sv)\<rparr>)"
    "log_holds lg (ls @ log_line sv peer msg)" "log_room lg"
proof (cases "sv_clock sv (sv_ticks sv)")
  case None
  with assms that[of "sv_log sv"] show ?thesis
    by (simp add: log_event_def write_in_server_log_def log_line_def)
next
  case (Some ts)
  obtain line where line: "final_line ts peer REQUEST (Some msg) = Some line"
    using final_line_None[of ts peer REQUEST msg] assms(3) by (auto simp: loggable_def)
  define q where "q = (if line = None then sv_log sv else (sv_log sv)\<lparr>log_brk := Suc (log_brk (sv_log sv))\<rparr>)"
  have "log_holds q ls" "log_room q"
    using assms(1,2) by (fastforce simp: q_def log_holds_def log_room_def less_Suc_eq)+
  then obtain lg where lg: "log_enqueue line q = Some lg" "log_holds lg (ls @ [line])" "log_room lg"
    using log.enq_law[of q ls line] by auto
  have "write_in_server_log (Some ts) peer REQUEST (Some msg) (sv_log sv) = log_enqueue line q"
    using line assms(2) by (auto simp: write_in_server_log_def q_def log_room_def Let_def)
  with lg line Some that[of lg] show ?thesis by (simp add: log_event_def log_line_def)
qed

text \<open>What the thread knows between two turns.\<close>

definition session_inv :: "addr \<Rightarrow> i32 \<Rightarrow> server \<Rightarrow> car list \<Rightarrow> string option list \<Rightarrow> bool" where
  "session_inv l year sv xs ls \<longleftrightarrow> tail_rel l year sv xs \<and> log_holds (sv_log sv) ls \<and> log_room (sv_log sv)"

text \<open>
  A turn is the receipt of the request, the log entry, the critical section and the sending of the
  reply.  What the critical section does is a hypothesis here, so that servers with and without a
  successor share the rest.
\<close>

lemma turn_handles:
  assumes "log_holds (sv_log sv) ls" "log_room (sv_log sv)" "loggable msg"
    and "incoming s (frame bq @ after) rest" "0 < length bq" "length bq \<le> 0xFFFF" "cd_unpack cd bq = Some msg"
    and "packs cd reply br" "has_room s (length (frame br) + n)" "m_avail (sv_mem sv) (m_brk (sv_mem sv))"
    and handle: "\<And>lg. \<exists>sv2. handle_request cd msg (sv\<lparr>sv_mem := (sv_mem sv)\<lparr>m_brk := Suc (m_brk (sv_mem sv))\<rparr>,
        sv_log := lg, sv_ticks := Suc (sv_ticks sv)\<rparr>) = Some (reply, sv2) \<and> sv_log sv2 = lg \<and>
      m_avail (sv_mem sv2) (m_brk (sv_mem sv2)) \<and> Q sv2"
  obtains s' sv2 where
    "client_turn cd peer s sv = Some (True, s', sv2\<lparr>sv_mem := (sv_mem sv2)\<lparr>m_brk := Suc (m_brk (sv_mem sv2))\<rparr>\<rparr>)"
    "k_out s' = k_out s @ frame br" "incoming s' after rest" "has_room s' n"
    "log_holds (sv_log sv2) (ls @ log_line sv peer msg)" "log_room (sv_log sv2)" "Q sv2"
proof -
  let ?m = "(sv_mem sv)\<lparr>m_brk := Suc (m_brk (sv_mem sv))\<rparr>"
  from network_receive_ok[OF assms(4-6,10), of cd] obtain s1 where
    recv: "network_receive cd s (sv_mem sv) = Some (Some msg, s1, ?m)" and s1: "incoming s1 after rest"
      "k_out s1 = k_out s" "k_room s1 = k_room s"
    using assms(7) by auto
  let ?sv1 = "sv\<lparr>sv_mem := ?m\<rparr>"
  obtain lg where event: "log_event peer REQUEST (Some msg) ?sv1 =
      Some (?sv1\<lparr>sv_log := lg, sv_ticks := Suc (sv_ticks ?sv1)\<rparr>)"
    and lg: "log_holds lg (ls @ log_line ?sv1 peer msg)" "log_room lg"
    using log_request_ok[of ?sv1 ls msg peer] assms(1-3) by auto
  obtain sv2 where local: "handle_request cd msg (sv\<lparr>sv_mem := ?m, sv_log := lg, sv_ticks := Suc (sv_ticks sv)\<rparr>) =
      Some (reply, sv2)" and sv2: "sv_log sv2 = lg" "m_avail (sv_mem sv2) (m_brk (sv_mem sv2))" "Q sv2"
    using handle[of lg] by blast
  have "has_room s1 (length (frame br) + n)" using assms(9) s1(3) by (simp add: has_room_cong[of s1 s])
  then obtain s2 where
    send: "network_send cd reply s1 (sv_mem sv2) = Some (0, s2, (sv_mem sv2)\<lparr>m_brk := Suc (m_brk (sv_mem sv2))\<rparr>)"
      "k_out s2 = k_out s1 @ frame br" "has_room s2 n" "k_in s2 = k_in s1"
    using network_send_ok[OF assms(8) _ sv2(2)] by metis
  have "client_turn cd peer s sv = Some (True, s2, sv2\<lparr>sv_mem := (sv_mem sv2)\<lparr>m_brk := Suc (m_brk (sv_mem sv2))\<rparr>\<rparr>)"
    using recv event local send(1) by (simp add: client_turn_def)
  moreover have "incoming s2 after rest" using s1(1) send(4) by (simp add: incoming_cong[of s2 s1])
  moreover have "log_line ?sv1 peer msg = log_line sv peer msg" by (simp add: log_line_def)
  ultimately show ?thesis using that[of s2 sv2] send s1(2) lg sv2 by simp
qed

lemma client_turn_ok:
  assumes "session_inv l year sv xs ls" "serve_ok msg xs" "loggable msg"
    and "incoming s (frame bq @ after) rest" "0 < length bq" "length bq \<le> 0xFFFF" "cd_unpack cd bq = Some msg"
    and "packs cd (fst (tail_spec year msg xs)) br" "has_room s (length (frame br) + n)"
  shows "\<exists>s' sv'. client_turn cd peer s sv = Some (True, s', sv') \<and>
    k_out s' = k_out s @ frame br \<and> incoming s' after rest \<and> has_room s' n \<and>
    session_inv l year sv' (snd (tail_spec year msg xs)) (ls @ log_line sv peer msg) \<and>
    sv_clock sv' = sv_clock sv \<and> sv_ticks sv' = Suc (sv_ticks sv)"
proof -
  let ?m = "(sv_mem sv)\<lparr>m_brk := Suc (m_brk (sv_mem sv))\<rparr>"
  let ?Q = "\<lambda>sv2. serve_rel l year (sv_mem sv2) (snd (tail_spec year msg xs)) \<and> sv_list sv2 = Some l \<and>
    rl_next_server (sv_chain sv2) = None \<and> sv_clock sv2 = sv_clock sv \<and> sv_ticks sv2 = Suc (sv_ticks sv)"
  have rel: "serve_rel l year (sv_mem sv) xs" and sv: "sv_list sv = Some l" "rl_next_server (sv_chain sv) = None"
    and log: "log_holds (sv_log sv) ls" "log_room (sv_log sv)"
    using assms(1) by (simp_all add: session_inv_def tail_rel_def)
  have avail: "m_avail (sv_mem sv) (m_brk (sv_mem sv))" using rel by (simp add: serve_rel_def)
  have handle: "\<exists>sv2. handle_request cd msg (sv\<lparr>sv_mem := ?m, sv_log := lg, sv_ticks := Suc (sv_ticks sv)\<rparr>) =
      Some (fst (tail_spec year msg xs), sv2) \<and> sv_log sv2 = lg \<and> m_avail (sv_mem sv2) (m_brk (sv_mem sv2)) \<and> ?Q sv2" for lg
  proof -
    let ?sv1 = "sv\<lparr>sv_mem := ?m, sv_log := lg, sv_ticks := Suc (sv_ticks sv)\<rparr>"
    have "serve_rel l year (sv_mem ?sv1) xs"
      using serve_rel_same[OF rel, of ?m] by (simp add: same_blocks_def)
    from apply_local_ok[OF this _ assms(2)] sv show ?thesis
      by (auto simp: handle_tail serve_rel_def)
  qed
  obtain s' sv2 where turn:
    "client_turn cd peer s sv = Some (True, s', sv2\<lparr>sv_mem := (sv_mem sv2)\<lparr>m_brk := Suc (m_brk (sv_mem sv2))\<rparr>\<rparr>)"
    "k_out s' = k_out s @ frame br" "incoming s' after rest" "has_room s' n"
    "log_holds (sv_log sv2) (ls @ log_line sv peer msg)" "log_room (sv_log sv2)" "?Q sv2"
    by (rule turn_handles[OF log assms(3-9) avail handle])
  have "serve_rel l year ((sv_mem sv2)\<lparr>m_brk := Suc (m_brk (sv_mem sv2))\<rparr>) (snd (tail_spec year msg xs))"
    using turn(7) serve_rel_same[of l year "sv_mem sv2"] by (simp add: same_blocks_def)
  with turn show ?thesis
    by (intro exI[of _ s'] exI[of _ "sv2\<lparr>sv_mem := (sv_mem sv2)\<lparr>m_brk := Suc (m_brk (sv_mem sv2))\<rparr>\<rparr>"])
      (simp add: session_inv_def tail_rel_def)
qed

section \<open>A whole session\<close>

text \<open>The first \<open>n\<close> turns of the loop, as long as none of them ends it.\<close>

fun client_turns ::
  "codec \<Rightarrow> (string \<times> nat) option \<Rightarrow> nat \<Rightarrow> conn \<Rightarrow> server \<Rightarrow> (conn \<times> server) option" where
  "client_turns cd peer 0 s sv = Some (s, sv)"
| "client_turns cd peer (Suc n) s sv = do {
     (continue, s1, sv1) \<leftarrow> client_turn cd peer s sv;
     if continue then client_turns cd peer n s1 sv1 else None
   }"

lemma client_loop_turns:
  assumes "client_turns cd peer n s sv = Some (s', sv')"
    and "\<forall>k. sv_ticks sv \<le> k \<longrightarrow> k < sv_ticks sv + n \<longrightarrow> \<not> sv_shutdown sv k"
    and "\<And>s sv c s1 sv1. client_turn cd peer s sv = Some (True, s1, sv1) \<Longrightarrow>
      sv_shutdown sv1 = sv_shutdown sv \<and> sv_ticks sv1 = Suc (sv_ticks sv)"
  shows "client_loop cd peer s sv = client_loop cd peer s' sv'"
  using assms(1,2)
proof (induction n arbitrary: s sv)
  case (Suc n)
  then obtain s1 sv1 where turn: "client_turn cd peer s sv = Some (True, s1, sv1)"
    and rest: "client_turns cd peer n s1 sv1 = Some (s', sv')"
    by (auto simp: bind_eq_Some_conv split: if_splits)
  have "client_loop cd peer s sv = client_loop cd peer s1 sv1"
    using turn Suc.prems(2) by (subst client_loop.simps) simp
  also have "\<dots> = client_loop cd peer s' sv'"
    using rest Suc.prems(2) assms(3)[OF turn] by (intro Suc.IH) auto
  finally show ?case .
qed simp

text \<open>The bytes of the requests and of the replies of the abstract service.\<close>

fun session_bytes :: "codec \<Rightarrow> i32 \<Rightarrow> MessageT list \<Rightarrow> byte list list \<Rightarrow> byte list list \<Rightarrow> car list \<Rightarrow> bool" where
  "session_bytes cd year [] [] [] xs = True"
| "session_bytes cd year (msg # msgs) (bq # bqs) (br # brs) xs =
     (0 < length bq \<and> length bq \<le> 0xFFFF \<and> cd_unpack cd bq = Some msg \<and> loggable msg \<and>
      packs cd (fst (tail_spec year msg xs)) br \<and>
      session_bytes cd year msgs bqs brs (snd (tail_spec year msg xs)))"
| "session_bytes cd year _ _ _ xs = False"

lemma client_turns_ok:
  assumes "session_inv l year sv xs ls" "run_ok (tail_spec year) serve_ok msgs xs"
    and "session_bytes cd year msgs bqs brs xs"
    and "incoming s (concat (map frame bqs) @ after) rest" "has_room s (length (concat (map frame brs)))"
  shows "\<exists>s' sv' ls'. client_turns cd peer (length msgs) s sv = Some (s', sv') \<and>
    k_out s' = k_out s @ concat (map frame brs) \<and> incoming s' after rest \<and>
    session_inv l year sv' (snd (run_spec (tail_spec year) msgs xs)) (ls @ ls') \<and>
    ((\<forall>k. sv_clock sv k \<noteq> None) \<longrightarrow> length ls' = length msgs)"
  using assms
proof (induction cd year msgs bqs brs xs arbitrary: s sv ls rule: session_bytes.induct)
  case (1 cd year xs)
  then show ?case by (auto intro!: exI[of _ "[] :: string option list"])
next
  case (2 cd year msg msgs bq bqs br brs xs)
  let ?xs = "snd (tail_spec year msg xs)"
  have "incoming s (frame bq @ (concat (map frame bqs) @ after)) rest"
    "has_room s (length (frame br) + length (concat (map frame brs)))"
    using "2.prems"(4,5) by simp_all
  with client_turn_ok[of l year sv xs ls msg s bq "concat (map frame bqs) @ after" rest cd br
      "length (concat (map frame brs))" peer] "2.prems"(1-3)
  obtain s1 sv1 where turn: "client_turn cd peer s sv = Some (True, s1, sv1)"
    "k_out s1 = k_out s @ frame br" "incoming s1 (concat (map frame bqs) @ after) rest"
    "has_room s1 (length (concat (map frame brs)))"
    "session_inv l year sv1 ?xs (ls @ log_line sv peer msg)" "sv_clock sv1 = sv_clock sv"
    by auto
  have "run_ok (tail_spec year) serve_ok msgs ?xs" "session_bytes cd year msgs bqs brs ?xs"
    using "2.prems"(2,3) by simp_all
  from "2.IH"[OF turn(5) this turn(3,4)] obtain s' sv' ls' where
    "client_turns cd peer (length msgs) s1 sv1 = Some (s', sv')"
    "k_out s' = k_out s1 @ concat (map frame brs)" "incoming s' after rest"
    "session_inv l year sv' (snd (run_spec (tail_spec year) msgs ?xs)) ((ls @ log_line sv peer msg) @ ls')"
    "(\<forall>k. sv_clock sv1 k \<noteq> None) \<longrightarrow> length ls' = length msgs" by blast
  moreover have "(\<forall>k. sv_clock sv k \<noteq> None) \<longrightarrow> length (log_line sv peer msg) = 1"
    by (auto simp: log_line_def split: option.splits)
  ultimately show ?case
    using turn by (intro exI[of _ s'] exI[of _ sv'] exI[of _ "log_line sv peer msg @ ls'"])
      (auto simp: Let_def split: prod.splits)
qed simp_all

section \<open>Properties\<close>

definition demo_server :: server where
  "demo_server = \<lparr>sv_mem = two_cars, sv_list = Some 0,
     sv_chain = \<lparr>zh_open = True, node_path = ''/chain/node-0000000001'', rl_next_server = None, next_conn = demo_conn\<rparr>,
     sv_log = demo_log, sv_clients = no_clients, sv_ticks = 0, sv_clock = (\<lambda>_. Some 1700000000),
     sv_shutdown = (\<lambda>_. False)\<rparr>"

lemma demo_server_inv [simp]: "session_inv 0 2025 demo_server [yaris, m3] []"
  by (simp add: session_inv_def tail_rel_def serve_rel_def demo_server_def)

lemma two_cars_rel [simp]: "serve_rel 0 2025 two_cars [yaris, m3]"
  by (simp add: serve_rel_def)

text \<open>C5: A session on a server without successor.  When the stream of a client starts with the
  frames of some requests, in any chunks, the thread answers them one by one and in order with the
  frames of the replies of the abstract service and nothing else, the list of the process becomes
  that of the service after these requests, the log gets one line per request, and the bytes behind
  the requests are still there for the next turn.\<close>

theorem session_answers:
  assumes "session_inv l year sv xs ls" "run_ok (tail_spec year) serve_ok msgs xs"
    and "session_bytes cd year msgs bqs brs xs" "\<forall>k. sv_clock sv k \<noteq> None"
    and "incoming s (concat (map frame bqs) @ after) rest" "has_room s (length (concat (map frame brs)))"
  shows "\<exists>s' sv' ls'. client_turns cd peer (length msgs) s sv = Some (s', sv') \<and>
    k_out s' = k_out s @ concat (map frame brs) \<and> incoming s' after rest \<and>
    list_is (sv_mem sv') l (snd (run_spec (tail_spec year) msgs xs)) \<and>
    log_holds (sv_log sv') (ls @ ls') \<and> length ls' = length msgs"
  using client_turns_ok[OF assms(1-3,5,6), of peer] assms(4)
  by (auto simp: session_inv_def tail_rel_def serve_rel_def)

theorem session_answers_witness:
  "\<exists>s' sv' ls'. client_turns demo_codec None 2 (chunk_conn [0, 2, 40, 70, 0, 2, 5, 70]) demo_server = Some (s', sv') \<and>
     k_out s' = [0, 2, 41, 50, 0, 2, 99, 70] \<and> list_is (sv_mem sv') 0 [yaris, m3] \<and>
     log_holds (sv_log sv') ls' \<and> length ls' = 2"
proof -
  let ?bqs = "[[40, 70], [5, 70]]" and ?brs = "[[41, 50], [99, 70]]"
  have spec: "tail_spec 2025 (demo_msg 40) [yaris, m3] =
      (reply_ok ((demo_msg 40)\<lparr>msg_result := 2\<rparr>) CT_RESULT, [yaris, m3])"
    "tail_spec 2025 (demo_msg 5) [yaris, m3] = (reply_error (demo_msg 5), [yaris, m3])"
    by (simp_all add: tail_spec_def skel_step_def step_size_def demo_msg_def message_t_init_def)
  have ok: "serve_ok (demo_msg op) [yaris, m3]" for op
    by (simp add: serve_ok_def msg_ok_def demo_msg_def message_t_init_def)
  have "cd_unpack demo_codec [40, 70] = Some (demo_msg 40)" "cd_unpack demo_codec [5, 70] = Some (demo_msg 5)"
    "packs demo_codec (reply_ok ((demo_msg 40)\<lparr>msg_result := 2\<rparr>) CT_RESULT) [41, 50]"
    "packs demo_codec (reply_error (demo_msg 5)) [99, 70]"
    by (simp_all add: demo_msg_def packs_def demo_codec_def reply_ok_def reply_error_def)
  then have bytes: "session_bytes demo_codec 2025 [demo_msg 40, demo_msg 5] ?bqs ?brs [yaris, m3]"
    by (simp add: spec loggable_def) (simp add: demo_msg_def)
  have run: "run_ok (tail_spec 2025) serve_ok [demo_msg 40, demo_msg 5] [yaris, m3]"
    using ok by (simp add: spec)
  have "has_room (chunk_conn [0, 2, 40, 70, 0, 2, 5, 70]) (length (concat (map frame ?brs)))"
    by (rule chunk_conn_room) (simp add: frame_pair)
  moreover have "incoming (chunk_conn [0, 2, 40, 70, 0, 2, 5, 70]) (concat (map frame ?bqs) @ []) []"
    using chunk_conn_incoming[of "[0, 2, 40, 70, 0, 2, 5, 70]"] by (simp add: frame_pair)
  moreover have "\<forall>k. sv_clock demo_server k \<noteq> None" by (simp add: demo_server_def)
  ultimately show ?thesis
    using session_answers[OF demo_server_inv run bytes, of "chunk_conn [0, 2, 40, 70, 0, 2, 5, 70]" "[]" "[]" None]
    by (simp add: spec frame_pair numeral_2_eq_2 Let_def) blast
qed

text \<open>C39: A client that sends a delete request without models brings the server down: the turn
  that reads it is undefined, on any server with a live log, before the request is looked at.\<close>

theorem malformed_delete_crashes:
  assumes "log_holds (sv_log sv) ls" "sv_clock sv (sv_ticks sv) = Some ts"
    and "network_receive cd s (sv_mem sv) = Some (Some msg, s1, m1)"
    and "msg_opcode msg = OP_DEL" "msg_models msg = None"
  shows "client_turn cd peer s sv = None"
proof -
  have "write_in_server_log (Some ts) peer REQUEST (Some msg) (sv_log sv) = None"
    unfolding write_in_server_log_None[OF assms(1)] final_line_None using assms(4,5) by simp
  with assms show ?thesis by (simp add: client_turn_def log_event_def)
qed

theorem malformed_delete_crashes_witness:
  "client_turn demo_codec None (chunk_conn [0, 2, 30, 40]) demo_server = None"
proof -
  have mem: "sv_mem demo_server = two_cars" "log_holds (sv_log demo_server) []"
    "sv_clock demo_server (sv_ticks demo_server) = Some 1700000000"
    by (simp_all add: demo_server_def)
  have bytes: "incoming (chunk_conn [0, 2, 30, 40]) (frame [30, 40] @ []) []"
    using chunk_conn_incoming[of "[0, 2, 30, 40]"] by (simp add: frame_pair)
  have len: "0 < length [30 :: byte, 40]" "length [30 :: byte, 40] \<le> 0xFFFF" by simp_all
  have avail: "m_avail two_cars (m_brk two_cars)" by simp
  obtain s1 where "network_receive demo_codec (chunk_conn [0, 2, 30, 40]) two_cars =
      Some (cd_unpack demo_codec [30, 40], s1, two_cars\<lparr>m_brk := Suc (m_brk two_cars)\<rparr>)"
    using network_receive_ok[OF bytes len avail, of demo_codec] by blast
  then have recv: "network_receive demo_codec (chunk_conn [0, 2, 30, 40]) two_cars =
      Some (Some (message_t_init\<lparr>msg_opcode := 30, msg_c_type := 40\<rparr>), s1,
        two_cars\<lparr>m_brk := Suc (m_brk two_cars)\<rparr>)"
    by simp
  show ?thesis
    using malformed_delete_crashes[of demo_server "[]" 1700000000 demo_codec "chunk_conn [0, 2, 30, 40]",
        OF mem(2,3), unfolded mem(1), OF recv]
    by (simp add: message_t_init_def)
qed

text \<open>C25: A write on a server with a successor.  When the successor does not answer, nothing is
  applied and the client gets \<open>OP_ERROR\<close> with result -1 but the content type of its request; when
  any message at all comes back, an \<open>OP_ERROR\<close> included, the write is applied locally.\<close>

theorem write_with_successor:
  assumes "rl_next_server (sv_chain sv) = Some rl" "needs_forward msg"
    and "network_send_receive cd (Some rl) (Some msg) (next_conn (sv_chain sv)) (sv_mem sv) = Some (resp, s1, m1)"
    and "serve_rel l year (sv_mem sv) xs" "sv_list sv = Some l" "serve_ok msg xs"
  shows "\<exists>sv'. handle_request cd msg sv =
      Some (if resp = None then msg\<lparr>msg_opcode := OP_ERROR, msg_result := -1\<rparr>
            else fst (tail_spec year msg xs), sv') \<and>
    list_is (sv_mem sv') l (if resp = None then xs else snd (tail_spec year msg xs))"
proof -
  let ?sv1 = "sv\<lparr>sv_chain := (sv_chain sv)\<lparr>next_conn := s1\<rparr>, sv_mem := m1\<rparr>"
  have fwd: "forward_request cd msg sv = Some (if resp = None then -1 else 0, ?sv1)"
    using assms(1,3) by (simp add: forward_request_def zoo_forward_to_successor_def)
  have rel1: "serve_rel l year (sv_mem ?sv1) xs"
    using serve_rel_same[OF assms(4) network_send_receive_same[OF assms(3)]] by simp
  show ?thesis
  proof (cases resp)
    case None
    with fwd assms(2) rel1 show ?thesis
      by (simp add: handle_request_def handle_with_def serve_rel_def)
  next
    case (Some r)
    from apply_local_ok[OF rel1 _ assms(6)] assms(5) obtain m2 where
      "apply_local msg ?sv1 = Some (fst (tail_spec year msg xs), ?sv1\<lparr>sv_mem := m2\<rparr>)"
      "serve_rel l year m2 (snd (tail_spec year msg xs))" by auto
    with fwd assms(2) Some show ?thesis
      by (simp add: handle_request_def handle_with_def serve_rel_def)
  qed
qed

text \<open>A server whose successor answers every request with \<open>OP_ERROR\<close>.\<close>

definition failing_successor :: server where
  "failing_successor = demo_server\<lparr>sv_chain := (sv_chain demo_server)\<lparr>
     rl_next_server := Some \<lparr>server_address = ''10.0.0.2'', server_port = 5000, sockfd = 4\<rparr>,
     next_conn := chunk_conn [0, 2, 99, 70]\<rparr>\<rparr>"

theorem write_with_successor_witness:
  "\<exists>sv'. handle_request demo_codec (del_request ''M3'') failing_successor = Some (fst (tail_spec 2025 (del_request ''M3'') [yaris, m3]), sv') \<and>
     list_is (sv_mem sv') 0 [yaris]"
proof -
  let ?rl = "\<lparr>server_address = ''10.0.0.2'', server_port = 5000, sockfd = 4\<rparr> :: rlist_t"
  have room: "has_room (chunk_conn [0, 2, 99, 70]) (length (frame [30, 40]) + 0)"
    by (rule chunk_conn_room) (simp add: frame_pair)
  have bytes: "incoming (chunk_conn [0, 2, 99, 70]) (frame [99, 70] @ []) []"
    using chunk_conn_incoming[of "[0, 2, 99, 70]"] by (simp add: frame_pair)
  have packs: "packs demo_codec (del_request ''M3'') [30, 40]"
    by (simp add: packs_def demo_codec_def del_request_def)
  have len: "0 < length [99 :: byte, 70]" "length [99 :: byte, 70] \<le> 0xFFFF" by simp_all
  have avail: "0 \<le> sint (sockfd ?rl)" "m_avail two_cars (m_brk two_cars)" "m_avail two_cars (Suc (m_brk two_cars))"
    by simp_all
  obtain s1 where "network_send_receive demo_codec (Some ?rl) (Some (del_request ''M3''))
      (chunk_conn [0, 2, 99, 70]) two_cars =
      Some (cd_unpack demo_codec [99, 70], s1, two_cars\<lparr>m_brk := m_brk two_cars + 2\<rparr>)"
    using network_send_receive_ok[OF avail(1) packs room bytes len avail(2,3)] by blast
  then have "network_send_receive demo_codec (Some ?rl) (Some (del_request ''M3''))
      (chunk_conn [0, 2, 99, 70]) two_cars =
      Some (Some (message_t_init\<lparr>msg_opcode := 99, msg_c_type := 70\<rparr>), s1, two_cars\<lparr>m_brk := m_brk two_cars + 2\<rparr>)"
    by simp
  moreover have "sv_mem failing_successor = two_cars" "sv_list failing_successor = Some 0"
    "rl_next_server (sv_chain failing_successor) = Some ?rl"
    "next_conn (sv_chain failing_successor) = chunk_conn [0, 2, 99, 70]"
    by (simp_all add: failing_successor_def demo_server_def)
  moreover have "needs_forward (del_request ''M3'')" "serve_ok (del_request ''M3'') [yaris, m3]"
    by (simp_all add: needs_forward_def serve_ok_def)
  moreover have "snd (tail_spec 2025 (del_request ''M3'') [yaris, m3]) = [yaris]"
    by (simp add: tail_spec_def spec_del)
  ultimately show ?thesis
    using write_with_successor[of failing_successor ?rl "del_request ''M3''" demo_codec
        "Some (message_t_init\<lparr>msg_opcode := 99, msg_c_type := 70\<rparr>)" s1
        "two_cars\<lparr>m_brk := m_brk two_cars + 2\<rparr>" 0 2025 "[yaris, m3]"]
    by auto
qed

end
