(* ===== verification/ChainLinks.thy ===== *)
theory ChainLinks
  imports ChainServer SkelRefine
begin

text \<open>
  The neighbours that \<open>chain_server.c\<close> chooses link the servers into one chain; what a server
  does when its successor cannot be reached; and what the copy of the predecessor's list leaves in
  memory.
\<close>

section \<open>The scans\<close>

text \<open>The number of a child, if its name has one.\<close>

definition child_path :: "string \<Rightarrow> string" where
  "child_path c = ''/chain/'' @ c"

lemma own_number_child [simp]: "own_number (child_path c) = node_number c"
  by (simp add: own_number_def node_number_def sscanf_d_def child_path_def)

lemma next_scan_ok:
  "\<exists>n j. next_scan (Some low) i cs (b, bi) = Some (n, j) \<and> sint n \<le> sint b \<and>
     (n = b \<and> j = bi \<or> i \<le> j \<and> j < i + int (length cs) \<and> node_number (cs ! nat (j - i)) = Some n \<and>
        sint low < sint n \<and> sint n < sint b) \<and>
     (\<forall>c \<in> set cs. \<forall>k. node_number c = Some k \<longrightarrow> sint low < sint k \<longrightarrow> sint n \<le> sint k)"
proof (induction cs arbitrary: i b bi)
  case Nil
  then show ?case by simp
next
  case (Cons c cs)
  have shift: "nat (j - i) = Suc (nat (j - (i + 1)))" if "i + 1 \<le> j" for j
    using that by simp
  show ?case
  proof (cases "node_number c")
    case None
    with Cons.IH[of "i + 1" b bi] show ?thesis by (fastforce simp: shift)
  next
    case (Some k)
    show ?thesis
    proof (cases "sint low < sint k \<and> sint k < sint b")
      case True
      with Some Cons.IH[of "i + 1" k i] show ?thesis by (fastforce simp: shift)
    next
      case False
      with Some Cons.IH[of "i + 1" b bi] show ?thesis by (fastforce simp: shift)
    qed
  qed
qed

lemma prev_scan_ok:
  "\<exists>n j. prev_scan (Some hi) i cs (b, bi) = Some (n, j) \<and> sint b \<le> sint n \<and>
     (n = b \<and> j = bi \<or> i \<le> j \<and> j < i + int (length cs) \<and> node_number (cs ! nat (j - i)) = Some n \<and>
        sint n < sint hi \<and> sint b < sint n) \<and>
     (\<forall>c \<in> set cs. \<forall>k. node_number c = Some k \<longrightarrow> sint k < sint hi \<longrightarrow> sint k \<le> sint n)"
proof (induction cs arbitrary: i b bi)
  case Nil
  then show ?case by simp
next
  case (Cons c cs)
  have shift: "nat (j - i) = Suc (nat (j - (i + 1)))" if "i + 1 \<le> j" for j
    using that by simp
  show ?case
  proof (cases "node_number c")
    case None
    with Cons.IH[of "i + 1" b bi] show ?thesis by (fastforce simp: shift)
  next
    case (Some k)
    show ?thesis
    proof (cases "sint k < sint hi \<and> sint b < sint k")
      case True
      with Some Cons.IH[of "i + 1" k i] show ?thesis by (fastforce simp: shift)
    next
      case False
      with Some Cons.IH[of "i + 1" b bi] show ?thesis by (fastforce simp: shift)
    qed
  qed
qed

text \<open>The numbers ZooKeeper gives: distinct, and inside the range of an \<open>int\<close>.\<close>

definition numbered :: "string list \<Rightarrow> bool" where
  "numbered cs \<longleftrightarrow> distinct (map node_number cs) \<and>
     list_all (\<lambda>c. case node_number c of None \<Rightarrow> False
       | Some k \<Rightarrow> 0 \<le> sint k \<and> sint k < int_max) cs"

lemma numbered_inj:
  "numbered cs \<Longrightarrow> i < length cs \<Longrightarrow> j < length cs \<Longrightarrow> node_number (cs ! i) = node_number (cs ! j) \<Longrightarrow> i = j"
  using nth_eq_iff_index_eq[of "map node_number cs" i j] by (simp add: numbered_def)

lemma numbered_number:
  assumes "numbered cs" "i < length cs"
  obtains a where "node_number (cs ! i) = Some a" "0 \<le> sint a" "sint a < int_max"
  using assms by (fastforce simp: numbered_def list_all_length split: option.splits)

lemma sint_bounds: "sint INT_MAX = int_max" "sint INT_MIN = - int_max - 1"
  by simp_all

lemma successor_found:
  assumes "numbered cs" "next_scan (Some a) 0 cs (INT_MAX, -1) = Some (n, j)" "j \<noteq> -1"
  shows "0 \<le> j \<and> nat j < length cs \<and> node_number (cs ! nat j) = Some n \<and> sint a < sint n \<and>
    (\<forall>c \<in> set cs. \<forall>k. node_number c = Some k \<longrightarrow> sint a < sint k \<longrightarrow> sint n \<le> sint k)"
proof -
  obtain n' j' where "next_scan (Some a) 0 cs (INT_MAX, -1) = Some (n', j')"
    and props: "n' = INT_MAX \<and> j' = -1 \<or> 0 \<le> j' \<and> j' < 0 + int (length cs) \<and> node_number (cs ! nat (j' - 0)) = Some n' \<and>
        sint a < sint n' \<and> sint n' < sint INT_MAX"
      "\<forall>c \<in> set cs. \<forall>k. node_number c = Some k \<longrightarrow> sint a < sint k \<longrightarrow> sint n' \<le> sint k"
    using next_scan_ok[of a 0 cs INT_MAX "-1"] by metis
  with assms(2) have "n' = n" "j' = j" by simp_all
  with props assms(3) show ?thesis by (simp add: nat_less_iff)
qed

lemma predecessor_found:
  assumes "numbered cs" "prev_scan (Some a) 0 cs (INT_MIN, -1) = Some (n, j)" "j \<noteq> -1"
  shows "0 \<le> j \<and> nat j < length cs \<and> node_number (cs ! nat j) = Some n \<and> sint n < sint a \<and>
    (\<forall>c \<in> set cs. \<forall>k. node_number c = Some k \<longrightarrow> sint k < sint a \<longrightarrow> sint k \<le> sint n)"
proof -
  obtain n' j' where "prev_scan (Some a) 0 cs (INT_MIN, -1) = Some (n', j')"
    and props: "n' = INT_MIN \<and> j' = -1 \<or> 0 \<le> j' \<and> j' < 0 + int (length cs) \<and> node_number (cs ! nat (j' - 0)) = Some n' \<and>
        sint n' < sint a \<and> sint INT_MIN < sint n'"
      "\<forall>c \<in> set cs. \<forall>k. node_number c = Some k \<longrightarrow> sint k < sint a \<longrightarrow> sint k \<le> sint n'"
    using prev_scan_ok[of a 0 cs INT_MIN "-1"] by metis
  with assms(2) have "n' = n" "j' = j" by simp_all
  with props assms(3) show ?thesis by (simp add: nat_less_iff)
qed

section \<open>The blocks of the program\<close>

lemma rlist_connect_same:
  assumes "rlist_connect cd os addr s m = Some (rl, s', m')"
  shows "same_blocks m m'"
proof -
  have "same_blocks m m'"
    if "network_connect cd os rl0 s (m\<lparr>m_brk := k\<rparr>) = Some (r, rl1, s1, m')" "m_brk m \<le> k" for k rl0 r rl1 s1
    using network_connect_same[OF that(1)] that(2) by (simp add: same_blocks_def)
  moreover have "same_blocks m (m\<lparr>m_brk := k\<rparr>)" if "m_brk m \<le> k" for k using that by (simp add: same_blocks_def)
  ultimately show ?thesis using assms
    by (auto simp: rlist_connect_def malloc_block_def Let_def bind_eq_Some_conv split: option.splits if_splits list.splits)
qed

lemma update_same: "update cd os peers zk cs ch m = Some (ch', m') \<Longrightarrow> same_blocks m m'"
  by (auto simp: update_def Let_def bind_eq_Some_conv dest!: rlist_connect_same split: if_splits option.splits)

lemma child_watcher_same:
  "child_watcher cd os peers zk connected event ch m = Some (ch', m') \<Longrightarrow> same_blocks m m'"
  by (auto simp: child_watcher_def dest!: update_same split: if_splits option.splits)

section \<open>Properties of the chain\<close>

definition three_nodes :: "string list" where
  "three_nodes = [''node-0000000007'', ''node-0000000002'', ''node-0000000011'']"

lemma three_nodes_numbers [simp]:
  "node_number (three_nodes ! 0) = Some 7" "node_number (three_nodes ! Suc 0) = Some 2"
  "node_number (three_nodes ! 2) = Some 11" "length three_nodes = 3"
  by (simp_all add: three_nodes_def node_number_def sscanf_d_def strtol_def is_space_def is_digit_def
      long_clamp_def)

lemma three_nodes_numbered [simp]: "numbered three_nodes"
  using three_nodes_numbers by (simp add: numbered_def three_nodes_def)

text \<open>C24: the successor that \<open>update\<close> picks is the registered server with the least number above
  its own, and there is none exactly when its number is the greatest; no uninitialised number is
  compared.\<close>

theorem successor_is_next:
  assumes "numbered cs" "i < length cs" "node_number (cs ! i) = Some a"
  shows "\<exists>n j. next_scan (own_number (child_path (cs ! i))) 0 cs (INT_MAX, -1) = Some (n, j) \<and>
    (if \<exists>c \<in> set cs. \<exists>k. node_number c = Some k \<and> sint a < sint k
     then 0 \<le> j \<and> nat j < length cs \<and> node_number (cs ! nat j) = Some n \<and> sint a < sint n \<and>
       (\<forall>c \<in> set cs. \<forall>k. node_number c = Some k \<longrightarrow> sint a < sint k \<longrightarrow> sint n \<le> sint k)
     else j = -1)"
proof -
  obtain n j where scan: "next_scan (Some a) 0 cs (INT_MAX, -1) = Some (n, j)"
    and cases: "n = INT_MAX \<and> j = -1 \<or> j \<noteq> -1 \<and> node_number (cs ! nat j) = Some n \<and> nat j < length cs \<and> sint a < sint n"
    and least: "\<forall>c \<in> set cs. \<forall>k. node_number c = Some k \<longrightarrow> sint a < sint k \<longrightarrow> sint n \<le> sint k"
    using next_scan_ok[of a 0 cs INT_MAX "-1"] by auto
  have below: "sint k < int_max" if "c \<in> set cs" "node_number c = Some k" for c k
    using assms(1) that by (auto simp: numbered_def list_all_iff)
  have own: "own_number (child_path (cs ! i)) = Some a" by (simp add: assms(3))
  show ?thesis
  proof (cases "\<exists>c \<in> set cs. \<exists>k. node_number c = Some k \<and> sint a < sint k")
    case True
    then obtain c k where "c \<in> set cs" "node_number c = Some k" "sint a < sint k" by blast
    with least below have "sint n < int_max" by (meson le_less_trans)
    then have "j \<noteq> -1" using cases sint_bounds(1) by auto
    with True scan successor_found[OF assms(1) scan] own show ?thesis by simp
  next
    case False
    moreover have "cs ! nat j \<in> set cs" if "nat j < length cs" using that by simp
    ultimately have "j = -1" using cases by blast
    with False scan own show ?thesis by auto
  qed
qed

theorem successor_is_next_witness:
  "\<exists>j. next_scan (own_number (child_path (three_nodes ! 1))) 0 three_nodes (INT_MAX, -1) = Some (7, j) \<and>
     node_number (three_nodes ! nat j) = Some 7"
proof -
  have set: "set three_nodes = {three_nodes ! 0, three_nodes ! 1, three_nodes ! 2}"
    by (simp add: three_nodes_def insert_commute)
  have above: "\<exists>c \<in> set three_nodes. \<exists>k. node_number c = Some k \<and> sint (2 :: i32) < sint k"
    unfolding set by simp
  obtain n j where nj: "next_scan (own_number (child_path (three_nodes ! 1))) 0 three_nodes (INT_MAX, -1) = Some (n, j)"
    "nat j < length three_nodes" "node_number (three_nodes ! nat j) = Some n" "2 < sint n"
    "\<forall>c \<in> set three_nodes. \<forall>k. node_number c = Some k \<longrightarrow> 2 < sint k \<longrightarrow> sint n \<le> sint k"
    using successor_is_next[OF three_nodes_numbered, of 1 2] above by auto
  have "sint n \<le> 7" using nj(5) unfolding set by simp
  moreover have "nat j = 0 \<or> nat j = 1 \<or> nat j = 2" using nj(2) by auto
  then have "n = 7 \<or> n = 2 \<or> n = 11" using nj(3) three_nodes_numbers by auto
  ultimately have "n = 7" using nj(4) by auto
  with nj show ?thesis by blast
qed

text \<open>The choices of the servers agree.  If a server takes another one as its successor
  (\<open>update\<close>), that one takes it as its predecessor (\<open>init_list\<close>), and conversely, so the
  servers form one chain.\<close>

theorem neighbours_agree:
  assumes "numbered cs" "i < length cs" "j < length cs"
  shows "(\<exists>n. next_scan (own_number (child_path (cs ! i))) 0 cs (INT_MAX, -1) = Some (n, int j)) \<longleftrightarrow>
    (\<exists>n. prev_scan (own_number (child_path (cs ! j))) 0 cs (INT_MIN, -1) = Some (n, int i))"
proof -
  obtain a b where ab: "node_number (cs ! i) = Some a" "node_number (cs ! j) = Some b"
    and range: "\<And>c k. c \<in> set cs \<Longrightarrow> node_number c = Some k \<Longrightarrow> - int_max - 1 < sint k \<and> sint k < int_max"
    using assms by (fastforce simp: numbered_def list_all_iff split: option.splits)
  have in_set: "cs ! i \<in> set cs" "cs ! j \<in> set cs" using assms(2,3) by simp_all
  have uniq: "k = i" if "k < length cs" "node_number (cs ! k) = Some n" "sint n = sint a" for k n
    using numbered_inj[OF assms(1) that(1) assms(2)] that ab by (simp add: signed_word_eqI)
  have uniq': "k = j" if "k < length cs" "node_number (cs ! k) = Some n" "sint n = sint b" for k n
    using numbered_inj[OF assms(1) that(1) assms(3)] that ab by (simp add: signed_word_eqI)
  obtain n1 j1 where s: "next_scan (Some a) 0 cs (INT_MAX, -1) = Some (n1, j1)"
    using next_scan_ok[of a 0 cs INT_MAX "-1"] by blast
  obtain n2 j2 where p: "prev_scan (Some b) 0 cs (INT_MIN, -1) = Some (n2, j2)"
    using prev_scan_ok[of b 0 cs INT_MIN "-1"] by blast
  have "j2 = int i" if "j1 = int j"
  proof -
    from successor_found[OF assms(1) s] that ab have less: "sint a < sint b"
      and least: "\<forall>c \<in> set cs. \<forall>k. node_number c = Some k \<longrightarrow> sint a < sint k \<longrightarrow> sint b \<le> sint k" by auto
    have "sint a \<le> sint n2" using prev_scan_ok[of b 0 cs INT_MIN "-1"] p ab in_set(1) less by auto
    then have "j2 \<noteq> -1" using prev_scan_ok[of b 0 cs INT_MIN "-1"] p range[OF in_set(1) ab(1)] sint_bounds by auto
    from predecessor_found[OF assms(1) p this] have pred: "0 \<le> j2" "nat j2 < length cs"
      "node_number (cs ! nat j2) = Some n2" "sint n2 < sint b" by auto
    with least have "sint n2 \<le> sint a" by (meson not_le nth_mem)
    with \<open>sint a \<le> sint n2\<close> uniq[OF pred(2,3)] have "nat j2 = i" by simp
    with pred(1) show ?thesis by simp
  qed
  moreover have "j1 = int j" if "j2 = int i"
  proof -
    from predecessor_found[OF assms(1) p] that ab have less: "sint a < sint b"
      and greatest: "\<forall>c \<in> set cs. \<forall>k. node_number c = Some k \<longrightarrow> sint k < sint b \<longrightarrow> sint k \<le> sint a" by auto
    have "sint n1 \<le> sint b" using next_scan_ok[of a 0 cs INT_MAX "-1"] s ab in_set(2) less by auto
    then have "j1 \<noteq> -1" using next_scan_ok[of a 0 cs INT_MAX "-1"] s range[OF in_set(2) ab(2)] sint_bounds by auto
    from successor_found[OF assms(1) s this] have succ: "0 \<le> j1" "nat j1 < length cs"
      "node_number (cs ! nat j1) = Some n1" "sint a < sint n1" by auto
    with greatest have "sint b \<le> sint n1" by (meson not_le nth_mem)
    with \<open>sint n1 \<le> sint b\<close> uniq'[OF succ(2,3)] have "nat j1 = j" by simp
    with succ(1) show ?thesis by simp
  qed
  ultimately show ?thesis using s p ab by auto
qed

theorem neighbours_agree_witness:
  "(\<exists>n. next_scan (own_number (child_path (three_nodes ! 0))) 0 three_nodes (INT_MAX, -1) = Some (n, int 2)) =
   (\<exists>n. prev_scan (own_number (child_path (three_nodes ! 2))) 0 three_nodes (INT_MIN, -1) = Some (n, int 0))"
  using neighbours_agree[OF three_nodes_numbered, of 0 2] by simp

text \<open>A server whose successor exists but cannot be reached (ZooKeeper does not give its
  address, or the connection fails or is busy) is left without one: it then answers -2 to every
  forward, the code for the tail, and applies the writes that its successor never sees.\<close>

theorem unreachable_successor_is_tail:
  assumes "1 < length cs" "next_scan (own_number (node_path ch)) 0 cs (INT_MAX, -1) = Some (n, j)" "j \<noteq> -1"
    and "zk_get zk (zk_path (cs ! nat j)) = None \<or>
      (\<exists>data s' m'. zk_get zk (zk_path (cs ! nat j)) = Some (Some data) \<and>
        rlist_connect cd os (Some (first_line data)) (peers (first_line data)) m = Some (None, s', m'))"
  shows "\<exists>ch' m'. update cd os peers zk cs ch m = Some (ch', m') \<and>
    zoo_forward_to_successor cd (Some msg) ch' m' = Some (-2, ch', m')"
proof -
  have "\<exists>ch' m'. update cd os peers zk cs ch m = Some (ch', m') \<and> rl_next_server ch' = None"
    using assms by (auto simp: update_def Let_def)
  then obtain ch' m' where "update cd os peers zk cs ch m = Some (ch', m')" "rl_next_server ch' = None"
    by blast
  moreover from this(2) have "zoo_forward_to_successor cd (Some msg) ch' m' = Some (-2, ch', m')"
    by (simp add: zoo_forward_to_successor_def)
  ultimately show ?thesis by blast
qed

text \<open>A server on its own, and a ZooKeeper that knows the three servers but not their addresses.\<close>

definition lone_chain :: "string \<Rightarrow> chain" where
  "lone_chain path = \<lparr>zh_open = True, node_path = path, rl_next_server = None, next_conn = demo_conn\<rparr>"

definition demo_zoo :: zoo where
  "demo_zoo = \<lparr>zk_connects = True, zk_root_exists = True, zk_root_created = True,
     zk_register = (\<lambda>_. Some (child_path (three_nodes ! 1))), zk_children = Some three_nodes,
     zk_get = (\<lambda>_. None)\<rparr>"

theorem unreachable_successor_is_tail_witness:
  "\<exists>ch' m'. update demo_codec os peers demo_zoo three_nodes (lone_chain (child_path (three_nodes ! 0))) demo_mem =
       Some (ch', m') \<and>
     zoo_forward_to_successor demo_codec (Some message_t_init) ch' m' = Some (-2, ch', m')"
proof -
  have "next_scan (Some 7) 0 three_nodes (INT_MAX, -1) = Some (11, 2)"
    using three_nodes_numbers by (simp add: three_nodes_def)
  then show ?thesis
    using unreachable_successor_is_tail[of three_nodes "lone_chain (child_path (three_nodes ! 0))" 11 2 demo_zoo
        demo_codec os peers demo_mem]
    by (simp add: lone_chain_def demo_zoo_def)
qed

section \<open>Copying the list of the predecessor\<close>

lemma cars_adopt_ok:
  assumes "list_mem m l ns bs fr" "mem_wf m" "all_granted m" "\<forall>c \<in> set cs. car_valid (ano_atual m) c"
    and "length bs + length cs < 2147483647"
  shows "\<exists>m' ns' new leaked.
    cars_adopt (length pre) (length (pre @ cs)) (map (Some \<circ> Some \<circ> pdata_of) (pre @ cs)) (Some l) m =
      Some (0, m') \<and> mem_wf m' \<and> list_mem m' l ns' (bs @ new) (leaked @ fr) \<and>
    map b_car new = cs \<and> map b_car leaked = rev cs"
  using assms
proof (induction cs arbitrary: pre m ns bs fr)
  case Nil
  then show ?case
    by (subst cars_adopt.simps) (auto intro!: exI[of _ ns] exI[of _ "[] :: block list"])
next
  case (Cons c cs)
  let ?m1 = "with_car c m" and ?b = "(m_brk m, Suc (m_brk m), c)"
  have create: "data_create_car c m = Some (Some (m_brk m), ?m1)"
    using Cons.prems by (intro data_create_ok) simp_all
  have mem1: "list_mem ?m1 l ns bs (?b # fr)" and wf1: "mem_wf ?m1"
    using list_mem_new_local[OF Cons.prems(1,2)] mem_wf_with_car[OF Cons.prems(2)] by simp_all
  have granted1: "all_granted ?m1" using Cons.prems(3) by (simp add: all_granted_def)
  have year1: "ano_atual ?m1 = ano_atual m" by (simp add: ano_atual_def)
  have "car_valid (ano_atual ?m1) c" "length bs < 2147483647" using Cons.prems(4,5) year1 by simp_all
  from list_add_ok[OF mem1 wf1 car_at_with_car this(1) all_granted_blocks(2)[OF granted1] this(2)]
  obtain m2 b where add: "list_add (Some l) (Some (m_brk m)) ?m1 = Some (0, m2)" "mem_wf m2"
    "env_same ?m1 m2" "list_mem m2 l (ns @ [m_brk ?m1]) (bs @ [b]) (?b # fr)" "b_car b = c"
    by blast
  have "all_granted m2" "\<forall>c \<in> set cs. car_valid (ano_atual m2) c"
    using all_granted_env[OF add(3)] granted1 env_same_ano_atual[OF add(3)] year1 Cons.prems(4) by simp_all
  moreover have "length (bs @ [b]) + length cs < 2147483647" using Cons.prems(5) by simp
  ultimately obtain m' ns' new leaked where
    rest: "cars_adopt (length (pre @ [c])) (length ((pre @ [c]) @ cs))
        (map (Some \<circ> Some \<circ> pdata_of) ((pre @ [c]) @ cs)) (Some l) m2 = Some (0, m')" "mem_wf m'"
      "list_mem m' l ns' ((bs @ [b]) @ new) (leaked @ ?b # fr)" "map b_car new = cs" "map b_car leaked = rev cs"
    using Cons.IH[OF add(4,2), of "pre @ [c]"] by blast
  have get: "arr_get (length pre) (map (Some \<circ> Some \<circ> pdata_of) (pre @ c # cs)) = Some (Some (pdata_of c))"
    by (simp add: arr_get_def nth_append)
  have "cars_adopt (length pre) (length (pre @ c # cs)) (map (Some \<circ> Some \<circ> pdata_of) (pre @ c # cs)) (Some l) m
      = Some (0, m')"
    using rest(1) create add(1) get by (subst cars_adopt.simps) simp
  moreover have "list_mem m' l ns' (bs @ (b # new)) ((leaked @ [?b]) @ fr)" "map b_car (b # new) = c # cs"
    "map b_car (leaked @ [?b]) = rev (c # cs)"
    using rest(3-5) add(5) by simp_all
  ultimately show ?case using rest(2)
    by - (rule exI[of _ m'], rule exI[of _ ns'], rule exI[of _ "b # new"], rule exI[of _ "leaked @ [?b]"],
      intro conjI)
qed

text \<open>C31: A server that starts copies the list of its predecessor completely and in order, with
  nodes and blocks of its own, when the answer is the list reply of the service; and every car that
  was created for \<open>list_add\<close>, which copies it, stays allocated and unreachable: one block
  and one string are lost per copied car.\<close>

theorem adopt_copies_and_leaks:
  assumes "list_mem m l ns bs []" "mem_wf m" "all_granted m" "\<forall>c \<in> set cs. car_valid (ano_atual m) c"
    and "length bs + length cs < 2147483647"
    and "network_send_receive cd (Some rl) (Some (message_t_init\<lparr>msg_opcode := OP_GETLISTBYTEAR,
        msg_c_type := CT_RESULT, msg_result := -1\<rparr>)) s m =
      Some (Some (cars_reply (message_t_init\<lparr>msg_opcode := OP_GETLISTBYTEAR\<rparr>) cs), s1, m1)"
  shows "\<exists>m' ns' new leaked. rlist_get_list_add cd (Some rl) (Some l) s m = Some (0, s1, m') \<and>
    list_mem m' l ns' (bs @ new) leaked \<and> map b_car new = cs \<and> map b_car leaked = rev cs"
proof -
  have same: "same_blocks m m1" by (rule network_send_receive_same[OF assms(6)])
  have ok: "op_success (Some (cars_reply (message_t_init\<lparr>msg_opcode := OP_GETLISTBYTEAR\<rparr>) cs)) OP_GETLISTBYTEAR CT_LIST"
    by (simp add: op_success_def cars_reply_def reply_ok_def)
  have "list_mem m1 l ns bs []" "mem_wf m1" "all_granted m1" "ano_atual m1 = ano_atual m"
    using assms(1-3) same by (simp_all add: list_mem_same same_blocks_wf ano_atual_same
        all_granted_env[OF same_blocks_env[OF same]])
  with cars_adopt_ok[of m1 l ns bs "[]" cs "[]"] assms(4,5) obtain m' ns' new leaked where
    "cars_adopt 0 (length cs) (map (Some \<circ> Some \<circ> pdata_of) cs) (Some l) m1 = Some (0, m')"
    "list_mem m' l ns' (bs @ new) leaked" "map b_car new = cs" "map b_car leaked = rev cs"
    by auto
  moreover have "msg_cars (cars_reply req cs) = Some (map (Some \<circ> Some \<circ> pdata_of) cs)"
    "msg_n_cars (cars_reply req cs) = length cs" for req
    by (simp_all add: cars_reply_def reply_ok_def)
  moreover have "list_mem m1 l ns bs []" by fact
  ultimately show ?thesis
    using assms(6) ok by (cases "cs = []") (auto simp: rlist_get_list_add_def)
qed

text \<open>A codec under which a reply of two bytes is the list of two cars.\<close>

definition cars_codec :: codec where
  "cars_codec = \<lparr>cd_pack = (\<lambda>_. Some [60, 50]),
     cd_unpack = (\<lambda>_. Some (cars_reply (message_t_init\<lparr>msg_opcode := OP_GETLISTBYTEAR\<rparr>) [yaris, m3]))\<rparr>"

theorem adopt_copies_and_leaks_witness:
  "\<exists>m' s' ns' new leaked. rlist_get_list_add cars_codec
       (Some \<lparr>server_address = ''10.0.0.2'', server_port = 5000, sockfd = 4\<rparr>) (Some 0)
       (chunk_conn [0, 2, 61, 60]) two_cars = Some (0, s', m') \<and>
     list_mem m' 0 ns' ([(2, 3, yaris), (5, 6, m3)] @ new) leaked \<and>
     map b_car new = [yaris, m3] \<and> map b_car leaked = [m3, yaris]"
proof -
  let ?req = "message_t_init\<lparr>msg_opcode := OP_GETLISTBYTEAR, msg_c_type := CT_RESULT, msg_result := -1\<rparr>"
  let ?rl = "\<lparr>server_address = ''10.0.0.2'', server_port = 5000, sockfd = 4\<rparr> :: rlist_t"
  have "has_room (chunk_conn [0, 2, 61, 60]) (length (frame [60, 50]) + 0)"
    by (rule chunk_conn_room) (simp add: frame_pair)
  moreover have "incoming (chunk_conn [0, 2, 61, 60]) (frame [61, 60] @ []) []"
    using chunk_conn_incoming[of "[0, 2, 61, 60]"] by (simp add: frame_pair)
  ultimately obtain s' where
    "network_send_receive cars_codec (Some ?rl) (Some ?req) (chunk_conn [0, 2, 61, 60]) two_cars =
       Some (cd_unpack cars_codec [61, 60], s', two_cars\<lparr>m_brk := m_brk two_cars + 2\<rparr>)"
    using network_send_receive_ok[of ?rl cars_codec ?req "[60, 50]" "chunk_conn [0, 2, 61, 60]" 0 "[61, 60]"
        "[]" "[]" two_cars]
    by (auto simp: packs_def cars_codec_def)
  then have "network_send_receive cars_codec (Some ?rl) (Some ?req) (chunk_conn [0, 2, 61, 60]) two_cars =
      Some (Some (cars_reply (message_t_init\<lparr>msg_opcode := OP_GETLISTBYTEAR\<rparr>) [yaris, m3]), s',
        two_cars\<lparr>m_brk := m_brk two_cars + 2\<rparr>)"
    by (simp add: cars_codec_def)
  moreover have "\<forall>c \<in> set [yaris, m3]. car_valid (ano_atual two_cars) c"
    "length [(2 :: nat, 3 :: nat, yaris), (5, 6, m3)] + length [yaris, m3] < 2147483647" by simp_all
  moreover have "rev [yaris, m3] = [m3, yaris]" by simp
  ultimately show ?thesis
    using adopt_copies_and_leaks[OF two_cars_list two_cars_wf two_cars_granted] by metis
qed

end
