(* ===== verification/Chain.thy ===== *)
theory Chain
  imports Session ChainLinks
begin

text \<open>
  The chain of servers: requests that write travel from the head to the tail, every server applying
  them after its successor answered.  A chain is the list of its servers, head first; the exchange
  over the network between two of them is replaced by the successor's own handling of the message,
  which is what \<open>Session\<close> and \<open>NetFrame\<close> show of it.  The abstract chain is the list of what its
  servers hold, each with the year of its clock.
\<close>

section \<open>The composition\<close>

definition chain_local ::
  "MessageT \<Rightarrow> server \<times> server list \<Rightarrow> (MessageT \<times> server \<times> server list) option" where
  "chain_local request st = do {
     (reply, sv) \<leftarrow> apply_local request (fst st);
     Some (reply, sv, snd st)
   }"

fun chain_handle :: "MessageT \<Rightarrow> server list \<Rightarrow> (MessageT \<times> server list) option" where
  "chain_handle request [] = None"
| "chain_handle request (sv # rest) = do {
     (reply, sv', rest') \<leftarrow> handle_with
       (\<lambda>request st. if rest = [] then Some (-2, st)
          else do { (resp, rest') \<leftarrow> chain_handle request rest; Some (0, fst st, rest') })
       chain_local request (sv, rest);
     Some (reply, sv' # rest')
   }"

section \<open>The abstract chain\<close>

type_synonym replica = "i32 \<times> car list"

fun chain_spec :: "MessageT \<Rightarrow> replica list \<Rightarrow> MessageT \<times> replica list" where
  "chain_spec request [] = (request, [])"
| "chain_spec request ((year, xs) # rest) =
     (let (reply, xs') = tail_spec year request xs
      in (reply, (year, xs') # (if needs_forward request then snd (chain_spec request rest) else rest)))"

definition replica_rel :: "addr \<Rightarrow> server \<Rightarrow> replica \<Rightarrow> bool" where
  "replica_rel l sv r \<longleftrightarrow> serve_rel l (fst r) (sv_mem sv) (snd r) \<and> sv_list sv = Some l"

definition chain_rel :: "addr \<Rightarrow> server list \<Rightarrow> replica list \<Rightarrow> bool" where
  "chain_rel l svs rs \<longleftrightarrow> svs \<noteq> [] \<and> list_all2 (replica_rel l) svs rs"

definition chain_ok :: "MessageT \<Rightarrow> replica list \<Rightarrow> bool" where
  "chain_ok msg rs \<longleftrightarrow> list_all (\<lambda>r. serve_ok msg (snd r)) rs"

lemma chain_local_ok:
  assumes "replica_rel l sv (year, xs)" "serve_ok msg xs"
  shows "\<exists>sv'. chain_local msg (sv, rest) = Some (fst (tail_spec year msg xs), sv', rest) \<and>
    replica_rel l sv' (year, snd (tail_spec year msg xs))"
  using apply_local_ok[of l year sv xs msg] assms by (auto simp: replica_rel_def chain_local_def)

lemma chain_handle_ok:
  assumes "chain_rel l svs rs" "chain_ok msg rs"
  shows "\<exists>svs'. chain_handle msg svs = Some (fst (chain_spec msg rs), svs') \<and>
    chain_rel l svs' (snd (chain_spec msg rs))"
  using assms
proof (induction svs arbitrary: rs)
  case Nil
  then show ?case by (simp add: chain_rel_def)
next
  case (Cons sv svs)
  then obtain year xs rest where rs: "rs = (year, xs) # rest" and head: "replica_rel l sv (year, xs)"
    and all: "list_all2 (replica_rel l) svs rest" "serve_ok msg xs" "chain_ok msg rest"
    by (cases rs) (auto simp: chain_rel_def chain_ok_def)
  show ?case
  proof (cases "needs_forward msg \<and> svs \<noteq> []")
    case True
    then have "chain_rel l svs rest" using all(1) by (simp add: chain_rel_def)
    from Cons.IH[OF this all(3)] obtain svs' where
      "chain_handle msg svs = Some (fst (chain_spec msg rest), svs')" "chain_rel l svs' (snd (chain_spec msg rest))"
      by blast
    with True chain_local_ok[OF head all(2), of svs'] rs show ?thesis
      by (auto simp: handle_with_def chain_rel_def split: prod.splits)
  next
    case False
    with chain_local_ok[OF head all(2), of svs] rs all(1) show ?thesis
      by (auto simp: handle_with_def chain_rel_def split: prod.splits)
  qed
qed

interpretation chain: simulation "chain_rel l" chain_handle chain_spec chain_ok for l
  by unfold_locales (rule chain_handle_ok)

section \<open>Chains whose servers agree\<close>

definition agreeing :: "nat \<Rightarrow> i32 \<Rightarrow> car list \<Rightarrow> replica list" where
  "agreeing n year xs = replicate (Suc n) (year, xs)"

lemma chain_spec_agreeing:
  assumes "needs_forward msg"
  shows "chain_spec msg (agreeing n year xs) =
    (fst (tail_spec year msg xs), agreeing n year (snd (tail_spec year msg xs)))"
proof (induction n)
  case 0
  then show ?case by (simp add: agreeing_def assms split: prod.splits)
next
  case (Suc n)
  have "agreeing (Suc n) year xs = (year, xs) # agreeing n year xs" for xs by (simp add: agreeing_def)
  with Suc show ?case by (simp add: assms split: prod.splits)
qed

lemma chain_run_agreeing:
  assumes "list_all needs_forward msgs"
  shows "run_spec chain_spec msgs (agreeing n year xs) =
    (fst (run_spec (tail_spec year) msgs xs), agreeing n year (snd (run_spec (tail_spec year) msgs xs)))"
  using assms
proof (induction msgs arbitrary: xs)
  case (Cons msg msgs)
  then show ?case by (auto simp: chain_spec_agreeing Let_def split: prod.splits)
qed simp

lemma chain_run_ok_agreeing:
  assumes "list_all needs_forward msgs" "run_ok (tail_spec year) serve_ok msgs xs"
  shows "run_ok chain_spec chain_ok msgs (agreeing n year xs)"
  using assms
proof (induction msgs arbitrary: xs)
  case (Cons msg msgs)
  then show ?case by (simp add: chain_spec_agreeing) (simp add: chain_ok_def agreeing_def list_all_iff)
qed simp

section \<open>Properties\<close>

lemma chain_rel_agreeing:
  "svs \<noteq> [] \<Longrightarrow> list_all (\<lambda>sv. replica_rel l sv (year, xs)) svs \<Longrightarrow>
     chain_rel l svs (agreeing (length svs - 1) year xs)"
  by (auto simp: chain_rel_def agreeing_def list_all2_conv_all_nth list_all_length simp del: replicate.simps)

text \<open>C7: the replicas stay equal under writes.  On a chain of any length whose servers hold the
  same list and whose clocks show the same year, any run of requests that are forwarded (adds,
  deletes, orders) sent to the head is answered as by a single server, and afterwards every server
  holds the list that a single server would hold.\<close>

theorem replicas_agree:
  assumes "svs \<noteq> []" "list_all (\<lambda>sv. replica_rel l sv (year, xs)) svs" "list_all needs_forward msgs"
    and "run_ok (tail_spec year) serve_ok msgs xs"
  shows "\<exists>svs'. run_steps chain_handle msgs svs = Some (fst (run_spec (tail_spec year) msgs xs), svs') \<and>
    length svs' = length svs \<and>
    list_all (\<lambda>sv. list_is (sv_mem sv) l (snd (run_spec (tail_spec year) msgs xs))) svs'"
proof -
  let ?n = "length svs - 1"
  obtain svs' where "run_steps chain_handle msgs svs = Some (fst (run_spec (tail_spec year) msgs xs), svs')"
    and rel: "chain_rel l svs' (agreeing ?n year (snd (run_spec (tail_spec year) msgs xs)))"
    using chain.sim_run[OF chain_rel_agreeing[OF assms(1,2)] chain_run_ok_agreeing[OF assms(3,4)]]
      chain_run_agreeing[OF assms(3)] by auto
  moreover have "length svs' = length svs"
    using rel assms(1) by (auto simp: chain_rel_def agreeing_def dest: list_all2_lengthD)
  moreover have "list_all (\<lambda>sv. list_is (sv_mem sv) l (snd (run_spec (tail_spec year) msgs xs))) svs'"
    using rel by (auto simp: chain_rel_def agreeing_def list_all2_conv_all_nth list_all_length replica_rel_def
        serve_rel_def simp del: replicate.simps)
  ultimately show ?thesis by blast
qed

lemma demo_replica [simp]: "replica_rel 0 demo_server (2025, [yaris, m3])"
  by (simp add: replica_rel_def) (simp add: demo_server_def)

lemma request_forwarded [simp]: "needs_forward (del_request s)" "needs_forward (add_request c)"
  by (simp_all add: needs_forward_def)

lemma tail_spec_requests [simp]:
  "snd (tail_spec y (del_request s) xs) = remove_first (\<lambda>c. c_modelo c = s) xs"
  "car_valid y c \<Longrightarrow> snd (tail_spec y (add_request c) xs) = xs @ [c]"
  by (simp_all add: tail_spec_def spec_del spec_add)

theorem replicas_agree_witness:
  "\<exists>out svs'. run_steps chain_handle [del_request ''Yaris'', add_request yaris]
       [demo_server, demo_server, demo_server] = Some (out, svs') \<and>
     length svs' = 3 \<and> list_all (\<lambda>sv. list_is (sv_mem sv) 0 [m3, yaris]) svs'"
proof -
  let ?msgs = "[del_request ''Yaris'', add_request yaris]"
  have "run_ok (tail_spec 2025) serve_ok ?msgs [yaris, m3]"
    by (simp add: serve_ok_def)
  moreover have "snd (run_spec (tail_spec 2025) ?msgs [yaris, m3]) = [m3, yaris]"
    by (simp add: Let_def case_prod_beta)
  ultimately show ?thesis
    using replicas_agree[of "[demo_server, demo_server, demo_server]" 0 2025 "[yaris, m3]" ?msgs]
    by auto
qed

text \<open>The list request for all years, as clients and starting servers send it.\<close>

definition sort_request :: MessageT where
  "sort_request = message_t_init\<lparr>msg_opcode := OP_GETLISTBYTEAR, msg_c_type := CT_RESULT, msg_result := -1\<rparr>"

lemma sort_request_simps:
  "\<not> needs_forward sort_request" "msg_ok sort_request"
  "snd (tail_spec y sort_request xs) = by_year xs"
  by (simp_all add: sort_request_def needs_forward_def msg_ok_def message_t_init_def tail_spec_def
      skel_step_def step_getlist_def)

text \<open>C37: A read can make the replicas diverge.  The list request for all years sorts the list of
  the one server that answers it and is not forwarded.  If head and tail hold two cars of one model,
  the newer one first, and the tail answers such a request, then deleting the model through the head
  removes the newer car from the head and the older one from the tail.\<close>

theorem sorting_read_diverges:
  assumes "replica_rel l sv1 (year, [a, b])" "replica_rel l sv2 (year, [a, b])"
    and "c_modelo a = s" "c_modelo b = s" "sint (c_ano b) < sint (c_ano a)"
  shows "\<exists>reply1 sv2' reply2 sv1' sv2''. chain_handle sort_request [sv2] = Some (reply1, [sv2']) \<and>
    chain_handle (del_request s) [sv1, sv2'] = Some (reply2, [sv1', sv2'']) \<and>
    list_is (sv_mem sv1') l [b] \<and> list_is (sv_mem sv2'') l [a]"
proof -
  have ok: "serve_ok sort_request [a, b]" "serve_ok (del_request s) [a, b]" "serve_ok (del_request s) [b, a]"
    by (simp_all add: serve_ok_def sort_request_simps)
  have "chain_rel l [sv2] [(year, [a, b])]" "chain_ok sort_request [(year, [a, b])]"
    using assms(2) ok by (simp_all add: chain_rel_def chain_ok_def)
  from chain_handle_ok[OF this] obtain svs where
    one: "chain_handle sort_request [sv2] = Some (fst (chain_spec sort_request [(year, [a, b])]), svs)"
      "chain_rel l svs (snd (chain_spec sort_request [(year, [a, b])]))" by blast
  have "snd (chain_spec sort_request [(year, [a, b])]) = [(year, [b, a])]"
    using assms(5) sort_request_simps(3)[of year "[a, b]"] by (auto simp: sort_request_simps(1) split: prod.splits)
  with one(2) obtain sv2' where sv2': "svs = [sv2']" "replica_rel l sv2' (year, [b, a])"
    by (auto simp: chain_rel_def list_all2_Cons2)
  have "chain_rel l [sv1, sv2'] [(year, [a, b]), (year, [b, a])]"
    "chain_ok (del_request s) [(year, [a, b]), (year, [b, a])]"
    using assms(1) sv2'(2) ok by (simp_all add: chain_rel_def chain_ok_def)
  from chain_handle_ok[OF this] obtain svs' where
    two: "chain_handle (del_request s) [sv1, sv2'] =
        Some (fst (chain_spec (del_request s) [(year, [a, b]), (year, [b, a])]), svs')"
      "chain_rel l svs' (snd (chain_spec (del_request s) [(year, [a, b]), (year, [b, a])]))" by blast
  have "snd (chain_spec (del_request s) [(year, [a, b]), (year, [b, a])]) = [(year, [b]), (year, [a])]"
    using assms(3,4) tail_spec_requests(1)[of year s] by (auto simp: case_prod_beta Let_def)
  with two(2) obtain sv1' sv2'' where "svs' = [sv1', sv2'']" "list_is (sv_mem sv1') l [b]" "list_is (sv_mem sv2'') l [a]"
    by (auto simp: chain_rel_def list_all2_Cons2 replica_rel_def serve_rel_def)
  with one(1) two(1) sv2'(1) show ?thesis by blast
qed

text \<open>Two cars of one model, 2020 and 1999.\<close>

definition old_yaris :: car where
  "old_yaris = yaris\<lparr>c_ano := 1999\<rparr>"

definition twin_server :: server where
  "twin_server = demo_server\<lparr>sv_mem := two_cars\<lparr>m_strs := [3 \<mapsto> ''Yaris'', 6 \<mapsto> ''Yaris''],
     m_datas := [2 \<mapsto> block_of yaris 3, 5 \<mapsto> block_of old_yaris 6]\<rparr>\<rparr>"

lemma twin_replica: "replica_rel 0 twin_server (2025, [yaris, old_yaris])"
proof -
  have "list_mem (sv_mem twin_server) 0 [1, 4] [(2, 3, yaris), (5, 6, old_yaris)] []" "mem_wf (sv_mem twin_server)"
    by (auto simp: twin_server_def list_mem_def blocks_def car_at_def two_cars_def old_yaris_def mem_wf_def)
  then have "list_is (sv_mem twin_server) 0 [yaris, old_yaris]" by (intro list_isI) auto
  then show ?thesis
    by (simp add: replica_rel_def serve_rel_def)
      (simp add: twin_server_def demo_server_def all_granted_def two_cars_def ano_atual_def)
qed

theorem sorting_read_diverges_witness:
  "\<exists>reply1 sv2' reply2 sv1' sv2''. chain_handle sort_request [twin_server] = Some (reply1, [sv2']) \<and>
    chain_handle (del_request ''Yaris'') [twin_server, sv2'] = Some (reply2, [sv1', sv2'']) \<and>
    list_is (sv_mem sv1') 0 [old_yaris] \<and> list_is (sv_mem sv2'') 0 [yaris]"
  by (rule sorting_read_diverges[OF twin_replica twin_replica]) (simp_all add: old_yaris_def)

text \<open>A write that the successor rejects is applied all the same.  If the clock of the tail is
  behind, so that it rejects a car that is valid for the head, the head takes the error reply for
  success: it adds the car, tells the client so, and the tail never has it.\<close>

theorem rejected_write_diverges:
  assumes "replica_rel l sv1 (y1, xs)" "replica_rel l sv2 (y2, xs)" "car_valid y1 c" "\<not> car_valid y2 c"
    and "length xs < 2147483647"
  shows "\<exists>reply sv1' sv2'. chain_handle (add_request c) [sv1, sv2] = Some (reply, [sv1', sv2']) \<and>
    msg_opcode reply = OP_ADD + 1 \<and> list_is (sv_mem sv1') l (xs @ [c]) \<and> list_is (sv_mem sv2') l xs"
proof -
  let ?rs = "[(y1, xs), (y2, xs)]"
  have "chain_rel l [sv1, sv2] ?rs" "chain_ok (add_request c) ?rs"
    using assms(1,2,5) by (simp_all add: chain_rel_def chain_ok_def serve_ok_def)
  from chain_handle_ok[OF this] obtain svs' where
    run: "chain_handle (add_request c) [sv1, sv2] = Some (fst (chain_spec (add_request c) ?rs), svs')"
      "chain_rel l svs' (snd (chain_spec (add_request c) ?rs))" by blast
  have rejected: "snd (tail_spec y2 (add_request c) xs) = xs"
    using assms(4) by (simp add: tail_spec_def skel_step_def step_add_def) (simp add: add_request_def)
  have accepted: "msg_opcode (fst (tail_spec y1 (add_request c) xs)) = OP_ADD + 1"
    using assms(3) by (simp add: tail_spec_def spec_add reply_ok_def)
  have "snd (chain_spec (add_request c) ?rs) = [(y1, xs @ [c]), (y2, xs)]"
    using rejected assms(3) by (simp add: case_prod_beta Let_def)
  with run(2) obtain sv1' sv2' where "svs' = [sv1', sv2']" "list_is (sv_mem sv1') l (xs @ [c])" "list_is (sv_mem sv2') l xs"
    by (auto simp: chain_rel_def list_all2_Cons2 replica_rel_def serve_rel_def)
  moreover have "fst (chain_spec (add_request c) ?rs) = fst (tail_spec y1 (add_request c) xs)"
    by (simp add: case_prod_beta Let_def)
  ultimately show ?thesis using run(1) accepted by auto
qed

text \<open>A server whose clock is one year behind.\<close>

definition late_server :: server where
  "late_server = demo_server\<lparr>sv_mem := two_cars\<lparr>m_tm_year := 124\<rparr>\<rparr>"

lemma late_replica: "replica_rel 0 late_server (2024, [yaris, m3])"
proof -
  have "list_mem (sv_mem late_server) 0 [1, 4] [(2, 3, yaris), (5, 6, m3)] []" "mem_wf (sv_mem late_server)"
    using two_cars_list two_cars_wf by (simp_all add: late_server_def list_mem_def blocks_def car_at_def mem_wf_def)
  then have "list_is (sv_mem late_server) 0 [yaris, m3]" by (intro list_isI) auto
  then show ?thesis
    by (simp add: replica_rel_def serve_rel_def)
      (simp add: late_server_def demo_server_def all_granted_def two_cars_def ano_atual_def)
qed

theorem rejected_write_diverges_witness:
  "\<exists>reply sv1' sv2'. chain_handle (add_request (yaris\<lparr>c_ano := 2025\<rparr>)) [demo_server, late_server] =
       Some (reply, [sv1', sv2']) \<and> msg_opcode reply = 11 \<and>
     list_is (sv_mem sv1') 0 ([yaris, m3] @ [yaris\<lparr>c_ano := 2025\<rparr>]) \<and> list_is (sv_mem sv2') 0 [yaris, m3]"
proof -
  have "car_valid 2025 (yaris\<lparr>c_ano := 2025\<rparr>)" "\<not> car_valid 2024 (yaris\<lparr>c_ano := 2025\<rparr>)"
    by (simp_all add: car_valid_def yaris_def float_lt_zero_def)
  from rejected_write_diverges[OF demo_replica late_replica this] show ?thesis by simp
qed

end
