(* ===== verification/ChainClient.thy ===== *)
theory ChainClient
  imports ChainLinks
begin

text \<open>
  \<open>source/chain_client.c\<close>: the client's view of the chain.  It keeps one connection to the head
  (the registered server with the least number), where its writes go, and one to the tail (the
  greatest number), where its reads go, and chooses both again at every change of the children of
  \<open>/chain\<close>.  The theory shows that its ends are the ends of the chain the servers form.
\<close>

section \<open>The state\<close>

text \<open>
  \<open>zh\<close> is not reset when it is closed.  \<open>remote_list_head\<close> and
  \<open>remote_list_tail\<close> point at the two connections; each has its own end of a stream.
\<close>

datatype zhandle = NoHandle | LiveHandle | ClosedHandle

record client_chain =
  cc_zh :: zhandle
  list_head :: "rlist_t option"
  head_conn :: conn
  list_tail :: "rlist_t option"
  tail_conn :: conn

definition client_connection_watcher :: "bool \<Rightarrow> bool \<Rightarrow> bool \<Rightarrow> bool" where
  "client_connection_watcher session_event connected is_connected =
     (if session_event then (if connected then True else False) else is_connected)"

section \<open>One connection\<close>

text \<open>
  The path is built in 1024 bytes and the data read into 1 MiB without a check: longer ones
  overflow.  The result of closing the old connection is only printed.
\<close>

definition update_remote_list ::
  "codec \<Rightarrow> dialer \<Rightarrow> (string \<Rightarrow> conn) \<Rightarrow> zoo \<Rightarrow> string \<Rightarrow> rlist_t option \<times> conn \<Rightarrow> mem \<Rightarrow>
     ((rlist_t option \<times> conn) \<times> mem) option" where
  "update_remote_list cd os peers zk path end0 m =
     (if 1024 \<le> length (''/chain/'' @ path) then None
      else case zk_get zk (''/chain/'' @ path) of
          None \<Rightarrow> Some (end0, m)
        | Some data \<Rightarrow> do {
            data \<leftarrow> data;
            if 1048576 \<le> length data then None
            else do {
              let buffer = first_line data;
              (rl, s, m1) \<leftarrow> rlist_connect cd os (Some buffer) (peers buffer) m;
              Some ((rl, s), m1)
            }
          })"

section \<open>Choosing the ends\<close>

text \<open>The loop of \<open>update\<close>: the least and the greatest number so far, with their indices.\<close>

fun ends_scan :: "nat \<Rightarrow> string list \<Rightarrow> (i32 \<times> nat) \<times> (i32 \<times> nat) \<Rightarrow> (i32 \<times> nat) \<times> (i32 \<times> nat)" where
  "ends_scan i [] best = best"
| "ends_scan i (c # cs) ((least, minIndex), (greatest, maxIndex)) =
     (case node_number c of
        None \<Rightarrow> ends_scan (Suc i) cs ((least, minIndex), (greatest, maxIndex))
      | Some num \<Rightarrow> ends_scan (Suc i) cs
          (if sint num < sint least then (num, i) else (least, minIndex),
           if sint greatest < sint num then (num, i) else (greatest, maxIndex)))"

definition client_update ::
  "codec \<Rightarrow> dialer \<Rightarrow> (string \<Rightarrow> conn) \<Rightarrow> (string \<Rightarrow> conn) \<Rightarrow> zoo \<Rightarrow> string list \<Rightarrow> client_chain \<Rightarrow> mem \<Rightarrow>
     (client_chain \<times> mem) option" where
  "client_update cd os head_peers tail_peers zk children cc m =
     (if length children = 0 then Some (cc, m)
      else let ((least, minIndex), (greatest, maxIndex)) =
             ends_scan 0 children ((INT_MAX, 0), (INT_MIN, 0))
      in do {
        ((rlh, hs), m1) \<leftarrow> update_remote_list cd os head_peers zk (children ! minIndex)
          (list_head cc, head_conn cc) m;
        ((rlt, ts), m2) \<leftarrow> update_remote_list cd os tail_peers zk (children ! maxIndex)
          (list_tail cc, tail_conn cc) m1;
        Some (cc\<lparr>list_head := rlh, head_conn := hs, list_tail := rlt, tail_conn := ts\<rparr>, m2)
      })"

definition client_child_watcher ::
  "codec \<Rightarrow> dialer \<Rightarrow> (string \<Rightarrow> conn) \<Rightarrow> (string \<Rightarrow> conn) \<Rightarrow> zoo \<Rightarrow> bool \<Rightarrow> bool \<Rightarrow> client_chain \<Rightarrow> mem \<Rightarrow>
     (client_chain \<times> mem) option" where
  "client_child_watcher cd os head_peers tail_peers zk connected child_event cc m =
     (if connected \<and> child_event then
        case zk_children zk of
          None \<Rightarrow> Some (cc, m)
        | Some children \<Rightarrow> client_update cd os head_peers tail_peers zk children cc m
      else Some (cc, m))"

section \<open>Starting and stopping\<close>

text \<open>\<open>errno\<close> is what the last call on the connection to the tail left.\<close>

definition zoo_init_client ::
  "codec \<Rightarrow> dialer \<Rightarrow> (string \<Rightarrow> conn) \<Rightarrow> (string \<Rightarrow> conn) \<Rightarrow> zoo \<Rightarrow> string option \<Rightarrow> client_chain \<Rightarrow> mem \<Rightarrow>
     (int \<times> client_chain \<times> mem) option" where
  "zoo_init_client cd os head_peers tail_peers zk hp cc m =
     (if hp = None then Some (-1, cc, m)
      else if \<not> zk_connects zk then Some (-1, cc\<lparr>cc_zh := NoHandle\<rparr>, m)
      else let cc1 = cc\<lparr>cc_zh := LiveHandle\<rparr>
      in if \<not> zk_root_exists zk \<and> \<not> zk_root_created zk then Some (-1, cc1, m)
      else (case zk_children zk of
          None \<Rightarrow> Some (-1, cc1, m)
        | Some children \<Rightarrow> do {
            (cc2, m1) \<leftarrow> client_update cd os head_peers tail_peers zk children cc1 m;
            Some (if list_head cc2 = None \<or> list_tail cc2 = None \<or> k_errno (tail_conn cc2) = EBUSY
                  then -1 else 1, cc2, m1)
          }))"

definition zoo_clean_client :: "client_chain \<Rightarrow> client_chain option" where
  "zoo_clean_client cc =
     (case cc_zh cc of
        NoHandle \<Rightarrow> Some cc
      | LiveHandle \<Rightarrow> Some (cc\<lparr>cc_zh := ClosedHandle\<rparr>)
      | ClosedHandle \<Rightarrow> None)"

section \<open>The ends are the ends of the chain\<close>

lemma ends_scan_ok:
  assumes "ends_scan i cs ((a, ia), (b, ib)) = ((least, li), (greatest, gi))"
  shows "(least = a \<and> li = ia \<or> (\<exists>n < length cs. li = i + n \<and> node_number (cs ! n) = Some least \<and> sint least < sint a)) \<and>
    (greatest = b \<and> gi = ib \<or> (\<exists>n < length cs. gi = i + n \<and> node_number (cs ! n) = Some greatest \<and> sint b < sint greatest)) \<and>
    (\<forall>c \<in> set cs. \<forall>k. node_number c = Some k \<longrightarrow> sint least \<le> sint k \<and> sint k \<le> sint greatest) \<and>
    sint least \<le> sint a \<and> sint b \<le> sint greatest"
  using assms
proof (induction cs arbitrary: i a ia b ib)
  case (Cons c cs)
  have later: "\<exists>n < length (c # cs). l = i + n \<and> P ((c # cs) ! n)"
    if "\<exists>n < length cs. l = Suc i + n \<and> P (cs ! n)" for l P
    using that by (metis Suc_less_eq add_Suc_shift length_Cons nth_Cons_Suc)
  have here: "\<exists>n < length (c # cs). i = i + n \<and> P ((c # cs) ! n)" if "P c" for P
    using that by (intro exI[of _ 0]) simp
  show ?case
  proof (cases "node_number c")
    case None
    with Cons.prems have "ends_scan (Suc i) cs ((a, ia), (b, ib)) = ((least, li), (greatest, gi))" by simp
    from Cons.IH[OF this] None show ?thesis
      using later[of li "\<lambda>c. node_number c = Some least \<and> sint least < sint a"]
        later[of gi "\<lambda>c. node_number c = Some greatest \<and> sint b < sint greatest"] by auto
  next
    case (Some num)
    define a' ia' b' ib' where new: "a' = (if sint num < sint a then num else a)"
      "ia' = (if sint num < sint a then i else ia)" "b' = (if sint b < sint num then num else b)"
      "ib' = (if sint b < sint num then i else ib)"
    have "ends_scan (Suc i) cs ((a', ia'), (b', ib')) = ((least, li), (greatest, gi))"
      using Cons.prems Some by (auto simp: new split: if_splits)
    note IH = Cons.IH[OF this]
    have ab: "sint a' \<le> sint num" "sint a' \<le> sint a" "sint num \<le> sint b'" "sint b \<le> sint b'"
      by (auto simp: new)
    have "least = a \<and> li = ia \<or>
        (\<exists>n < length (c # cs). li = i + n \<and> node_number ((c # cs) ! n) = Some least \<and> sint least < sint a)"
      using IH Some later[of li "\<lambda>c. node_number c = Some least \<and> sint least < sint a"]
        here[of "\<lambda>c. node_number c = Some least \<and> sint least < sint a"]
      by (auto simp: new split: if_splits)
    moreover have "greatest = b \<and> gi = ib \<or>
        (\<exists>n < length (c # cs). gi = i + n \<and> node_number ((c # cs) ! n) = Some greatest \<and> sint b < sint greatest)"
      using IH Some later[of gi "\<lambda>c. node_number c = Some greatest \<and> sint b < sint greatest"]
        here[of "\<lambda>c. node_number c = Some greatest \<and> sint b < sint greatest"]
      by (auto simp: new split: if_splits)
    ultimately show ?thesis using IH ab Some by auto
  qed
qed simp

lemma next_scan_none:
  assumes "numbered cs"
  shows "(\<exists>n. next_scan (Some a) 0 cs (INT_MAX, -1) = Some (n, -1)) \<longleftrightarrow>
    (\<forall>c \<in> set cs. \<forall>k. node_number c = Some k \<longrightarrow> sint k \<le> sint a)"
proof -
  have below: "sint k < sint INT_MAX" if "c \<in> set cs" "node_number c = Some k" for c k
    using assms that by (auto simp: numbered_def list_all_iff)
  obtain n j where scan: "next_scan (Some a) 0 cs (INT_MAX, -1) = Some (n, j)"
    and j: "n = INT_MAX \<and> j = -1 \<or> 0 \<le> j \<and> nat j < length cs \<and> node_number (cs ! nat j) = Some n \<and> sint a < sint n"
    and least: "\<forall>c \<in> set cs. \<forall>k. node_number c = Some k \<longrightarrow> sint a < sint k \<longrightarrow> sint n \<le> sint k"
    using next_scan_ok[of a 0 cs INT_MAX "-1"] by auto
  have "j = -1 \<longleftrightarrow> (\<forall>c \<in> set cs. \<forall>k. node_number c = Some k \<longrightarrow> sint k \<le> sint a)"
    using j least below by (meson leD le_less_linear neg_0_le_iff_le nth_mem not_one_le_zero)
  with scan show ?thesis by auto
qed

lemma prev_scan_none:
  assumes "numbered cs"
  shows "(\<exists>n. prev_scan (Some a) 0 cs (INT_MIN, -1) = Some (n, -1)) \<longleftrightarrow>
    (\<forall>c \<in> set cs. \<forall>k. node_number c = Some k \<longrightarrow> sint a \<le> sint k)"
proof -
  have above: "sint INT_MIN < sint k" if "c \<in> set cs" "node_number c = Some k" for c k
    using assms that by (auto simp: numbered_def list_all_iff)
  obtain n j where scan: "prev_scan (Some a) 0 cs (INT_MIN, -1) = Some (n, j)"
    and j: "n = INT_MIN \<and> j = -1 \<or> 0 \<le> j \<and> nat j < length cs \<and> node_number (cs ! nat j) = Some n \<and> sint n < sint a"
    and greatest: "\<forall>c \<in> set cs. \<forall>k. node_number c = Some k \<longrightarrow> sint k < sint a \<longrightarrow> sint k \<le> sint n"
    using prev_scan_ok[of a 0 cs INT_MIN "-1"] by auto
  have "j = -1 \<longleftrightarrow> (\<forall>c \<in> set cs. \<forall>k. node_number c = Some k \<longrightarrow> sint a \<le> sint k)"
    using j greatest above by (meson leD le_less_linear neg_0_le_iff_le nth_mem not_one_le_zero)
  with scan show ?thesis by auto
qed

lemma ends_found:
  assumes "numbered cs" "cs \<noteq> []"
  obtains least i greatest j where "ends_scan 0 cs ((INT_MAX, 0), (INT_MIN, 0)) = ((least, i), (greatest, j))"
    "i < length cs" "node_number (cs ! i) = Some least" "j < length cs" "node_number (cs ! j) = Some greatest"
    "\<forall>c \<in> set cs. \<forall>k. node_number c = Some k \<longrightarrow> sint least \<le> sint k \<and> sint k \<le> sint greatest"
proof -
  obtain least i greatest j where scan: "ends_scan 0 cs ((INT_MAX, 0), (INT_MIN, 0)) = ((least, i), (greatest, j))"
    by (metis surj_pair)
  have all: "\<forall>c \<in> set cs. \<forall>k. node_number c = Some k \<longrightarrow> sint least \<le> sint k \<and> sint k \<le> sint greatest"
    using ends_scan_ok[OF scan] by blast
  have in_set: "hd cs \<in> set cs" using assms(2) by simp
  then obtain a where "node_number (hd cs) = Some a" "sint INT_MIN < sint a" "sint a < sint INT_MAX"
    using assms(1) by (auto simp: numbered_def list_all_iff split: option.splits)
  moreover from this(1) all in_set have "sint least \<le> sint a" "sint a \<le> sint greatest" by blast+
  ultimately have "sint least < sint INT_MAX" "sint INT_MIN < sint greatest" by linarith+
  then show ?thesis using that[OF scan] ends_scan_ok[OF scan] all by auto
qed

text \<open>C15: the client talks to the two ends of the chain.  The child it takes as head is the only
  registered server that finds no predecessor, the child it takes as tail the only one that finds no
  successor.\<close>

theorem client_takes_ends:
  assumes "numbered cs" "cs \<noteq> []"
  shows "\<exists>least i greatest j. ends_scan 0 cs ((INT_MAX, 0), (INT_MIN, 0)) = ((least, i), (greatest, j)) \<and>
    i < length cs \<and> j < length cs \<and>
    (\<forall>k < length cs. (\<exists>n. prev_scan (own_number (child_path (cs ! k))) 0 cs (INT_MIN, -1) = Some (n, -1)) \<longleftrightarrow> k = i) \<and>
    (\<forall>k < length cs. (\<exists>n. next_scan (own_number (child_path (cs ! k))) 0 cs (INT_MAX, -1) = Some (n, -1)) \<longleftrightarrow> k = j)"
proof -
  obtain least i greatest j where scan: "ends_scan 0 cs ((INT_MAX, 0), (INT_MIN, 0)) = ((least, i), (greatest, j))"
    and ends: "i < length cs" "node_number (cs ! i) = Some least" "j < length cs" "node_number (cs ! j) = Some greatest"
    and all: "\<forall>c \<in> set cs. \<forall>k. node_number c = Some k \<longrightarrow> sint least \<le> sint k \<and> sint k \<le> sint greatest"
    by (rule ends_found[OF assms])
  have first: "(\<exists>n. prev_scan (own_number (child_path (cs ! k))) 0 cs (INT_MIN, -1) = Some (n, -1)) \<longleftrightarrow> k = i"
    and last: "(\<exists>n. next_scan (own_number (child_path (cs ! k))) 0 cs (INT_MAX, -1) = Some (n, -1)) \<longleftrightarrow> k = j"
    if k: "k < length cs" for k
  proof -
    obtain a where a: "node_number (cs ! k) = Some a"
      using numbered_number[OF assms(1) k] by blast
    have "(\<forall>c \<in> set cs. \<forall>k. node_number c = Some k \<longrightarrow> sint a \<le> sint k) \<longleftrightarrow> a = least"
      using all a ends(1,2) k by (metis nth_mem order_antisym signed_word_eqI)
    then show "(\<exists>n. prev_scan (own_number (child_path (cs ! k))) 0 cs (INT_MIN, -1) = Some (n, -1)) \<longleftrightarrow> k = i"
      using prev_scan_none[OF assms(1), of a] a ends(1,2) numbered_inj[OF assms(1) k ends(1)] by auto
    have "(\<forall>c \<in> set cs. \<forall>k. node_number c = Some k \<longrightarrow> sint k \<le> sint a) \<longleftrightarrow> a = greatest"
      using all a ends(3,4) k by (metis nth_mem order_antisym signed_word_eqI)
    then show "(\<exists>n. next_scan (own_number (child_path (cs ! k))) 0 cs (INT_MAX, -1) = Some (n, -1)) \<longleftrightarrow> k = j"
      using next_scan_none[OF assms(1), of a] a ends(3,4) numbered_inj[OF assms(1) k ends(3)] by auto
  qed
  with scan ends(1,3) show ?thesis by blast
qed

theorem client_takes_ends_witness:
  "\<exists>least i greatest j. ends_scan 0 three_nodes ((INT_MAX, 0), (INT_MIN, 0)) = ((least, i), (greatest, j)) \<and>
     i < 3 \<and> j < 3 \<and> (\<exists>n. prev_scan (own_number (child_path (three_nodes ! i))) 0 three_nodes (INT_MIN, -1) = Some (n, -1))"
  using client_takes_ends[OF three_nodes_numbered] by (fastforce simp: three_nodes_def)

end
