(* ===== verification/CarArray.thy ===== *)
theory CarArray
  imports ClientStub SkelSpec
begin

text \<open>
  The arrays of cars that the client operations build: what the memory is while the cars of a reply
  are copied one by one, and while they are destroyed again.  A copy is all or nothing: either every
  car of the reply has a block of its own, or no block is left.
\<close>

section \<open>Cars in consecutive blocks\<close>

text \<open>
  \<open>m\<close> is \<open>m0\<close> with the blocks of the cars \<open>ds\<close>, allocated one after the other, of
  which the first \<open>j\<close> were destroyed.
\<close>

definition car_cells :: "nat \<Rightarrow> car list \<Rightarrow> nat \<Rightarrow> (addr \<times> data_t) list" where
  "car_cells b ds j = map (\<lambda>k. (b + 2 * k, block_of (ds ! k) (Suc (b + 2 * k)))) [j..<length ds]"

definition str_cells :: "nat \<Rightarrow> car list \<Rightarrow> nat \<Rightarrow> (addr \<times> string) list" where
  "str_cells b ds j = map (\<lambda>k. (Suc (b + 2 * k), c_modelo (ds ! k))) [j..<length ds]"

definition cars_from :: "mem \<Rightarrow> car list \<Rightarrow> nat \<Rightarrow> mem \<Rightarrow> bool" where
  "cars_from m0 ds j m \<longleftrightarrow> m_nodes m = m_nodes m0 \<and> m_lists m = m_lists m0 \<and> m_avail m = m_avail m0 \<and>
     m_tm_year m = m_tm_year m0 \<and> m_brk m0 + 2 * length ds \<le> m_brk m \<and>
     m_datas m = m_datas m0 ++ map_of (car_cells (m_brk m0) ds j) \<and>
     m_strs m = m_strs m0 ++ map_of (str_cells (m_brk m0) ds j)"

lemma car_cells_Cons:
  "j < length ds \<Longrightarrow> car_cells b ds j = (b + 2 * j, block_of (ds ! j) (Suc (b + 2 * j))) # car_cells b ds (Suc j)"
  "j < length ds \<Longrightarrow> str_cells b ds j = (Suc (b + 2 * j), c_modelo (ds ! j)) # str_cells b ds (Suc j)"
  by (simp_all add: car_cells_def str_cells_def upt_conv_Cons)

lemma car_cells_snoc:
  "car_cells b (ds @ [c]) 0 = car_cells b ds 0 @ [(b + 2 * length ds, block_of c (Suc (b + 2 * length ds)))]"
  "str_cells b (ds @ [c]) 0 = str_cells b ds 0 @ [(Suc (b + 2 * length ds), c_modelo c)]"
  by (auto simp: car_cells_def str_cells_def nth_append)

lemma map_of_snoc:
  "a \<notin> fst ` set xs \<Longrightarrow> f(a \<mapsto> v) ++ map_of xs = (f ++ map_of xs)(a \<mapsto> v)"
  by (simp add: map_add_upd_left dom_map_of_conv_image_fst)

lemma map_of_drop:
  "f a = None \<Longrightarrow> a \<notin> fst ` set xs \<Longrightarrow> (f ++ map_of ((a, v) # xs))(a := None) = f ++ map_of xs"
  by (auto simp: fun_eq_iff map_add_def map_of_eq_None_iff split: option.splits)

lemma car_cells_keys:
  "b + 2 * length ds \<notin> fst ` set (car_cells b ds j)" "Suc (b + 2 * length ds) \<notin> fst ` set (str_cells b ds j)"
  "b + 2 * j \<notin> fst ` set (car_cells b ds (Suc j))" "Suc (b + 2 * j) \<notin> fst ` set (str_cells b ds (Suc j))"
  by (auto simp: car_cells_def str_cells_def)

lemma cars_from_Nil: "cars_from m0 [] 0 m \<longleftrightarrow> same_blocks m0 m"
  by (auto simp: cars_from_def same_blocks_def car_cells_def str_cells_def)

lemma cars_from_same_blocks: "cars_from m0 ds j m \<Longrightarrow> same_blocks m m' \<Longrightarrow> cars_from m0 ds j m'"
  unfolding cars_from_def same_blocks_def by simp

lemma cars_from_year: "cars_from m0 ds j m \<Longrightarrow> ano_atual m = ano_atual m0"
  by (simp add: cars_from_def ano_atual_def)

lemma cars_from_all_destroyed: "cars_from m0 ds (length ds) m \<Longrightarrow> same_blocks m0 m"
  by (auto simp: cars_from_def same_blocks_def car_cells_def str_cells_def)

lemma cars_from_wf:
  assumes "cars_from m0 ds j m" "mem_wf m0"
  shows "mem_wf m"
proof -
  have "map_of (car_cells (m_brk m0) ds j) a = None" "map_of (str_cells (m_brk m0) ds j) a = None"
    if "m_brk m \<le> a" for a
    using that assms(1) by (auto simp: map_of_eq_None_iff car_cells_def str_cells_def cars_from_def)
  with assms show ?thesis unfolding cars_from_def mem_wf_def by (simp add: map_add_def)
qed

lemma cars_from_snoc:
  assumes "cars_from m0 ds 0 m" "m_brk m = m_brk m0 + 2 * length ds"
  shows "cars_from m0 (ds @ [c]) 0 (with_car c m)"
  using assms unfolding cars_from_def by (simp add: car_cells_snoc map_of_snoc car_cells_keys)

lemma cars_from_at:
  assumes "cars_from m0 ds j m" "j \<le> k" "k < length ds"
  shows "car_at m (m_brk m0 + 2 * k) (Suc (m_brk m0 + 2 * k)) (ds ! k)"
proof -
  have "distinct (map fst (car_cells (m_brk m0) ds j))" "distinct (map fst (str_cells (m_brk m0) ds j))"
    by (simp_all add: car_cells_def str_cells_def o_def distinct_map inj_on_def)
  moreover have "(m_brk m0 + 2 * k, block_of (ds ! k) (Suc (m_brk m0 + 2 * k))) \<in> set (car_cells (m_brk m0) ds j)"
    "(Suc (m_brk m0 + 2 * k), c_modelo (ds ! k)) \<in> set (str_cells (m_brk m0) ds j)"
    using assms(2,3) by (simp_all add: car_cells_def str_cells_def image_iff)
  ultimately show ?thesis using assms(1) by (simp add: cars_from_def car_at_def map_add_def)
qed

lemma cars_from_destroy:
  assumes "cars_from m0 ds j m" "mem_wf m0" "j < length ds"
  obtains m' where "data_destroy (Some (m_brk m0 + 2 * j)) m = Some (0, m')" "cars_from m0 ds (Suc j) m'"
proof -
  let ?a = "m_brk m0 + 2 * j"
  let ?m = "m\<lparr>m_strs := (m_strs m)(Suc ?a := None), m_datas := (m_datas m)(?a := None)\<rparr>"
  have "data_destroy (Some ?a) m = Some (0, ?m)"
    by (rule data_destroy_car_at[OF cars_from_at[OF assms(1) order_refl assms(3)]])
  moreover have "m_datas m0 ?a = None" "m_strs m0 (Suc ?a) = None"
    using mem_wf_fresh[OF assms(2)] by simp_all
  then have "cars_from m0 ds (Suc j) ?m"
    using assms(1) car_cells_Cons[OF assms(3)] unfolding cars_from_def
    by (simp add: map_of_drop car_cells_keys del: map_of.simps)
  ultimately show ?thesis using that by blast
qed

section \<open>The pointers of the array\<close>

definition car_ptrs :: "nat \<Rightarrow> nat \<Rightarrow> ptr arr" where
  "car_ptrs base n = map (\<lambda>k. Some (Some (base + 2 * k))) [0..<n]"

lemma car_ptrs_length [simp]: "length (car_ptrs base n) = n"
  by (simp add: car_ptrs_def)

lemma car_ptrs_0: "car_ptrs base 0 = []"
  by (simp add: car_ptrs_def)

lemma car_ptrs_get: "k < n \<Longrightarrow> arr_get k (car_ptrs base n @ rest) = Some (Some (base + 2 * k))"
  by (simp add: arr_get_def nth_append car_ptrs_def)

lemma car_ptrs_set:
  "arr_set n p (car_ptrs base n @ replicate (Suc k) None) = Some (car_ptrs base n @ Some p # replicate k None)"
  by (simp add: arr_set_def list_update_append)

lemma car_ptrs_Suc: "car_ptrs base (Suc n) = car_ptrs base n @ [Some (Some (base + 2 * n))]"
  by (simp add: car_ptrs_def)

lemma cars_cleanup_ok:
  assumes "cars_from m0 ds j m" "mem_wf m0" "j \<le> length ds"
  shows "\<exists>m'. cars_cleanup j (length ds) (car_ptrs (m_brk m0) (length ds) @ rest) m = Some m' \<and> same_blocks m0 m'"
  using assms
proof (induction "length ds - j" arbitrary: j m)
  case 0
  then show ?case by (subst cars_cleanup.simps) (auto intro: cars_from_all_destroyed)
next
  case (Suc n)
  then have j: "j < length ds" by simp
  obtain m1 where "data_destroy (Some (m_brk m0 + 2 * j)) m = Some (0, m1)" and m1: "cars_from m0 ds (Suc j) m1"
    by (rule cars_from_destroy[OF Suc.prems(1,2) j])
  moreover obtain m' where
    "cars_cleanup (Suc j) (length ds) (car_ptrs (m_brk m0) (length ds) @ rest) m1 = Some m'" "same_blocks m0 m'"
    using Suc.hyps(1)[OF _ m1 Suc.prems(2)] Suc.hyps(2) j by force
  ultimately show ?case
    using j by (subst cars_cleanup.simps) (auto simp: car_ptrs_get)
qed

text \<open>What is printed of a car.\<close>

definition car_line :: "car \<Rightarrow> string" where
  "car_line c = car_text (block_of c 0) (c_modelo c)"

lemma stub_print_car_at: "car_at m d t c \<Longrightarrow> stub_print_car (Some d) m = Some (car_line c)"
  by (simp add: stub_print_car_def car_at_def deref_def c_string_def car_line_def car_text_def)

lemma cars_print_destroy_ok:
  assumes "cars_from m0 ds j m" "mem_wf m0" "j \<le> length ds"
  shows "\<exists>m'. cars_print_destroy j (car_ptrs (m_brk m0) (length ds) @ Some None # rest) m =
    Some (concat (map car_line (drop j ds)), m') \<and> same_blocks m0 m'"
  using assms
proof (induction "length ds - j" arbitrary: j m)
  case 0
  then have "j = length ds" by simp
  then have "arr_get j (car_ptrs (m_brk m0) (length ds) @ Some None # rest) = Some None"
    by (simp add: arr_get_def nth_append)
  with 0 show ?case by (subst cars_print_destroy.simps) (auto intro: cars_from_all_destroyed)
next
  case (Suc n)
  then have j: "j < length ds" by simp
  obtain m1 where "data_destroy (Some (m_brk m0 + 2 * j)) m = Some (0, m1)" and m1: "cars_from m0 ds (Suc j) m1"
    by (rule cars_from_destroy[OF Suc.prems(1,2) j])
  moreover obtain m' where
    "cars_print_destroy (Suc j) (car_ptrs (m_brk m0) (length ds) @ Some None # rest) m1 =
       Some (concat (map car_line (drop (Suc j) ds)), m')" "same_blocks m0 m'"
    using Suc.hyps(1)[OF _ m1 Suc.prems(2)] Suc.hyps(2) j by force
  moreover have "stub_print_car (Some (m_brk m0 + 2 * j)) m = Some (car_line (ds ! j))"
    by (rule stub_print_car_at[OF cars_from_at[OF Suc.prems(1) order_refl j]])
  moreover have "drop j ds = ds ! j # drop (Suc j) ds" using j by (simp add: Cons_nth_drop_Suc)
  ultimately show ?case
    using j by (subst cars_print_destroy.simps) (auto simp: car_ptrs_get)
qed

section \<open>Copying the cars of a reply\<close>

text \<open>The car that a \<open>Data\<close> of a message stands for, and when it is accepted.\<close>

definition pdata_car :: "pdata \<Rightarrow> car" where
  "pdata_car d = car_of d (case p_modelo d of None \<Rightarrow> [] | Some s \<Rightarrow> s)"

definition pdata_valid :: "i32 \<Rightarrow> pdata \<Rightarrow> bool" where
  "pdata_valid year d \<longleftrightarrow> p_modelo d \<noteq> None \<and> car_valid year (pdata_car d)"

lemma pdata_car_of [simp]:
  "pdata_car (pdata_of c) = c" "pdata_valid year (pdata_of c) = car_valid year c"
proof -
  show "pdata_car (pdata_of c) = c" by (simp add: pdata_car_def)
  then show "pdata_valid year (pdata_of c) = car_valid year c" by (simp add: pdata_valid_def)
qed

lemma data_create_pdata:
  assumes "mem_wf m"
  obtains (created) "pdata_valid (ano_atual m) d" "two_blocks_granted m"
      "data_create (p_ano d) (p_preco d) (p_marca d) (p_modelo d) (p_combustivel d) m =
         Some (Some (m_brk m), with_car (pdata_car d) m)"
    | (refused) m' where "\<not> (pdata_valid (ano_atual m) d \<and> two_blocks_granted m)" "same_blocks m m'"
      "data_create (p_ano d) (p_preco d) (p_marca d) (p_modelo d) (p_combustivel d) m = Some (None, m')"
proof (cases "p_modelo d")
  case None
  then show ?thesis using refused[of m] by (simp add: data_create_null pdata_valid_def)
next
  case (Some s)
  then have car: "pdata_car d = car_of d s" by (simp add: pdata_car_def)
  show ?thesis
  proof (cases "car_valid (ano_atual m) (car_of d s) \<and> two_blocks_granted m")
    case True
    with Some car created data_create_ok[of m "car_of d s"] show ?thesis
      by (simp add: pdata_valid_def)
  next
    case False
    obtain m' where "data_create_car (car_of d s) m = Some (None, m')" "same_blocks m m'"
      by (rule data_create_fail[OF assms False])
    with Some car False refused[of m'] show ?thesis by (simp add: pdata_valid_def)
  qed
qed

lemma cars_copy_ok:
  assumes "mem_wf m0" "\<forall>i < length ps. arr_get i a = Some (Some (ps ! i))" "k \<le> length ps"
    and "cars_from m0 (map pdata_car (take k ps)) 0 m" "m_brk m = m_brk m0 + 2 * k"
  shows "\<exists>r m'. cars_copy k (length ps) a (car_ptrs (m_brk m0) k @ replicate (Suc (length ps - k)) None) m = Some (r, m') \<and>
    (case r of
       None \<Rightarrow> same_blocks m0 m' \<and> \<not> (list_all (pdata_valid (ano_atual m0)) (drop k ps) \<and> all_granted m0)
     | Some arr \<Rightarrow> list_all (pdata_valid (ano_atual m0)) (drop k ps) \<and>
         arr = car_ptrs (m_brk m0) (length ps) @ [None] \<and> cars_from m0 (map pdata_car ps) 0 m')"
  using assms
proof (induction "length ps - k" arbitrary: k m)
  case 0
  then show ?case by (subst cars_copy.simps) simp
next
  case (Suc n)
  then have k: "k < length ps" by simp
  let ?d = "ps ! k"
  let ?arr = "\<lambda>p. car_ptrs (m_brk m0) k @ Some p # replicate (length ps - k) None"
  have get: "arr_get k a = Some (Some ?d)" using Suc.prems(2) k by blast
  have set: "arr_set k p (car_ptrs (m_brk m0) k @ replicate (Suc (length ps - k)) None) = Some (?arr p)" for p
    by (rule car_ptrs_set)
  have drop: "drop k ps = ?d # drop (Suc k) ps" and take: "take (Suc k) ps = take k ps @ [?d]"
    using k by (simp_all add: Cons_nth_drop_Suc take_Suc_conv_app_nth)
  have wf: "mem_wf m" and year: "ano_atual m = ano_atual m0"
    by (rule cars_from_wf[OF Suc.prems(4,1)]) (rule cars_from_year[OF Suc.prems(4)])
  show ?case
  proof (cases rule: data_create_pdata[OF wf, of ?d, case_names created refused])
    case created
    have from1: "cars_from m0 (map pdata_car (take (Suc k) ps)) 0 (with_car (pdata_car ?d) m)"
      using cars_from_snoc[OF Suc.prems(4), of "pdata_car ?d"] Suc.prems(5) k by (simp add: take)
    have "?arr (Some (m_brk m)) = car_ptrs (m_brk m0) (Suc k) @ replicate (Suc (length ps - Suc k)) None"
      using Suc.prems(5) k by (simp add: car_ptrs_Suc Suc_diff_Suc del: replicate_Suc)
    with Suc.hyps(1)[OF _ Suc.prems(1,2) _ from1] Suc.hyps(2) Suc.prems(5) k obtain r m' where
      "cars_copy (Suc k) (length ps) a (?arr (Some (m_brk m))) (with_car (pdata_car ?d) m) = Some (r, m')"
      "case r of
         None \<Rightarrow> same_blocks m0 m' \<and> \<not> (list_all (pdata_valid (ano_atual m0)) (drop (Suc k) ps) \<and> all_granted m0)
       | Some arr \<Rightarrow> list_all (pdata_valid (ano_atual m0)) (drop (Suc k) ps) \<and>
           arr = car_ptrs (m_brk m0) (length ps) @ [None] \<and> cars_from m0 (map pdata_car ps) 0 m'"
      by force
    with k get set created year show ?thesis
      by (subst cars_copy.simps) (auto simp: drop split: option.splits)
  next
    case (refused m1)
    have from1: "cars_from m0 (map pdata_car (take k ps)) 0 m1"
      by (rule cars_from_same_blocks[OF Suc.prems(4) refused(2)])
    have "length (map pdata_car (take k ps)) = k" using k by simp
    with cars_cleanup_ok[OF from1 Suc.prems(1), of "Some None # replicate (length ps - k) None"] obtain m' where
      "cars_cleanup 0 k (?arr None) m1 = Some m'" "same_blocks m0 m'" by auto
    moreover have "\<not> (pdata_valid (ano_atual m0) ?d \<and> all_granted m0)"
      using refused(1) year Suc.prems(4) by (auto simp: all_granted_def cars_from_def two_blocks_granted_def)
    ultimately show ?thesis
      using k get set refused(3) by (subst cars_copy.simps) (auto simp: drop)
  qed
qed

section \<open>Whatever the reply holds\<close>

text \<open>One car that the program creates, uses without touching the blocks, and destroys.\<close>

lemma data_create_any:
  assumes "mem_wf m" "data_create ano preco marca modelo combustivel m = Some (p, m1)"
  obtains (refused) "p = None" "same_blocks m m1"
    | (created) c where "p = Some (m_brk m)" "m1 = with_car c m" "cars_from m [c] 0 m1"
proof -
  let ?d = "\<lparr>p_ano = ano, p_preco = preco, p_marca = marca, p_modelo = modelo, p_combustivel = combustivel\<rparr>"
  show ?thesis
  proof (cases rule: data_create_pdata[OF assms(1), of ?d, case_names created refused])
    case created
    moreover have "cars_from m [] 0 m" by (simp add: cars_from_Nil)
    then have "cars_from m ([] @ [pdata_car ?d]) 0 (with_car (pdata_car ?d) m)" by (rule cars_from_snoc) simp
    ultimately show ?thesis using assms(2) that(2)[of "pdata_car ?d"] by simp
  next
    case (refused m')
    with assms(2) that(1) show ?thesis by simp
  qed
qed

lemma destroy_created:
  assumes "cars_from m [c] 0 m1" "same_blocks m1 m2" "mem_wf m"
  obtains m3 where "data_destroy (Some (m_brk m)) m2 = Some (0, m3)" "same_blocks m m3"
proof -
  obtain m3 where "data_destroy (Some (m_brk m)) m2 = Some (0, m3)" "cars_from m [c] (Suc 0) m3"
    using cars_from_destroy[OF cars_from_same_blocks[OF assms(1,2)] assms(3)] by auto
  with that cars_from_all_destroyed[of m "[c]" m3] show ?thesis by simp
qed

lemma cars_copy_any:
  assumes "cars_copy k n a (car_ptrs (m_brk m0) k @ replicate (Suc (n - k)) None) m = Some (r, m')"
    and "mem_wf m0" "k \<le> n" "length ds = k" "cars_from m0 ds 0 m" "m_brk m = m_brk m0 + 2 * k"
  shows "case r of None \<Rightarrow> same_blocks m0 m'
    | Some arr \<Rightarrow> \<exists>ds. length ds = n \<and> arr = car_ptrs (m_brk m0) n @ [None] \<and> cars_from m0 ds 0 m'"
  using assms
proof (induction "n - k" arbitrary: k ds m)
  case 0
  then show ?case by (subst (asm) cars_copy.simps) auto
next
  case (Suc x)
  then have k: "k < n" by simp
  let ?arr = "\<lambda>p. car_ptrs (m_brk m0) k @ Some p # replicate (n - k) None"
  have set: "arr_set k p (car_ptrs (m_brk m0) k @ replicate (Suc (n - k)) None) = Some (?arr p)" for p
    by (rule car_ptrs_set)
  from Suc.prems(1)[unfolded cars_copy.simps[of k]] k obtain d :: pdata and p m1 where create: "data_create (p_ano d) (p_preco d) (p_marca d) (p_modelo d)
      (p_combustivel d) m = Some (p, m1)"
    and rest: "(if p = None then do { m2 \<leftarrow> cars_cleanup 0 k (?arr p) m1; Some (None, m2) }
      else cars_copy (Suc k) n a (?arr p) m1) = Some (r, m')"
    by (auto simp: bind_eq_Some_conv set simp del: replicate_Suc)
  show ?case
  proof (cases rule: data_create_any[OF cars_from_wf[OF Suc.prems(5,2)] create, case_names refused created])
    case refused
    have "cars_from m0 ds 0 m1" by (rule cars_from_same_blocks[OF Suc.prems(5) refused(2)])
    from cars_cleanup_ok[OF this Suc.prems(2), of "Some None # replicate (n - k) None"] rest refused(1) Suc.prems(4)
    show ?thesis by auto
  next
    case (created c)
    have "cars_from m0 (ds @ [c]) 0 m1"
      using cars_from_snoc[OF Suc.prems(5), of c] Suc.prems(4,6) created(2) by simp
    moreover have "?arr p = car_ptrs (m_brk m0) (Suc k) @ replicate (Suc (n - Suc k)) None"
      using created(1) Suc.prems(6) k by (simp add: car_ptrs_Suc Suc_diff_Suc del: replicate_Suc)
    ultimately show ?thesis
      using Suc.hyps(1)[of "Suc k" m1 "ds @ [c]"] Suc.hyps(2) Suc.prems rest created k by simp
  qed
qed

end
