(* ===== verification/Remote.thy ===== *)
theory Remote
  imports CarArray Session
begin

text \<open>
  The operations of the client stub against the server: what a client gets from an operation of
  \<open>client_stub.c\<close> when the thread of \<open>network_server.c\<close> at the other end of the connection
  serves its request, in terms of the abstract list of the server.
\<close>

section \<open>What a reader sees of a message\<close>

text \<open>
  The first \<open>n\<close> cells of a repeated field.  A message that was packed and unpacked again agrees
  with the original on these, but its arrays have no cells behind them, and an empty one is NULL.
\<close>

definition cells :: "nat \<Rightarrow> 'a arr option \<Rightarrow> 'a option list" where
  "cells n a = map (\<lambda>i. Option.bind a (arr_get i)) [0..<n]"

type_synonym msg_view = "u32 \<times> u32 \<times> pdata option \<times> i32 \<times> string option option list \<times> pdata option option list"

definition view :: "MessageT \<Rightarrow> msg_view" where
  "view msg = (msg_opcode msg, msg_c_type msg, msg_data msg, msg_result msg,
     cells (msg_n_models msg) (msg_models msg), cells (msg_n_cars msg) (msg_cars msg))"

lemma cells_length [simp]: "length (cells n a) = n"
  by (simp add: cells_def)

lemma view_eq:
  assumes "view a = view b"
  shows "msg_opcode a = msg_opcode b" "msg_c_type a = msg_c_type b" "msg_data a = msg_data b"
    "msg_result a = msg_result b" "msg_n_models a = msg_n_models b" "msg_n_cars a = msg_n_cars b"
    "cells (msg_n_models a) (msg_models a) = cells (msg_n_models b) (msg_models b)"
    "cells (msg_n_cars a) (msg_cars a) = cells (msg_n_cars b) (msg_cars b)"
  using assms by (auto simp: view_def dest: arg_cong[where f = length])

lemma cells_filled:
  assumes "cells n a = map Some xs"
  shows "length xs = n" "n = 0 \<or> (\<exists>c. a = Some c \<and> (\<forall>i < n. arr_get i c = Some (xs ! i)))"
proof -
  show len: "length xs = n" using arg_cong[OF assms, of length] by simp
  have nth: "Option.bind a (arr_get i) = Some (xs ! i)" if "i < n" for i
    using arg_cong[OF assms, of "\<lambda>ys. ys ! i"] that len by (simp add: cells_def)
  show "n = 0 \<or> (\<exists>c. a = Some c \<and> (\<forall>i < n. arr_get i c = Some (xs ! i)))"
    using nth by (cases a) force+
qed

lemma cells_map_Some: "cells (length xs) (Some (map Some xs @ rest)) = map Some xs"
  by (auto simp: cells_def arr_get_def nth_append intro!: nth_equalityI)

section \<open>One operation\<close>

text \<open>
  The two ends of a connection while one request and its reply travel: \<open>s\<close> is the client's end,
  \<open>p\<close> the server's; \<open>bq\<close> and \<open>br\<close> are the packed messages.
\<close>

definition carried :: "codec \<Rightarrow> MessageT \<Rightarrow> MessageT \<Rightarrow> byte list \<Rightarrow> byte list \<Rightarrow> conn \<Rightarrow> conn \<Rightarrow> bool" where
  "carried cd req rep bq br s p \<longleftrightarrow>
     packs cd req bq \<and> cd_unpack cd bq = Some req \<and> incoming p (frame bq) [] \<and> has_room p (length (frame br)) \<and>
     packs cd rep br \<and> map_option view (cd_unpack cd br) = Some (view rep) \<and>
     incoming s (frame br) [] \<and> has_room s (length (frame bq))"

text \<open>Both ends have done their part of the exchange.\<close>

definition exchanged ::
  "codec \<Rightarrow> (string \<times> nat) option \<Rightarrow> byte list \<Rightarrow> byte list \<Rightarrow> conn \<Rightarrow> conn \<Rightarrow> conn \<Rightarrow> addr \<Rightarrow> server \<Rightarrow> car list \<Rightarrow> bool" where
  "exchanged cd peer bq br s s' p l sv xs' \<longleftrightarrow> k_out s' = k_out s @ frame bq \<and>
     (\<exists>p' sv'. client_turn cd peer p sv = Some (True, p', sv') \<and> k_out p' = k_out p @ frame br \<and>
        list_is (sv_mem sv') l xs')"

text \<open>The client's half: its request leaves, the reply is on its way.\<close>

definition sent :: "codec \<Rightarrow> MessageT \<Rightarrow> MessageT \<Rightarrow> byte list \<Rightarrow> byte list \<Rightarrow> conn \<Rightarrow> bool" where
  "sent cd req rep bq br s \<longleftrightarrow> packs cd req bq \<and> packs cd rep br \<and>
     map_option view (cd_unpack cd br) = Some (view rep) \<and>
     incoming s (frame br) [] \<and> has_room s (length (frame bq))"

lemma carried_sent: "carried cd req rep bq br s p \<Longrightarrow> sent cd req rep bq br s"
  by (simp add: carried_def sent_def)

lemma stub_exchange:
  assumes "sent cd req rep bq br s" "0 \<le> sint (sockfd rl)" "m_avail m (m_brk m)" "m_avail m (Suc (m_brk m))"
  obtains msg s' where
    "network_send_receive cd (Some rl) (Some req) s m = Some (Some msg, s', m\<lparr>m_brk := m_brk m + 2\<rparr>)"
    "view msg = view rep" "k_out s' = k_out s @ frame bq"
proof -
  have req: "packs cd req bq" and rep: "0 < length br" "length br \<le> 0xFFFF"
    and s: "incoming s (frame br @ []) []" "has_room s (length (frame bq) + 0)"
    using assms(1) by (simp_all add: sent_def packs_def)
  obtain s' where "network_send_receive cd (Some rl) (Some req) s m =
      Some (cd_unpack cd br, s', m\<lparr>m_brk := m_brk m + 2\<rparr>)" "k_out s' = k_out s @ frame bq"
    using network_send_receive_ok[OF assms(2) req s(2,1) rep assms(3,4)] by metis
  moreover obtain msg where "cd_unpack cd br = Some msg" "view msg = view rep"
    using assms(1) by (auto simp: sent_def)
  ultimately show ?thesis using that by simp
qed

text \<open>The server's half.\<close>

lemma server_exchange:
  assumes "session_inv l year sv xs ls" "serve_ok req xs" "loggable req"
    and "carried cd req (fst (tail_spec year req xs)) bq br s p" "k_out s' = k_out s @ frame bq"
  shows "exchanged cd peer bq br s s' p l sv (snd (tail_spec year req xs))"
proof -
  have p: "incoming p (frame bq @ []) []" "has_room p (length (frame br) + 0)"
    and bq: "0 < length bq" "length bq \<le> 0xFFFF" "cd_unpack cd bq = Some req"
    and rep: "packs cd (fst (tail_spec year req xs)) br"
    using assms(4) by (simp_all add: carried_def packs_def)
  obtain p' sv' where "client_turn cd peer p sv = Some (True, p', sv')" "k_out p' = k_out p @ frame br"
    "session_inv l year sv' (snd (tail_spec year req xs)) (ls @ log_line sv peer req)"
    using client_turn_ok[OF assms(1-3) p(1) bq rep p(2)] by metis
  then show ?thesis
    using assms(5) by (auto simp: exchanged_def session_inv_def tail_rel_def serve_rel_def)
qed

lemma remote_exchange:
  assumes "session_inv l year sv xs ls" "serve_ok req xs" "loggable req"
    and "carried cd req (fst (tail_spec year req xs)) bq br s p"
    and "0 \<le> sint (sockfd rl)" "m_avail m (m_brk m)" "m_avail m (Suc (m_brk m))"
  obtains rep s' where
    "network_send_receive cd (Some rl) (Some req) s m = Some (Some rep, s', m\<lparr>m_brk := m_brk m + 2\<rparr>)"
    "view rep = view (fst (tail_spec year req xs))"
    "exchanged cd peer bq br s s' p l sv (snd (tail_spec year req xs))"
  using stub_exchange[OF carried_sent[OF assms(4)] assms(5-7)] server_exchange[OF assms(1-4)] that by metis

section \<open>The array operations\<close>

lemma rlist_cars_reply:
  assumes "network_send_receive cd rlist (Some (message_t_init\<lparr>msg_opcode := OP_GETLISTBYTEAR,
      msg_c_type := CT_RESULT, msg_result := ano\<rparr>)) s m = Some (Some rep, s', m1)"
    and "msg_opcode rep = OP_GETLISTBYTEAR + 1" "msg_c_type rep = CT_LIST"
    and "cells (msg_n_cars rep) (msg_cars rep) = map (Some \<circ> Some) ps" "mem_wf m"
  shows "\<exists>r m'. rlist_cars cd rlist ano s m = Some (r, s', m') \<and>
    (case r of
       None \<Rightarrow> same_blocks m m' \<and> \<not> (ps \<noteq> [] \<and> list_all (pdata_valid (ano_atual m)) ps \<and> all_granted m)
     | Some arr \<Rightarrow> ps \<noteq> [] \<and> list_all (pdata_valid (ano_atual m)) ps \<and> (\<exists>m0. same_blocks m m0 \<and> arr = car_ptrs (m_brk m0) (length ps) @ [Some None] \<and>
         cars_from m0 (map pdata_car ps) 0 m'))"
proof -
  have same: "same_blocks m m1" by (rule network_send_receive_same[OF assms(1)])
  have ok: "op_success (Some rep) OP_GETLISTBYTEAR CT_LIST"
    using assms(2,3) by (simp add: op_success_def)
  have n: "length ps = msg_n_cars rep"
    using cells_filled(1)[of "msg_n_cars rep" "msg_cars rep" "map Some ps"] assms(4) by simp
  show ?thesis
  proof (cases "ps = []")
    case True
    with n assms(1) ok same show ?thesis by (simp add: rlist_cars_def)
  next
    case False
    with n cells_filled(2)[of "msg_n_cars rep" "msg_cars rep" "map Some ps"] assms(4) obtain a where
      a: "msg_cars rep = Some a" "\<forall>i < length ps. arr_get i a = Some (Some (ps ! i))" by auto
    show ?thesis
    proof (cases "m_avail m1 (m_brk m1)")
      case True
      let ?m0 = "m1\<lparr>m_brk := Suc (m_brk m1)\<rparr>"
      have same0: "same_blocks m ?m0" using same by (simp add: same_blocks_def)
      have wf0: "mem_wf ?m0" and year: "ano_atual ?m0 = ano_atual m" and granted: "all_granted ?m0 = all_granted m"
        using same_blocks_wf[OF same0 assms(5)] ano_atual_same[OF same0] same0
        by (simp_all add: all_granted_def same_blocks_def)
      have arr: "malloc_arr (int (msg_n_cars rep) + 1) m1 = (Some (replicate (Suc (length ps)) None :: ptr arr), ?m0)"
        using True n by (simp add: malloc_arr_def nat_add_distrib)
      have "cars_from ?m0 (map pdata_car (take 0 ps)) 0 ?m0" by (simp add: cars_from_Nil)
      from cars_copy_ok[OF wf0 a(2) _ this] obtain r m' where
        copy: "cars_copy 0 (length ps) a (replicate (Suc (length ps)) None) ?m0 = Some (r, m')"
        and r: "case r of
           None \<Rightarrow> same_blocks ?m0 m' \<and> \<not> (list_all (pdata_valid (ano_atual m)) ps \<and> all_granted m)
         | Some arr \<Rightarrow> list_all (pdata_valid (ano_atual m)) ps \<and>
             arr = car_ptrs (m_brk ?m0) (length ps) @ [None] \<and> cars_from ?m0 (map pdata_car ps) 0 m'"
        unfolding year granted drop_0 by (auto simp: car_ptrs_0)
      show ?thesis
      proof (cases r)
        case None
        with copy r arr a(1) assms(1) ok n False same same_blocks_trans[OF same0] show ?thesis
          by (simp add: rlist_cars_def)
      next
        case (Some arr)
        have "arr_set (length ps) None (car_ptrs b (length ps) @ [None]) = Some (car_ptrs b (length ps) @ [Some None])" for b
          using car_ptrs_set[of "length ps" None b 0] by simp
        with Some copy r arr a(1) assms(1) ok n False same0 show ?thesis
          by (auto simp: rlist_cars_def malloc_arr_def intro!: exI[of _ ?m0])
      qed
    next
      case no: False
      have "same_blocks m (m1\<lparr>m_brk := Suc (m_brk m1)\<rparr>)" "\<not> all_granted m"
        using same no by (auto simp: same_blocks_def all_granted_def)
      with same no False n assms(1) ok show ?thesis by (simp add: rlist_cars_def malloc_arr_def)
    qed
  qed
qed

section \<open>The requests of the stub\<close>

definition list_request :: "i32 \<Rightarrow> MessageT" where
  "list_request ano = message_t_init\<lparr>msg_opcode := OP_GETLISTBYTEAR, msg_c_type := CT_RESULT, msg_result := ano\<rparr>"

definition get_request :: "i32 \<Rightarrow> MessageT" where
  "get_request marca = message_t_init\<lparr>msg_opcode := OP_GET, msg_c_type := CT_MARCA, msg_result := marca\<rparr>"

definition size_request :: MessageT where
  "size_request = message_t_init\<lparr>msg_opcode := OP_SIZE, msg_c_type := CT_NONE\<rparr>"

definition models_request :: MessageT where
  "models_request = message_t_init\<lparr>msg_opcode := OP_GETMODELS, msg_c_type := CT_NONE\<rparr>"

lemma requests_ok [simp]:
  "length xs < 2147483647 \<Longrightarrow> serve_ok (list_request ano) xs"
  "length xs < 2147483647 \<Longrightarrow> serve_ok (get_request marca) xs"
  "length xs < 2147483647 \<Longrightarrow> serve_ok size_request xs"
  "length xs < 2147483647 \<Longrightarrow> serve_ok models_request xs"
  "length xs < 2147483647 \<Longrightarrow> serve_ok (add_request c) xs"
  "length xs < 2147483647 \<Longrightarrow> serve_ok (del_request s) xs"
  "loggable (list_request ano)" "loggable (get_request marca)" "loggable size_request" "loggable models_request"
  "loggable (add_request c)" "loggable (del_request s)"
  by (simp_all add: serve_ok_def msg_ok_def loggable_def list_request_def get_request_def size_request_def
      models_request_def add_request_def del_request_def message_t_init_def arr_get_def)

lemma stub_request_sel [simp]:
  "msg_opcode (list_request ano) = OP_GETLISTBYTEAR" "msg_opcode (get_request marca) = OP_GET"
  "msg_opcode size_request = OP_SIZE" "msg_opcode models_request = OP_GETMODELS"
  "msg_opcode (del_request t) = OP_DEL"
  by (simp_all add: list_request_def get_request_def size_request_def models_request_def add_request_def
      del_request_def)

text \<open>What the service answers to each of them.\<close>

definition listed :: "i32 \<Rightarrow> car list \<Rightarrow> car list" where
  "listed ano xs = (if ano = -1 then by_year xs else filter (\<lambda>c. c_ano c = ano) xs)"

lemma tail_spec_list:
  "tail_spec year (list_request ano) xs =
     (cars_reply (list_request ano) (listed ano xs), if ano = -1 then by_year xs else xs)"
  by (simp add: tail_spec_def skel_step_def step_getlist_def listed_def list_request_def)

lemma tail_spec_get:
  "tail_spec year (get_request marca) xs =
     (case find (\<lambda>c. c_marca c = marca) xs of
        None \<Rightarrow> reply_error (get_request marca)
      | Some c \<Rightarrow> reply_ok ((get_request marca)\<lparr>msg_data := Some (pdata_of c)\<rparr>) CT_DATA, xs)"
  by (simp add: tail_spec_def skel_step_def step_get_def get_request_def split: option.splits)

lemma tail_spec_size:
  "tail_spec year size_request xs = (reply_ok (size_request\<lparr>msg_result := of_nat (length xs)\<rparr>) CT_RESULT, xs)"
  by (simp add: tail_spec_def skel_step_def step_size_def size_request_def)

lemma tail_spec_models:
  "tail_spec year models_request xs = (reply_ok (models_request\<lparr>
     msg_models := Some (terminated (map c_modelo xs)), msg_n_models := length xs\<rparr>) CT_MODEL, xs)"
  by (simp add: tail_spec_def skel_step_def step_getmodels_def models_request_def)

lemma tail_spec_add:
  "tail_spec year (add_request c) xs =
     (if car_valid year c then (reply_ok ((add_request c)\<lparr>msg_result := 0\<rparr>) CT_NONE, xs @ [c])
      else (reply_error (add_request c), xs))"
  by (simp add: tail_spec_def skel_step_def step_add_def) (simp add: add_request_def)

lemma tail_spec_del:
  "tail_spec year (del_request s) xs = (reply_ok ((del_request s)\<lparr>msg_result :=
     (if \<exists>c \<in> set xs. c_modelo c = s then 0 else 1)\<rparr>) CT_RESULT, remove_first (\<lambda>c. c_modelo c = s) xs)"
  by (simp add: tail_spec_def spec_del)

lemma word_le_cases:
  assumes "x \<le> (of_nat k :: u32)" "k < 2 ^ 32"
  shows "\<exists>n \<le> k. x = of_nat n"
proof -
  have "unat x \<le> k" using assms by (simp add: word_le_nat_alt unat_of_nat)
  then show ?thesis by (intro exI[of _ "unat x"]) simp
qed

lemma small_word_cases:
  "x \<le> 4 \<Longrightarrow> x = 0 \<or> x = 1 \<or> x = 2 \<or> x = 3 \<or> x = (4 :: u32)"
  "y \<le> 3 \<Longrightarrow> y = 0 \<or> y = 1 \<or> y = 2 \<or> y = (3 :: u32)"
proof -
  have four: "n \<le> 4 \<Longrightarrow> n = 0 \<or> n = 1 \<or> n = 2 \<or> n = 3 \<or> n = 4"
    and three: "n \<le> 3 \<Longrightarrow> n = 0 \<or> n = 1 \<or> n = 2 \<or> n = 3" for n :: nat by arith+
  show "x \<le> 4 \<Longrightarrow> x = 0 \<or> x = 1 \<or> x = 2 \<or> x = 3 \<or> x = (4 :: u32)"
    using word_le_cases[of x 4] by (auto dest!: four)
  show "y \<le> 3 \<Longrightarrow> y = 0 \<or> y = 1 \<or> y = 2 \<or> y = (3 :: u32)"
    using word_le_cases[of y 3] by (auto dest!: three)
qed

lemma enum_round_trip:
  "marca \<le> 4 \<Longrightarrow> marca_to_proto marca = marca" "marca \<le> 4 \<Longrightarrow> proto_to_marca marca = marca"
  "fuel \<le> 3 \<Longrightarrow> combustivel_to_proto fuel = fuel" "fuel \<le> 3 \<Longrightarrow> proto_to_combustivel fuel = fuel"
  by (auto dest: small_word_cases simp: marca_to_proto_def proto_to_marca_def combustivel_to_proto_def
      proto_to_combustivel_def)

lemma enum_not_error: "(x :: u32) \<le> 4 \<Longrightarrow> x \<noteq> -1"
  by (auto dest: small_word_cases)

text \<open>For concrete runs: a codec that knows one request and one reply, and the two ends.\<close>

definition pair_codec :: "MessageT \<Rightarrow> MessageT \<Rightarrow> codec" where
  "pair_codec req rep = \<lparr>cd_pack = (\<lambda>msg. Some [if msg = req then 1 else 2]),
     cd_unpack = (\<lambda>bs. if bs = [1] then Some req else if bs = [2] then Some rep else None)\<rparr>"

abbreviation (input) demo_rlist :: rlist_t where
  "demo_rlist \<equiv> \<lparr>server_address = ''10.0.0.2'', server_port = 5000, sockfd = 4\<rparr>"

abbreviation (input) demo_client_end :: conn where "demo_client_end \<equiv> chunk_conn [0, 1, 2]"
abbreviation (input) demo_server_end :: conn where "demo_server_end \<equiv> chunk_conn [0, 1, 1]"

lemma pair_carried:
  assumes "req \<noteq> rep"
  shows "carried (pair_codec req rep) req rep [1] [2] demo_client_end demo_server_end"
proof -
  have "frame [b] = [0, 1, b]" for b by (simp add: frame_def htons_bytes_def)
  then show ?thesis
    using assms chunk_conn_room[of "Suc (Suc (Suc 0))"] by (simp add: carried_def pair_codec_def packs_def)
qed

lemma demo_client [simp]:
  "all_granted demo_mem" "all_granted (with_car c demo_mem)" "mem_wf (with_car c demo_mem)"
  by (simp_all add: all_granted_def mem_wf_with_car)

section \<open>The operations\<close>

text \<open>\<open>rlist_add\<close> sends one request and returns 0 when the reply confirms it.\<close>

lemma stub_add:
  assumes "sent cd (add_request c) rep bq br s" "0 \<le> sint (sockfd rl)" "all_granted m"
    and "car_at m d t c" "c_marca c \<le> 4" "c_combustivel c \<le> 3"
  obtains s' m' where "rlist_add cd (Some rl) (Some d) s m =
      Some (if op_success (Some rep) OP_ADD CT_NONE then 0 else -1, s', m')"
    "same_blocks m m'" "k_out s' = k_out s @ frame bq"
proof -
  let ?m = "m\<lparr>m_brk := Suc (m_brk m)\<rparr>"
  have "m_avail ?m k" for k using assms(3) by (simp add: all_granted_def)
  from stub_exchange[OF assms(1,2) this this] obtain msg s' where
    send: "network_send_receive cd (Some rl) (Some (add_request c)) s ?m = Some (Some msg, s', ?m\<lparr>m_brk := m_brk ?m + 2\<rparr>)"
    and msg: "view msg = view rep" and out: "k_out s' = k_out s @ frame bq"
    by metis
  have "c_combustivel c \<le> 4" using assms(6) by (rule order_trans) simp
  then have enums: "marca_to_proto (c_marca c) = c_marca c" "c_marca c \<noteq> -1"
    "combustivel_to_proto (c_combustivel c) = c_combustivel c" "c_combustivel c \<noteq> -1"
    using assms(5,6) enum_round_trip enum_not_error by blast+
  have req: "message_t_init\<lparr>msg_opcode := OP_ADD, msg_c_type := CT_DATA, msg_data := Some (data_init\<lparr>p_ano := c_ano c,
      p_preco := c_preco c, p_marca := c_marca c, p_modelo := Some (c_modelo c), p_combustivel := c_combustivel c\<rparr>)\<rparr>
      = add_request c"
    by (simp add: add_request_def pdata_of_def data_init_def)
  have "op_success (Some msg) OP_ADD CT_NONE = op_success (Some rep) OP_ADD CT_NONE"
    using view_eq(1,2)[OF msg] by (simp add: op_success_def)
  moreover have "m_avail m (m_brk m)" using assms(3) by (simp add: all_granted_def)
  ultimately have "rlist_add cd (Some rl) (Some d) s m =
      Some (if op_success (Some rep) OP_ADD CT_NONE then 0 else -1, s', ?m\<lparr>m_brk := m_brk ?m + 2\<rparr>)"
    using send assms(4) enums req by (simp add: rlist_add_def car_at_def deref_def malloc_block_def)
  moreover have "same_blocks m (?m\<lparr>m_brk := m_brk ?m + 2\<rparr>)" by (simp add: same_blocks_def)
  ultimately show ?thesis using that out by blast
qed

lemma add_confirmed: "op_success (Some (fst (tail_spec year (add_request c) xs))) OP_ADD CT_NONE \<longleftrightarrow> car_valid year c"
  by (simp add: op_success_def tail_spec_add reply_ok_def reply_error_def)

text \<open>\<open>rlist_remove_by_model\<close> removes the first car of the model from the list of the
  server and returns 0, or returns 1 and changes nothing when there is no such car.\<close>

lemma remote_remove:
  assumes "session_inv l year sv xs ls" "length xs < 2147483647" "0 \<le> sint (sockfd rl)" "all_granted m"
    and "carried cd (del_request t) (fst (tail_spec year (del_request t) xs)) bq br s p"
  shows "\<exists>s' m'. rlist_remove_by_model cd (Some rl) (Some t) s m =
      Some (if \<exists>c \<in> set xs. c_modelo c = t then 0 else 1, s', m') \<and> same_blocks m m' \<and>
    exchanged cd peer bq br s s' p l sv (remove_first (\<lambda>c. c_modelo c = t) xs)"
proof -
  let ?m = "m\<lparr>m_brk := Suc (m_brk m)\<rparr>"
  have "m_avail ?m k" for k using assms(4) by (simp add: all_granted_def)
  from remote_exchange[OF assms(1) requests_ok(6)[OF assms(2)] requests_ok(12) assms(5,3) this this] obtain rep s' where
    send: "network_send_receive cd (Some rl) (Some (del_request t)) s ?m = Some (Some rep, s', ?m\<lparr>m_brk := m_brk ?m + 2\<rparr>)"
    and rep: "view rep = view (fst (tail_spec year (del_request t) xs))"
    and ex: "exchanged cd peer bq br s s' p l sv (snd (tail_spec year (del_request t) xs))"
    by metis
  have "message_t_init\<lparr>msg_models := Some [Some (Some t)], msg_n_models := 1, msg_opcode := OP_DEL,
      msg_c_type := CT_MODEL\<rparr> = del_request t"
    by (simp add: del_request_def message_t_init_def)
  moreover have "m_avail m (m_brk m)" using assms(4) by (simp add: all_granted_def)
  moreover have "msg_opcode rep = OP_DEL + 1" "msg_c_type rep = CT_RESULT"
    "msg_result rep = (if \<exists>c \<in> set xs. c_modelo c = t then 0 else 1)"
    using view_eq(1,2,4)[OF rep] by (simp_all add: tail_spec_del reply_ok_def)
  ultimately show ?thesis
    using send ex
    by (auto simp: rlist_remove_by_model_def malloc_block_def same_blocks_def tail_spec_del)
qed

text \<open>\<open>rlist_get_by_marca\<close> gives the client a car of its own, equal to the first one of that
  make in the list of the server, and NULL when there is none or the client's clock makes it invalid;
  the list of the server is as before.\<close>

lemma remote_get_by_marca:
  assumes "session_inv l year sv xs ls" "length xs < 2147483647" "0 \<le> sint (sockfd rl)" "all_granted m"
    and "list_all (car_valid year) xs" "mem_wf m" "marca \<le> 4"
    and "carried cd (get_request marca) (fst (tail_spec year (get_request marca) xs)) bq br s p"
  shows "\<exists>r s' m'. rlist_get_by_marca cd (Some rl) marca s m = Some (r, s', m') \<and>
    exchanged cd peer bq br s s' p l sv xs \<and>
    (case find (\<lambda>c. c_marca c = marca) xs of
       None \<Rightarrow> r = None \<and> same_blocks m m'
     | Some c \<Rightarrow> if car_valid (ano_atual m) c then \<exists>d t. r = Some d \<and> m_datas m d = None \<and> car_at m' d t c
         else r = None \<and> same_blocks m m')"
proof -
  let ?m = "m\<lparr>m_brk := m_brk m + 2\<rparr>"
  have avail: "m_avail m k" for k using assms(4) by (simp add: all_granted_def)
  obtain rep s' where
    send: "network_send_receive cd (Some rl) (Some (get_request marca)) s m = Some (Some rep, s', ?m)"
    and rep: "view rep = view (fst (tail_spec year (get_request marca) xs))"
    and ex: "exchanged cd peer bq br s s' p l sv (snd (tail_spec year (get_request marca) xs))"
    using remote_exchange[OF assms(1) requests_ok(2)[OF assms(2)] requests_ok(8) assms(8,3) avail avail] by metis
  have proto: "marca_to_proto marca = marca" "marca \<noteq> -1"
    using assms(7) enum_round_trip(1) enum_not_error by blast+
  have run: "rlist_get_by_marca cd (Some rl) marca s m =
      (if \<not> op_success (Some rep) OP_GET CT_DATA then Some (None, s', ?m)
       else do {
         d \<leftarrow> msg_data rep;
         (data, m2) \<leftarrow> data_create (p_ano d) (p_preco d) (proto_to_marca (p_marca d)) (p_modelo d)
           (proto_to_combustivel (p_combustivel d)) ?m;
         Some (data, s', m2)
       })"
    using send proto by (simp add: rlist_get_by_marca_def get_request_def)
  have same: "same_blocks m ?m" by (simp add: same_blocks_def)
  have ex': "exchanged cd peer bq br s s' p l sv xs" using ex by (simp add: tail_spec_get)
  show ?thesis
  proof (cases "find (\<lambda>c. c_marca c = marca) xs")
    case None
    then have "msg_opcode rep = OP_ERROR"
      using view_eq(1)[OF rep] by (simp add: tail_spec_get reply_error_def)
    with None run same ex' show ?thesis by (simp add: op_success_def)
  next
    case (Some c)
    then have fields: "msg_opcode rep = OP_GET + 1" "msg_c_type rep = CT_DATA" "msg_data rep = Some (pdata_of c)"
      using view_eq(1-3)[OF rep] by (simp_all add: tail_spec_get reply_ok_def)
    have "c \<in> set xs" using Some by (auto simp: find_Some_iff)
    then have "c_marca c \<le> 4" "c_combustivel c \<le> 3" using assms(5) by (auto simp: list_all_iff car_valid_def)
    then have enums: "proto_to_marca (c_marca c) = c_marca c" "proto_to_combustivel (c_combustivel c) = c_combustivel c"
      using enum_round_trip by blast+
    have wf: "mem_wf ?m" and year: "ano_atual ?m = ano_atual m"
      using same_blocks_wf[OF same assms(6)] ano_atual_same[OF same] by simp_all
    have run': "rlist_get_by_marca cd (Some rl) marca s m =
        do { (data, m2) \<leftarrow> data_create_car c ?m; Some (data, s', m2) }"
      using run fields enums by (simp add: op_success_def)
    show ?thesis
    proof (cases "car_valid (ano_atual m) c")
      case True
      moreover have "two_blocks_granted ?m" using avail by (simp add: two_blocks_granted_def)
      ultimately have "data_create_car c ?m = Some (Some (m_brk ?m), with_car c ?m)"
        using data_create_ok[of ?m c] year by simp
      moreover have "m_datas m (m_brk ?m) = None" using mem_wf_fresh[OF wf, of "m_brk ?m"] by simp
      ultimately show ?thesis
        using run' Some True ex' car_at_with_car[of c ?m] by auto
    next
      case False
      then obtain m' where "data_create_car c ?m = Some (None, m')" "same_blocks ?m m'"
        using data_create_fail[OF wf, of c] year by auto
      with run' Some False ex' same_blocks_trans[OF same] show ?thesis by auto
    qed
  qed
qed

text \<open>What both list operations of the stub do with the reply of the server.\<close>

lemma remote_cars:
  assumes "session_inv l year sv xs ls" "length xs < 2147483647" "0 \<le> sint (sockfd rl)" "all_granted m"
    and "mem_wf m" "carried cd (list_request ano) (fst (tail_spec year (list_request ano) xs)) bq br s p"
  obtains r s' m' where "rlist_cars cd (Some rl) ano s m = Some (r, s', m')"
    "exchanged cd peer bq br s s' p l sv (if ano = -1 then by_year xs else xs)"
    "if listed ano xs \<noteq> [] \<and> list_all (car_valid (ano_atual m)) (listed ano xs)
     then \<exists>m0. same_blocks m m0 \<and> r = Some (car_ptrs (m_brk m0) (length (listed ano xs)) @ [Some None]) \<and>
       cars_from m0 (listed ano xs) 0 m'
     else r = None \<and> same_blocks m m'"
proof -
  have avail: "m_avail m k" for k using assms(4) by (simp add: all_granted_def)
  obtain rep s' where
    send: "network_send_receive cd (Some rl) (Some (list_request ano)) s m = Some (Some rep, s', m\<lparr>m_brk := m_brk m + 2\<rparr>)"
    and rep: "view rep = view (fst (tail_spec year (list_request ano) xs))"
    and ex: "exchanged cd peer bq br s s' p l sv (snd (tail_spec year (list_request ano) xs))"
    using remote_exchange[OF assms(1) requests_ok(1)[OF assms(2)] requests_ok(7) assms(6,3) avail avail] by metis
  let ?ps = "map pdata_of (listed ano xs)"
  have fields: "msg_opcode rep = OP_GETLISTBYTEAR + 1" "msg_c_type rep = CT_LIST"
    using view_eq(1,2)[OF rep] by (simp_all add: tail_spec_list cars_reply_def reply_ok_def)
  have "cells (msg_n_cars rep) (msg_cars rep) = cells (length (map Some ?ps)) (Some (map Some (map Some ?ps) @ []))"
    using view_eq(8)[OF rep] by (simp add: tail_spec_list cars_reply_def reply_ok_def o_def)
  then have cars: "cells (msg_n_cars rep) (msg_cars rep) = map (Some \<circ> Some) ?ps"
    unfolding cells_map_Some by simp
  have valid: "list_all (pdata_valid y) ?ps = list_all (car_valid y) (listed ano xs)" for y
    by (simp add: list.pred_map o_def)
  from rlist_cars_reply[OF send[unfolded list_request_def] fields cars assms(5)] obtain r m' where
    run: "rlist_cars cd (Some rl) ano s m = Some (r, s', m')"
    and r: "case r of
       None \<Rightarrow> same_blocks m m' \<and> \<not> (?ps \<noteq> [] \<and> list_all (pdata_valid (ano_atual m)) ?ps \<and> all_granted m)
     | Some arr \<Rightarrow> ?ps \<noteq> [] \<and> list_all (pdata_valid (ano_atual m)) ?ps \<and>
         (\<exists>m0. same_blocks m m0 \<and> arr = car_ptrs (m_brk m0) (length ?ps) @ [Some None] \<and>
           cars_from m0 (map pdata_car ?ps) 0 m')"
    by blast
  have "map pdata_car ?ps = listed ano xs" by (simp add: o_def)
  with r assms(4) have "if listed ano xs \<noteq> [] \<and> list_all (car_valid (ano_atual m)) (listed ano xs)
     then \<exists>m0. same_blocks m m0 \<and> r = Some (car_ptrs (m_brk m0) (length (listed ano xs)) @ [Some None]) \<and>
       cars_from m0 (listed ano xs) 0 m'
     else r = None \<and> same_blocks m m'"
    unfolding valid by (cases r) auto
  with that run ex show ?thesis by (simp add: tail_spec_list)
qed

text \<open>The array ends with NULL, and its pointers are blocks of their own that hold the cars.\<close>

definition car_array :: "mem \<Rightarrow> ptr arr \<Rightarrow> car list \<Rightarrow> mem \<Rightarrow> bool" where
  "car_array m arr cs m' \<longleftrightarrow> (\<exists>ds. arr = map (Some \<circ> Some) ds @ [Some None] \<and> distinct ds \<and>
     list_all2 (\<lambda>d c. m_datas m d = None \<and> (\<exists>t. car_at m' d t c)) ds cs)"

lemma cars_from_array:
  assumes "cars_from m0 cs 0 m'" "same_blocks m m0" "mem_wf m"
  shows "car_array m (car_ptrs (m_brk m0) (length cs) @ [Some None]) cs m'"
proof -
  let ?ds = "map (\<lambda>k. m_brk m0 + 2 * k) [0..<length cs]"
  have "m_datas m (m_brk m0 + 2 * k) = None" for k
    using assms(2) mem_wf_fresh[OF assms(3), of "m_brk m0 + 2 * k"] by (simp add: same_blocks_def)
  then have "list_all2 (\<lambda>d c. m_datas m d = None \<and> (\<exists>t. car_at m' d t c)) ?ds cs"
    using cars_from_at[OF assms(1)] by (auto simp: list_all2_conv_all_nth)
  moreover have "distinct ?ds" by (simp add: distinct_map inj_on_def)
  moreover have "car_ptrs (m_brk m0) (length cs) = map (Some \<circ> Some) ?ds" by (simp add: car_ptrs_def)
  ultimately show ?thesis unfolding car_array_def by blast
qed

text \<open>\<open>rlist_get_by_year\<close> gives the client copies of its own of exactly the cars of the year in
  the order of the server's list, behind them a NULL; year -1 gives all cars, sorted by year, and
  leaves the server's list sorted.  When there is no such car, or the client's clock makes one
  invalid, the result is NULL and no block is left.\<close>

theorem remote_get_by_year:
  assumes "session_inv l year sv xs ls" "length xs < 2147483647" "0 \<le> sint (sockfd rl)" "all_granted m"
    and "mem_wf m" "carried cd (list_request ano) (fst (tail_spec year (list_request ano) xs)) bq br s p"
  shows "\<exists>r s' m'. rlist_get_by_year cd (Some rl) ano s m = Some (r, s', m') \<and>
    exchanged cd peer bq br s s' p l sv (if ano = -1 then by_year xs else xs) \<and>
    (if listed ano xs \<noteq> [] \<and> list_all (car_valid (ano_atual m)) (listed ano xs)
     then \<exists>arr. r = Some arr \<and> car_array m arr (listed ano xs) m'
     else r = None \<and> same_blocks m m')"
proof -
  obtain r s' m' where "rlist_cars cd (Some rl) ano s m = Some (r, s', m')"
    "exchanged cd peer bq br s s' p l sv (if ano = -1 then by_year xs else xs)"
    "if listed ano xs \<noteq> [] \<and> list_all (car_valid (ano_atual m)) (listed ano xs)
     then \<exists>m0. same_blocks m m0 \<and> r = Some (car_ptrs (m_brk m0) (length (listed ano xs)) @ [Some None]) \<and>
       cars_from m0 (listed ano xs) 0 m'
     else r = None \<and> same_blocks m m'"
    by (rule remote_cars[OF assms])
  then show ?thesis
    using cars_from_array[OF _ _ assms(5)] by (auto simp: rlist_get_by_year_def split: if_splits)
qed

theorem remote_get_by_year_witness:
  "\<exists>arr s' m'. rlist_get_by_year (pair_codec (list_request (-1)) (fst (tail_spec 2025 (list_request (-1)) [yaris, m3])))
      (Some demo_rlist) (-1) demo_client_end demo_mem = Some (Some arr, s', m') \<and> car_array demo_mem arr [m3, yaris] m' \<and>
    exchanged (pair_codec (list_request (-1)) (fst (tail_spec 2025 (list_request (-1)) [yaris, m3]))) None [1] [2]
      demo_client_end s' demo_server_end 0 demo_server [m3, yaris]"
proof -
  have "msg_opcode (list_request (-1)) \<noteq> msg_opcode (fst (tail_spec 2025 (list_request (-1)) [yaris, m3]))"
    by (simp add: tail_spec_list cars_reply_def reply_ok_def)
  then have carried: "carried (pair_codec (list_request (-1)) (fst (tail_spec 2025 (list_request (-1)) [yaris, m3])))
      (list_request (-1)) (fst (tail_spec 2025 (list_request (-1)) [yaris, m3])) [1] [2] demo_client_end demo_server_end"
    by (intro pair_carried) auto
  moreover have "by_year [yaris, m3] = [m3, yaris]" "listed (-1) [yaris, m3] = [m3, yaris]"
    by (simp_all add: listed_def)
  ultimately show ?thesis
    using remote_get_by_year[OF demo_server_inv _ _ _ _ carried, of demo_rlist demo_mem None] by simp blast
qed

text \<open>\<open>rlist_order_by_year\<close> sorts the list of the server by year, keeping the order of cars of
  one year, prints the copies it got and frees all of them: it returns 0 when there was a car to
  print, -1 for an empty list, and the client's blocks are as before.\<close>

lemma remote_order_by_year:
  assumes "session_inv l year sv xs ls" "length xs < 2147483647" "0 \<le> sint (sockfd rl)" "all_granted m"
    and "mem_wf m" "carried cd (list_request (-1)) (fst (tail_spec year (list_request (-1)) xs)) bq br s p"
    and "list_all (car_valid (ano_atual m)) xs"
  shows "\<exists>s' m'. rlist_order_by_year cd (Some rl) s m = Some (if xs = [] then -1 else 0, concat (map car_line (by_year xs)), s', m') \<and>
    exchanged cd peer bq br s s' p l sv (by_year xs) \<and> same_blocks m m'"
proof -
  obtain r s' m' where run: "rlist_cars cd (Some rl) (-1) s m = Some (r, s', m')"
    and ex: "exchanged cd peer bq br s s' p l sv (if (-1 :: i32) = -1 then by_year xs else xs)"
    and r: "if listed (-1) xs \<noteq> [] \<and> list_all (car_valid (ano_atual m)) (listed (-1) xs)
     then \<exists>m0. same_blocks m m0 \<and> r = Some (car_ptrs (m_brk m0) (length (listed (-1) xs)) @ [Some None]) \<and>
       cars_from m0 (listed (-1) xs) 0 m'
     else r = None \<and> same_blocks m m'"
    by (rule remote_cars[OF assms(1-6)])
  have listed: "listed (-1) xs = by_year xs" "by_year xs = [] \<longleftrightarrow> xs = []"
    using length_sort[of "\<lambda>c. sint (c_ano c)" xs] by (auto simp: listed_def simp del: length_sort)
  show ?thesis
  proof (cases "xs = []")
    case True
    with run ex r listed show ?thesis by (simp add: rlist_order_by_year_def)
  next
    case False
    moreover have "list_all (car_valid (ano_atual m)) (by_year xs)" using assms(7) by (simp add: list_all_iff)
    ultimately obtain m0 where m0: "same_blocks m m0" "cars_from m0 (by_year xs) 0 m'"
      and arr: "r = Some (car_ptrs (m_brk m0) (length (by_year xs)) @ [Some None])"
      using r listed by auto
    from cars_print_destroy_ok[OF m0(2) same_blocks_wf[OF m0(1) assms(5)], of "[]"] obtain m2 where
      "cars_print_destroy 0 (car_ptrs (m_brk m0) (length (by_year xs)) @ [Some None]) m' =
         Some (concat (map car_line (by_year xs)), m2)" "same_blocks m0 m2"
      by auto
    with False run ex arr same_blocks_trans[OF m0(1)] show ?thesis
      by (simp add: rlist_order_by_year_def)
  qed
qed

lemma remote_size:
  assumes "session_inv l year sv xs ls" "length xs < 2147483647" "0 \<le> sint (sockfd rl)" "all_granted m"
    and "carried cd size_request (fst (tail_spec year size_request xs)) bq br s p"
  shows "\<exists>s' m'. rlist_size cd (Some rl) s m = Some (int (length xs), s', m') \<and> same_blocks m m' \<and>
    exchanged cd peer bq br s s' p l sv xs"
proof -
  have avail: "m_avail m k" for k using assms(4) by (simp add: all_granted_def)
  obtain rep s' where
    send: "network_send_receive cd (Some rl) (Some size_request) s m = Some (Some rep, s', m\<lparr>m_brk := m_brk m + 2\<rparr>)"
    and rep: "view rep = view (fst (tail_spec year size_request xs))"
    and ex: "exchanged cd peer bq br s s' p l sv (snd (tail_spec year size_request xs))"
    using remote_exchange[OF assms(1) requests_ok(3)[OF assms(2)] requests_ok(9) assms(5,3) avail avail] by metis
  have "msg_opcode rep = OP_SIZE + 1" "msg_c_type rep = CT_RESULT" "sint (msg_result rep) = int (length xs)"
    using view_eq(1,2,4)[OF rep] assms(2) by (simp_all add: tail_spec_size reply_ok_def sint_of_nat_small)
  with send ex show ?thesis
    by (auto simp: rlist_size_def op_success_def size_request_def[symmetric] tail_spec_size same_blocks_def)
qed

lemma models_copy_ok:
  assumes "\<forall>i < length ss. arr_get i a = Some (Some (ss ! i))" "k \<le> length ss" "all_granted m"
  shows "\<exists>m'. models_copy k (length ss) a
      (map (Some \<circ> Some) (take k ss) @ replicate (Suc (length ss - k)) None) m =
        Some (map (Some \<circ> Some) ss @ [None], m') \<and> same_blocks m m'"
  using assms
proof (induction "length ss - k" arbitrary: k m)
  case 0
  then show ?case by (subst models_copy.simps) simp
next
  case (Suc n)
  then have k: "k < length ss" by simp
  let ?m = "m\<lparr>m_brk := Suc (m_brk m)\<rparr>"
  have granted: "all_granted ?m" "m_avail m (m_brk m)" using Suc.prems(3) by (simp_all add: all_granted_def)
  moreover have "n = length ss - Suc k" using Suc.hyps(2) by simp
  from Suc.hyps(1)[OF this Suc.prems(1) _ granted(1)] k obtain m' where
    "models_copy (Suc k) (length ss) a (map (Some \<circ> Some) (take (Suc k) ss) @
       replicate (Suc (length ss - Suc k)) None) ?m = Some (map (Some \<circ> Some) ss @ [None], m')" "same_blocks ?m m'"
    by (auto simp del: replicate_Suc)
  moreover have "arr_set k (Some (ss ! k)) (map (Some \<circ> Some) (take k ss) @ replicate (Suc (length ss - k)) None) =
      Some (map (Some \<circ> Some) (take (Suc k) ss) @ replicate (Suc (length ss - Suc k)) None)"
    using k by (simp add: arr_set_def list_update_append take_Suc_conv_app_nth Suc_diff_Suc)
  moreover have "arr_get k a = Some (Some (ss ! k))" using Suc.prems(1) k by blast
  ultimately show ?case
    using k by (subst models_copy.simps) (auto simp: malloc_block_def same_blocks_def simp del: replicate_Suc)
qed

text \<open>\<open>rlist_get_model_list\<close> gives the client the models of all cars of the server in order,
  behind them a NULL, and \<open>rlist_free_model_list\<close> accepts that array.\<close>

lemma remote_model_list:
  assumes "session_inv l year sv xs ls" "length xs < 2147483647" "0 \<le> sint (sockfd rl)" "all_granted m"
    and "carried cd models_request (fst (tail_spec year models_request xs)) bq br s p"
  shows "\<exists>s' m'. rlist_get_model_list cd (Some rl) s m =
      Some (Some (map (Some \<circ> Some \<circ> c_modelo) xs @ [Some None]), s', m') \<and> same_blocks m m' \<and>
    exchanged cd peer bq br s s' p l sv xs \<and>
    rlist_free_model_list (Some (map (Some \<circ> Some \<circ> c_modelo) xs @ [Some None])) = Some 0"
proof -
  have avail: "m_avail m k" for k using assms(4) by (simp add: all_granted_def)
  let ?ss = "map c_modelo xs" and ?m = "m\<lparr>m_brk := m_brk m + 2\<rparr>"
  obtain rep s' where
    send: "network_send_receive cd (Some rl) (Some models_request) s m = Some (Some rep, s', ?m)"
    and rep: "view rep = view (fst (tail_spec year models_request xs))"
    and ex: "exchanged cd peer bq br s s' p l sv (snd (tail_spec year models_request xs))"
    using remote_exchange[OF assms(1) requests_ok(4)[OF assms(2)] requests_ok(10) assms(5,3) avail avail] by metis
  have fields: "msg_opcode rep = OP_GETMODELS + 1" "msg_c_type rep = CT_MODEL" "msg_n_models rep = length ?ss"
    using view_eq(1,2,5)[OF rep] by (simp_all add: tail_spec_models reply_ok_def)
  have ends: "terminated ?ss = map Some (map Some ?ss) @ [Some None]" by (simp add: terminated_def o_def)
  have "cells (msg_n_models rep) (msg_models rep) = cells (length (map Some ?ss)) (Some (map Some (map Some ?ss) @ [Some None]))"
    using view_eq(7)[OF rep] by (simp add: tail_spec_models reply_ok_def ends)
  then have cells: "cells (length ?ss) (msg_models rep) = map Some (map Some ?ss)"
    unfolding cells_map_Some fields(3) .
  let ?mem = "?m\<lparr>m_brk := Suc (m_brk ?m)\<rparr>"
  have granted: "all_granted ?mem" using assms(4) by (simp add: all_granted_def)
  have arr: "malloc_arr (int (length ?ss) + 1) ?m = (Some (replicate (Suc (length ?ss)) None :: string option arr), ?mem)"
    using avail by (simp add: malloc_arr_def nat_add_distrib)
  obtain m' where copy: "(if length ?ss = 0 then Some (replicate (Suc (length ?ss)) None, ?mem)
      else do { res_models \<leftarrow> msg_models rep;
        models_copy 0 (length ?ss) res_models (replicate (Suc (length ?ss)) None) ?mem }) =
      Some (map (Some \<circ> Some) ?ss @ [None], m')" "same_blocks ?mem m'"
  proof (cases "xs = []")
    case True
    then show ?thesis using that[of ?mem] by simp
  next
    case False
    with cells_filled(2)[OF cells] obtain a where
      a: "msg_models rep = Some a" "\<forall>i < length ?ss. arr_get i a = Some (Some (?ss ! i))" by force
    from models_copy_ok[OF a(2) _ granted, of 0] a(1) False that show ?thesis by auto
  qed
  have set: "arr_set (length ?ss) None (map (Some \<circ> Some) ?ss @ [None]) =
      Some (map (Some \<circ> Some \<circ> c_modelo) xs @ [Some None])"
    by (simp add: arr_set_def list_update_append o_def)
  have "rlist_get_model_list cd (Some rl) s m = Some (Some (map (Some \<circ> Some \<circ> c_modelo) xs @ [Some None]), s', m')"
    using send fields arr copy(1) set
    by (cases "xs = []")
      (auto simp: rlist_get_model_list_def models_request_def[symmetric] op_success_def bind_eq_Some_conv)
  moreover have "same_blocks m m'" using copy(2) by (simp add: same_blocks_def)
  moreover have "rlist_free_model_list (Some (map (Some \<circ> Some \<circ> c_modelo) xs @ [Some None])) = Some 0"
    using list_free_model_list_ok[of ?ss] ends by (simp add: rlist_free_model_list_def o_def)
  ultimately show ?thesis using ex by (simp add: tail_spec_models)
qed

end
