(* ===== verification/ListClient.thy ===== *)
theory ListClient
  imports ChainClient Remote
begin

text \<open>
  \<open>source/list_client.c\<close>: the interactive client.  Each line it reads is one command; the
  commands that change the list go to the head of the chain and the others to the tail.  The
  watcher of ZooKeeper, which may replace both connections, and a command exclude one another by
  \<open>rls_lock\<close>, so a run is a sequence of turns: the events the watcher handled, then one line.
\<close>

section \<open>The state\<close>

text \<open>
  \<open>cs_out\<close> is what the program prints itself on its standard output; the messages of the
  layers below about failures are left out.
\<close>

record client =
  cs_chain :: client_chain
  cs_mem :: mem
  cs_out :: string
  cs_shutdown :: bool

definition say :: "string \<Rightarrow> client \<Rightarrow> client" where
  "say text cs = cs\<lparr>cs_out := cs_out cs @ text\<rparr>"

text \<open>The state after an operation on the connection to the head, or to the tail.\<close>

definition at_head :: "conn \<Rightarrow> mem \<Rightarrow> client \<Rightarrow> client" where
  "at_head s m cs = cs\<lparr>cs_chain := (cs_chain cs)\<lparr>head_conn := s\<rparr>, cs_mem := m\<rparr>"

definition at_tail :: "conn \<Rightarrow> mem \<Rightarrow> client \<Rightarrow> client" where
  "at_tail s m cs = cs\<lparr>cs_chain := (cs_chain cs)\<lparr>tail_conn := s\<rparr>, cs_mem := m\<rparr>"

text \<open>The bytes of the letters outside ASCII in the messages.\<close>

definition utf8 :: "nat list \<Rightarrow> string" where
  "utf8 bs = map char_of bs"

section \<open>Helpers\<close>

definition handle_sigint :: "client \<Rightarrow> client" where
  "handle_sigint cs = cs\<lparr>cs_shutdown := True\<rparr>"

text \<open>The number, or \<open>None\<close> for the result -1.\<close>

definition parse_int_str :: "string option \<Rightarrow> i32 option" where
  "parse_int_str s =
     (case s of
        None \<Rightarrow> None
      | Some s \<Rightarrow> (case strtol s of
            None \<Rightarrow> None
          | Some (v, end) \<Rightarrow>
              if end \<noteq> [] then None
              else if v < - 2147483648 \<or> 2147483647 < v then None
              else Some (word_of_int v)))"

text \<open>The number written by \<open>%d\<close> is read back; a number outside the range of an \<open>int\<close> is
  refused, not cut.\<close>

theorem parse_int_round_trip:
  "parse_int_str (Some (dec_int i)) =
     (if i < - 2147483648 \<or> 2147483647 < i then None else Some (word_of_int i))"
proof -
  have "long_clamp i < - 2147483648 \<longleftrightarrow> i < - 2147483648" "2147483647 < long_clamp i \<longleftrightarrow> 2147483647 < i"
    by (simp_all add: long_clamp_def min_def max_def)
  moreover have "\<not> (i < - 2147483648 \<or> 2147483647 < i) \<Longrightarrow> long_clamp i = i"
    by (simp add: long_clamp_def)
  ultimately show ?thesis by (simp add: parse_int_str_def strtol_dec_int)
qed

definition help_text :: string where
  "help_text =
     ''Comandos dispon'' @ utf8 [0xC3, 0xAD] @ ''veis: '' @ nl @
     ''  add <modelo> <ano> <preco> <marca:0-4> <combustivel:0-3> '' @ nl @
     ''  remove <modelo> '' @ nl @
     ''  get_by_marca <marca:0-4> '' @ nl @
     ''  get_by_year <ano> '' @ nl @
     ''  get_list_ordered_by_year '' @ nl @
     ''  size '' @ nl @
     ''  get_model_list '' @ nl @
     ''  help '' @ nl @
     ''  quit '' @ nl"

definition cmd_help :: "client \<Rightarrow> client" where
  "cmd_help cs = say help_text cs"

definition print_car :: "ptr \<Rightarrow> client \<Rightarrow> client option" where
  "print_car car cs =
     (if car = None then Some cs
      else do {
        d \<leftarrow> deref m_datas car (cs_mem cs);
        modelo \<leftarrow> c_string (d_modelo d) (cs_mem cs);
        Some (say (''Modelo: '' @ (case modelo of None \<Rightarrow> ''(null)'' | Some s \<Rightarrow> s) @ '' '' @ nl @
          ''Ano: '' @ dec_int (sint (d_ano d)) @ '' '' @ nl @
          ''Preco: '' @ float_2f (d_preco d) @ '' '' @ nl @
          ''Marca: '' @ dec_int (uint (d_marca d)) @ '' '' @ nl @
          ''Combustivel: '' @ dec_int (uint (d_combustivel d)) @ nl) cs)
      })"

section \<open>The commands\<close>

text \<open>Each takes the rest of the line behind the name of the command, as \<open>strtok\<close> left it.\<close>

definition cmd_size :: "codec \<Rightarrow> client \<Rightarrow> client option" where
  "cmd_size cd cs = do {
     (res, s, m) \<leftarrow> rlist_size cd (list_tail (cs_chain cs)) (tail_conn (cs_chain cs)) (cs_mem cs);
     Some (say (if res = -1 then ''Erro ao obter n'' @ utf8 [0xC3, 0xBA] @ ''mero de carros na lista'' @ nl
                else ''List size: '' @ dec_int res @ nl) (at_tail s m cs))
   }"

definition add_usage :: string where
  "add_usage = ''Uso: add <modelo> <ano> <preco> <marca:0-4> <combustivel:0-3>'' @ nl"

definition cmd_add :: "codec \<Rightarrow> string \<Rightarrow> client \<Rightarrow> client option" where
  "cmd_add cd rest cs =
     (let (modelo, rest) = strtok rest; (ano_s, rest) = strtok rest; (preco_s, rest) = strtok rest;
          (marca_s, rest) = strtok rest; (comb_s, rest) = strtok rest
      in if modelo = None \<or> ano_s = None \<or> preco_s = None \<or> marca_s = None \<or> comb_s = None
         then Some (say add_usage cs)
         else do {
           (car, m1) \<leftarrow> data_create (atoi (the ano_s)) (strtof (the preco_s)) (atoi (the marca_s)) modelo
             (atoi (the comb_s)) (cs_mem cs);
           if car = None then Some (say add_usage (cs\<lparr>cs_mem := m1\<rparr>))
           else do {
             (r, s, m2) \<leftarrow> rlist_add cd (list_head (cs_chain cs)) car (head_conn (cs_chain cs)) m1;
             (_, m3) \<leftarrow> data_destroy car m2;
             Some (say (if r = 0 then ''Carro adicionado com sucesso.'' @ nl
                        else ''Falha ao adicionar carro'' @ nl) (at_head s m3 cs))
           }
         })"

definition cmd_remove :: "codec \<Rightarrow> string \<Rightarrow> client \<Rightarrow> client option" where
  "cmd_remove cd rest cs =
     (let (modelo, rest) = strtok rest
      in if modelo = None then Some (say (''Uso: remove <modelo>'' @ nl) cs)
      else do {
        (r, s, m) \<leftarrow> rlist_remove_by_model cd (list_head (cs_chain cs)) modelo (head_conn (cs_chain cs)) (cs_mem cs);
        Some (say (if r = 0 then ''Removido com sucesso'' @ nl
                   else if r = 1 then ''Modelo nao encontrado'' @ nl
                   else ''Erro a remover'' @ nl) (at_head s m cs))
      })"

definition cmd_get_by_marca :: "codec \<Rightarrow> string \<Rightarrow> client \<Rightarrow> client option" where
  "cmd_get_by_marca cd rest cs =
     (let (marca_s, rest) = strtok rest
      in case parse_int_str marca_s of
        None \<Rightarrow> Some (say (''Uso: get_by_marca <marca:0-4>'' @ nl) cs)
      | Some marca \<Rightarrow> do {
          (car, s, m) \<leftarrow> rlist_get_by_marca cd (list_tail (cs_chain cs)) marca (tail_conn (cs_chain cs)) (cs_mem cs);
          if car = None
          then Some (say (''Carro n'' @ utf8 [0xC3, 0xA3] @ ''o encontrado.'' @ nl) (at_tail s m cs))
          else do {
            cs1 \<leftarrow> print_car car (at_tail s m cs);
            (_, m1) \<leftarrow> data_destroy car (cs_mem cs1);
            Some (cs1\<lparr>cs_mem := m1\<rparr>)
          }
        })"

text \<open>\<open>for (int i = 0; cars[i] != NULL; i++)\<close>\<close>

partial_function (option) print_destroy_cars :: "nat \<Rightarrow> ptr arr \<Rightarrow> client \<Rightarrow> client option" where
  "print_destroy_cars i cars cs = do {
     car \<leftarrow> arr_get i cars;
     if car = None then Some cs
     else do {
       cs1 \<leftarrow> print_car car cs;
       (_, m) \<leftarrow> data_destroy car (cs_mem cs1);
       print_destroy_cars (Suc i) cars (cs1\<lparr>cs_mem := m\<rparr>)
     }
   }"

definition cmd_get_by_year :: "codec \<Rightarrow> string \<Rightarrow> client \<Rightarrow> client option" where
  "cmd_get_by_year cd rest cs =
     (let (ano_s, rest) = strtok rest
      in case parse_int_str ano_s of
        None \<Rightarrow> Some (say (''Uso: get_by_year <ano>'' @ nl) cs)
      | Some ano \<Rightarrow> do {
          (cars, s, m) \<leftarrow> rlist_get_by_year cd (list_tail (cs_chain cs)) ano (tail_conn (cs_chain cs)) (cs_mem cs);
          case cars of
            None \<Rightarrow> Some (say (''Nenhum carro encontrado com o ano especificado.'' @ nl) (at_tail s m cs))
          | Some cars \<Rightarrow> print_destroy_cars 0 cars (at_tail s m cs)
        })"

definition cmd_get_list_ordered :: "codec \<Rightarrow> client \<Rightarrow> client option" where
  "cmd_get_list_ordered cd cs = do {
     (r, printed, s, m) \<leftarrow> rlist_order_by_year cd (list_tail (cs_chain cs)) (tail_conn (cs_chain cs)) (cs_mem cs);
     Some (say (printed @ (if r \<noteq> 0 then ''Nenhum carro encontrado.'' @ nl else [])) (at_tail s m cs))
   }"

partial_function (option) print_models :: "nat \<Rightarrow> string option arr \<Rightarrow> client \<Rightarrow> client option" where
  "print_models i models cs = do {
     s \<leftarrow> arr_get i models;
     case s of
       None \<Rightarrow> Some cs
     | Some s \<Rightarrow> print_models (Suc i) models (say (''Modelo: '' @ s @ nl) cs)
   }"

definition cmd_get_model_list :: "codec \<Rightarrow> client \<Rightarrow> client option" where
  "cmd_get_model_list cd cs = do {
     (models, s, m) \<leftarrow> rlist_get_model_list cd (list_tail (cs_chain cs)) (tail_conn (cs_chain cs)) (cs_mem cs);
     case models of
       None \<Rightarrow> Some (say (''Erro a obter lista de modelos'' @ nl) (at_tail s m cs))
     | Some models \<Rightarrow> print_models 0 models (at_tail s m cs)
   }"

section \<open>One line\<close>

definition run_command :: "codec \<Rightarrow> string \<Rightarrow> client \<Rightarrow> client option" where
  "run_command cd input cs =
     (case strtok input of
        (None, _) \<Rightarrow> Some cs
      | (Some cmd, rest) \<Rightarrow>
          if cmd = ''help'' then Some (cmd_help cs)
          else if cmd = ''size'' then cmd_size cd cs
          else if cmd = ''add'' then cmd_add cd rest cs
          else if cmd = ''remove'' then cmd_remove cd rest cs
          else if cmd = ''get_by_marca'' then cmd_get_by_marca cd rest cs
          else if cmd = ''get_by_year'' then cmd_get_by_year cd rest cs
          else if cmd = ''get_list_ordered_by_year'' then cmd_get_list_ordered cd cs
          else if cmd = ''get_model_list'' then cmd_get_model_list cd cs
          else Some (say (''Comando inv'' @ utf8 [0xC3, 0xA1] @
                 ''lido. Escreve 'help' para ajuda. '' @ nl) cs))"

section \<open>The loop and main\<close>

text \<open>
  What the environment does before a command takes the lock: the events the watcher handles,
  whether a signal arrives, and what \<open>fgets\<close> stores (\<open>None\<close> at the end of the input and
  when a signal interrupts it).
\<close>

record watch_event =
  we_dialer :: dialer
  we_head_peers :: "string \<Rightarrow> conn"
  we_tail_peers :: "string \<Rightarrow> conn"
  we_zoo :: zoo
  we_connected :: bool
  we_child :: bool

record input_turn =
  it_events :: "watch_event list"
  it_signal :: bool
  it_line :: "string option"

fun watch_events :: "codec \<Rightarrow> watch_event list \<Rightarrow> client \<Rightarrow> client option" where
  "watch_events cd [] cs = Some cs"
| "watch_events cd (e # es) cs = do {
     (cc, m) \<leftarrow> client_child_watcher cd (we_dialer e) (we_head_peers e) (we_tail_peers e) (we_zoo e)
       (we_connected e) (we_child e) (cs_chain cs) (cs_mem cs);
     watch_events cd es (cs\<lparr>cs_chain := cc, cs_mem := m\<rparr>)
   }"

text \<open>The line is cut at its newline and, as every string, at its first NUL.\<close>

definition cut_line :: "string \<Rightarrow> string" where
  "cut_line s = takeWhile (\<lambda>c. of_char c \<notin> {0, 10 :: nat}) s"

text \<open>One turn: the state, and whether the loop goes on.\<close>

definition input_step :: "codec \<Rightarrow> input_turn \<Rightarrow> client \<Rightarrow> (bool \<times> client) option" where
  "input_step cd t cs = do {
     cs1 \<leftarrow> watch_events cd (it_events t) (say ''Command: '' cs);
     let cs2 = (if it_signal t then handle_sigint cs1 else cs1);
     case it_line t of
       None \<Rightarrow> Some (\<not> cs_shutdown cs2, cs2)
     | Some line \<Rightarrow>
         if cs_shutdown cs2 then Some (False, cs2)
         else let input = cut_line line
         in if input = ''quit'' then Some (False, cs2)
         else map_option (Pair True) (run_command cd input cs2)
   }"

partial_function (option) client_main_loop :: "codec \<Rightarrow> (nat \<Rightarrow> input_turn) \<Rightarrow> nat \<Rightarrow> client \<Rightarrow> client option" where
  "client_main_loop cd turns n cs = do {
     (more, cs1) \<leftarrow> input_step cd (turns n) cs;
     if more then client_main_loop cd turns (Suc n) cs1 else Some cs1
   }"

text \<open>The end of \<open>main\<close>.\<close>

definition disconnect_text :: string where
  "disconnect_text = ''Erro ao desconectar do '' @ utf8 [0xC3, 0xBA] @ ''ltimo servidor'' @ nl"

definition client_stop :: "client \<Rightarrow> client option" where
  "client_stop cs =
     (let cc = cs_chain cs;
          (rh, hs) = rlist_disconnect (list_head cc) (head_conn cc);
          cs1 = (if list_head cc = None then cs
                 else at_head hs (cs_mem cs) (if rh = -1 then say disconnect_text cs else cs));
          (rt, ts) = rlist_disconnect (list_tail cc) (tail_conn cc);
          cs2 = (if list_tail cc = None then cs1
                 else at_tail ts (cs_mem cs) (if rt = -1 then say disconnect_text cs1 else cs1))
      in do {
        cc' \<leftarrow> zoo_clean_client (cs_chain cs2);
        Some (cs2\<lparr>cs_chain := cc'\<rparr>)
      })"

definition client_main ::
  "codec \<Rightarrow> dialer \<Rightarrow> (string \<Rightarrow> conn) \<Rightarrow> (string \<Rightarrow> conn) \<Rightarrow> zoo \<Rightarrow> bool \<Rightarrow> string list \<Rightarrow> (nat \<Rightarrow> input_turn) \<Rightarrow>
     client \<Rightarrow> (int \<times> client) option" where
  "client_main cd os head_peers tail_peers zk sigaction_ok argv turns cs =
     (if \<not> sigaction_ok then Some (-1, say (''sigaction'' @ nl) cs)
      else if length argv \<noteq> 2
      then Some (-1, say (''Argumentos inv'' @ utf8 [0xC3, 0xA1] @ ''lidos!'' @ nl @
             ''Uso: list_client <zk_host:port> '' @ nl) cs)
      else do {
        (rc, cc, m) \<leftarrow> zoo_init_client cd os head_peers tail_peers zk (Some (argv ! 1)) (cs_chain cs) (cs_mem cs);
        let cs1 = cs\<lparr>cs_chain := cc, cs_mem := m\<rparr>;
        if rc < 0 then do {
          cc' \<leftarrow> zoo_clean_client cc;
          Some (1, (say (''Erro ao conectar ao zookeeper a terminar'' @ nl) cs1)\<lparr>cs_chain := cc'\<rparr>)
        }
        else do {
          cs2 \<leftarrow> client_main_loop cd turns 0 (cmd_help cs1);
          cs3 \<leftarrow> client_stop cs2;
          Some (0, cs3)
        }
      })"

end
