(* ===== verification/ClientRun.thy ===== *)
theory ClientRun
  imports ListClient
begin

text \<open>
  What a command of \<open>list_client.c\<close> does whatever the servers answer: which connection it uses,
  and that it leaves no block of memory behind.
\<close>

lemmas [cmd_defs] = cmd_size_def cmd_remove_def cmd_get_by_marca_def cmd_get_by_year_def cmd_get_list_ordered_def
  cmd_get_model_list_def

section \<open>Changes of the state\<close>

lemma client_state [simp]:
  "cs_chain (say t cs) = cs_chain cs" "cs_mem (say t cs) = cs_mem cs" "cs_shutdown (say t cs) = cs_shutdown cs"
  "cs_out (say t cs) = cs_out cs @ t"
  "cs_mem (at_head s m cs) = m" "cs_mem (at_tail s m cs) = m" "cs_out (at_head s m cs) = cs_out cs"
  "cs_out (at_tail s m cs) = cs_out cs" "cs_shutdown (at_head s m cs) = cs_shutdown cs"
  "cs_shutdown (at_tail s m cs) = cs_shutdown cs"
  "cs_chain (at_head s m cs) = (cs_chain cs)\<lparr>head_conn := s\<rparr>"
  "cs_chain (at_tail s m cs) = (cs_chain cs)\<lparr>tail_conn := s\<rparr>"
  by (simp_all add: say_def at_head_def at_tail_def)

lemma say_say: "say t (say u cs) = say (u @ t) cs" "say [] cs = cs"
  by (simp_all add: say_def)

lemma say_mem: "cs\<lparr>cs_mem := cs_mem cs\<rparr> = cs" "(say t cs)\<lparr>cs_mem := m\<rparr> = say t (cs\<lparr>cs_mem := m\<rparr>)"
  "(at_tail s m1 cs)\<lparr>cs_mem := m\<rparr> = at_tail s m cs"
  by (simp_all add: say_def at_tail_def)

lemma print_car_text: "print_car car cs = map_option (\<lambda>t. say t cs) (stub_print_car car (cs_mem cs))"
  by (simp add: print_car_def stub_print_car_def car_text_def say_say
      split: Option.bind_split)

lemma print_car_chain:
  "print_car car cs = Some cs' \<Longrightarrow> cs_chain cs' = cs_chain cs \<and> cs_mem cs' = cs_mem cs \<and> cs_shutdown cs' = cs_shutdown cs"
  by (auto simp: print_car_text)

lemma print_destroy_chain:
  "print_destroy_cars i cars cs = Some cs' \<Longrightarrow> cs_chain cs' = cs_chain cs \<and> cs_shutdown cs' = cs_shutdown cs"
proof (induction rule: print_destroy_cars.raw_induct[rotated, consumes 1, case_names step])
  case (step self i cars cs cs')
  from step(2) obtain p where p: "arr_get i cars = Some p" by (auto simp: bind_eq_Some_conv)
  show ?case
  proof (cases p)
    case None
    with step(2) p show ?thesis by simp
  next
    case (Some a)
    with step(2) p obtain cs1 m where "print_car p cs = Some cs1" "self (Suc i) cars (cs1\<lparr>cs_mem := m\<rparr>) = Some cs'"
      by (auto simp: bind_eq_Some_conv)
    with step(1)[OF this(2)] show ?thesis using print_car_chain by fastforce
  qed
qed

lemma print_models_same:
  "print_models i models cs = Some cs' \<Longrightarrow>
     cs_chain cs' = cs_chain cs \<and> cs_mem cs' = cs_mem cs \<and> cs_shutdown cs' = cs_shutdown cs"
proof (induction rule: print_models.raw_induct[rotated, consumes 1, case_names step])
  case (step self i models cs cs')
  from step(2) obtain s where s: "arr_get i models = Some s" by (auto simp: bind_eq_Some_conv)
  show ?case
  proof (cases s)
    case None
    with step(2) s show ?thesis by simp
  next
    case (Some t)
    with step(2) s have "self (Suc i) models (say (''Modelo: '' @ t @ nl) cs) = Some cs'" by simp
    from step(1)[OF this] show ?thesis by simp
  qed
qed

text \<open>The two printing loops do the same: that of the stub returns the text, that of the client prints it.\<close>

lemma print_destroy_cars_text:
  "cars_print_destroy i arr m = Some r \<Longrightarrow> cs_mem cs = m \<Longrightarrow>
     print_destroy_cars i arr cs = Some (say (fst r) (cs\<lparr>cs_mem := snd r\<rparr>))"
proof (induction arbitrary: cs rule: cars_print_destroy.raw_induct[rotated, consumes 1, case_names step])
  case (step self i arr m r)
  from step(2) obtain p where p: "arr_get i arr = Some p" by (auto simp: bind_eq_Some_conv)
  show ?case
  proof (cases p)
    case None
    with step(2,3) p show ?thesis by (subst print_destroy_cars.simps) (auto simp: say_say say_mem)
  next
    case (Some a)
    with step(2) p obtain tx q m1 r1 where run: "stub_print_car p m = Some tx" "data_destroy p m = Some (q, m1)"
      and rec: "self (Suc i) arr m1 = Some r1" and r: "r = (tx @ fst r1, snd r1)"
      by (auto simp: bind_eq_Some_conv)
    have "print_destroy_cars (Suc i) arr (say tx (cs\<lparr>cs_mem := m1\<rparr>)) =
        Some (say (fst r1) ((say tx (cs\<lparr>cs_mem := m1\<rparr>))\<lparr>cs_mem := snd r1\<rparr>))"
      by (rule step(1)[OF rec]) simp
    with Some p run r step(3) show ?thesis
      by (subst print_destroy_cars.simps) (simp add: print_car_text say_say say_mem(2))
  qed
qed

section \<open>Blocks\<close>

text \<open>What the operations of the stub leave of the blocks of the client, whatever the reply is.\<close>

lemma rlist_add_same:
  assumes "rlist_add cd rl car s m = Some (r, s', m')"
  shows "same_blocks m m'"
proof -
  have "same_blocks m m'" if "network_send_receive cd rl msg s (m\<lparr>m_brk := Suc (m_brk m)\<rparr>) = Some (q, s', m')" for q msg
    using network_send_receive_same[OF that] by (simp add: same_blocks_def)
  moreover have "same_blocks m (m\<lparr>m_brk := Suc (m_brk m)\<rparr>)" by (simp add: same_blocks_def)
  ultimately show ?thesis using assms
    by (auto simp: rlist_add_def malloc_block_def Let_def bind_eq_Some_conv split: if_splits)
qed

lemma rlist_remove_same:
  assumes "rlist_remove_by_model cd rl t s m = Some (r, s', m')"
  shows "same_blocks m m'"
proof -
  have "same_blocks m m'" if "network_send_receive cd rl msg s (m\<lparr>m_brk := Suc (m_brk m)\<rparr>) = Some (q, s', m')" for q msg
    using network_send_receive_same[OF that] by (simp add: same_blocks_def)
  moreover have "same_blocks m (m\<lparr>m_brk := Suc (m_brk m)\<rparr>)" by (simp add: same_blocks_def)
  ultimately show ?thesis using assms
    by (auto simp: rlist_remove_by_model_def malloc_block_def Let_def bind_eq_Some_conv split: if_splits)
qed

lemma rlist_size_same:
  assumes "rlist_size cd rl s m = Some (r, s', m')"
  shows "same_blocks m m'"
  using assms network_send_receive_same
  by (auto simp: rlist_size_def bind_eq_Some_conv split: if_splits)

lemma models_copy_same: "models_copy i n rm a m = Some r \<Longrightarrow> same_blocks m (snd r)"
proof (induction "n - i" arbitrary: i a m)
  case 0
  then show ?case by (subst (asm) models_copy.simps) auto
next
  case (Suc x)
  then have "i < n" by simp
  with Suc.prems[unfolded models_copy.simps[of i]] obtain a' where
    "models_copy (Suc i) n rm a' (m\<lparr>m_brk := Suc (m_brk m)\<rparr>) = Some r"
    by (auto simp: bind_eq_Some_conv malloc_block_def)
  moreover have "x = n - Suc i" using Suc.hyps(2) by simp
  ultimately show ?case using Suc.hyps(1) by (fastforce simp: same_blocks_def)
qed

lemma rlist_get_model_list_same:
  assumes "rlist_get_model_list cd rl s m = Some (r, s', m')"
  shows "same_blocks m m'"
proof (cases "rl = None")
  case True
  with assms show ?thesis by (simp add: rlist_get_model_list_def)
next
  case False
  with assms obtain res s1 m1 where send: "network_send_receive cd rl (Some (message_t_init\<lparr>msg_opcode := OP_GETMODELS,
      msg_c_type := CT_NONE\<rparr>)) s m = Some (res, s1, m1)"
    by (auto simp: rlist_get_model_list_def bind_eq_Some_conv)
  let ?m1 = "m1\<lparr>m_brk := Suc (m_brk m1)\<rparr>"
  have "m' = m1 \<or> same_blocks ?m1 m'"
    using assms send False
    by (auto simp: rlist_get_model_list_def bind_eq_Some_conv malloc_arr_def dest: models_copy_same split: if_splits)
  moreover have "same_blocks m m1" by (rule network_send_receive_same[OF send])
  moreover from this have "same_blocks m ?m1" by (simp add: same_blocks_def)
  ultimately show ?thesis using same_blocks_trans by blast
qed

lemma rlist_get_by_marca_any:
  assumes "rlist_get_by_marca cd rl marca s m = Some (r, s', m')" "mem_wf m"
  obtains (none) "r = None" "same_blocks m m'"
    | (car) m0 c where "same_blocks m m0" "mem_wf m0" "r = Some (m_brk m0)" "cars_from m0 [c] 0 m'"
proof (cases "rl = None \<or> marca_to_proto marca = -1")
  case True
  with assms that(1) show ?thesis by (auto simp: rlist_get_by_marca_def split: if_splits)
next
  case False
  then obtain res m1 where send: "network_send_receive cd rl (Some (message_t_init\<lparr>msg_opcode := OP_GET,
      msg_c_type := CT_MARCA, msg_result := marca_to_proto marca\<rparr>)) s m = Some (res, s', m1)"
    and rest: "r = None \<and> m' = m1 \<or> (\<exists>d :: pdata. data_create (p_ano d) (p_preco d) (proto_to_marca (p_marca d)) (p_modelo d)
            (proto_to_combustivel (p_combustivel d)) m1 = Some (r, m'))"
    using assms(1) by (fastforce simp: rlist_get_by_marca_def bind_eq_Some_conv split: if_splits)
  have same: "same_blocks m m1" by (rule network_send_receive_same[OF send])
  note wf = same_blocks_wf[OF same assms(2)]
  from rest show ?thesis
  proof
    assume "r = None \<and> m' = m1"
    with same that(1) show ?thesis by simp
  next
    assume "\<exists>d :: pdata. data_create (p_ano d) (p_preco d) (proto_to_marca (p_marca d)) (p_modelo d)
            (proto_to_combustivel (p_combustivel d)) m1 = Some (r, m')"
    then obtain d :: pdata where "data_create (p_ano d) (p_preco d) (proto_to_marca (p_marca d)) (p_modelo d)
            (proto_to_combustivel (p_combustivel d)) m1 = Some (r, m')" by blast
    from data_create_any[OF wf this] show ?thesis
      using that same wf same_blocks_trans[OF same] by metis
  qed
qed

lemma rlist_cars_any:
  assumes "rlist_cars cd rl ano s m = Some (r, s', m')" "mem_wf m"
  obtains (none) "r = None" "same_blocks m m'"
    | (cars) m0 ds where "same_blocks m m0" "mem_wf m0"
      "r = Some (car_ptrs (m_brk m0) (length ds) @ [Some None])" "cars_from m0 ds 0 m'"
proof -
  from assms(1) obtain res s1 m1 where send: "network_send_receive cd rl (Some (message_t_init\<lparr>msg_opcode := OP_GETLISTBYTEAR,
       msg_c_type := CT_RESULT, msg_result := ano\<rparr>)) s m = Some (res, s1, m1)"
    by (auto simp: rlist_cars_def bind_eq_Some_conv split: if_splits)
  have same: "same_blocks m m1" by (rule network_send_receive_same[OF send])
  let ?m0 = "m1\<lparr>m_brk := Suc (m_brk m1)\<rparr>"
  have same0: "same_blocks m ?m0" using same by (simp add: same_blocks_def)
  note wf = same_blocks_wf[OF same0 assms(2)]
  consider "r = None" "m' = m1 \<or> m' = ?m0"
    | n a q where "cars_copy 0 n a (replicate (Suc n) None) ?m0 = Some (q, m')"
      "r = (case q of None \<Rightarrow> None | Some arr \<Rightarrow> arr_set n None arr)" "q \<noteq> None \<longrightarrow> r \<noteq> None"
    using assms(1) send
    by (auto simp: rlist_cars_def malloc_arr_def nat_add_distrib bind_eq_Some_conv simp del: replicate_Suc
        split: if_splits option.splits)
  then show ?thesis
  proof cases
    case 1
    with that(1) same same0 show ?thesis by blast
  next
    case (2 n a q)
    have "cars_from ?m0 [] 0 ?m0" by (simp add: cars_from_Nil)
    from cars_copy_any[OF _ wf _ _ this, of 0 n a q m'] 2(1)
    have q: "case q of None \<Rightarrow> same_blocks ?m0 m'
      | Some arr \<Rightarrow> \<exists>ds. length ds = n \<and> arr = car_ptrs (m_brk ?m0) n @ [None] \<and> cars_from ?m0 ds 0 m'"
      by (simp add: car_ptrs_0)
    show ?thesis
    proof (cases q)
      case None
      with 2(2) q that(1) same_blocks_trans[OF same0] show ?thesis by simp
    next
      case (Some b)
      then obtain ds where ds: "length ds = n" "b = car_ptrs (m_brk ?m0) n @ [None]" "cars_from ?m0 ds 0 m'"
        using q by auto
      then have "r = Some (car_ptrs (m_brk ?m0) (length ds) @ [Some None])"
        using car_ptrs_set[of n None "m_brk ?m0" 0] 2(2) Some by simp
      then show ?thesis by (rule that(2)[OF same0 wf _ ds(3)])
    qed
  qed
qed

lemma print_destroy_cars_ok:
  assumes "cars_from m0 ds 0 (cs_mem cs)" "mem_wf m0"
  obtains m' where "print_destroy_cars 0 (car_ptrs (m_brk m0) (length ds) @ [Some None]) cs =
      Some (say (concat (map car_line ds)) (cs\<lparr>cs_mem := m'\<rparr>))" "same_blocks m0 m'"
proof -
  obtain m' where "cars_print_destroy 0 (car_ptrs (m_brk m0) (length ds) @ [Some None]) (cs_mem cs) =
      Some (concat (map car_line ds), m')" "same_blocks m0 m'"
    using cars_print_destroy_ok[OF assms, of "[]"] by auto
  with that print_destroy_cars_text[of 0 "car_ptrs (m_brk m0) (length ds) @ [Some None]" "cs_mem cs" _ cs]
  show ?thesis by fastforce
qed

lemma print_created:
  assumes "cars_from m0 [c] 0 (cs_mem cs)"
  shows "print_car (Some (m_brk m0)) cs = Some (say (car_line c) cs)"
  using stub_print_car_at[OF cars_from_at[OF assms, of 0]] by (simp add: print_car_text)

subsection \<open>Command by command\<close>

lemma cmd_size_blocks: "cmd_size cd cs = Some cs' \<Longrightarrow> same_blocks (cs_mem cs) (cs_mem cs')"
  by (auto simp: cmd_defs bind_eq_Some_conv dest: rlist_size_same)

lemma cmd_remove_blocks: "cmd_remove cd rest cs = Some cs' \<Longrightarrow> same_blocks (cs_mem cs) (cs_mem cs')"
  by (auto simp: cmd_defs bind_eq_Some_conv dest: rlist_remove_same split: prod.splits if_splits)

lemma cmd_add_cases:
  assumes "cmd_add cd rest cs = Some cs'"
  obtains (usage) "cs' = say add_usage cs"
    | (rejected) ano preco marca modelo comb m1 where
        "data_create ano preco marca modelo comb (cs_mem cs) = Some (None, m1)" "cs' = say add_usage (cs\<lparr>cs_mem := m1\<rparr>)"
    | (sent) ano preco marca modelo comb car m1 r s m2 q m3 t where
        "data_create ano preco marca modelo comb (cs_mem cs) = Some (Some car, m1)"
        "rlist_add cd (list_head (cs_chain cs)) (Some car) (head_conn (cs_chain cs)) m1 = Some (r, s, m2)"
        "data_destroy (Some car) m2 = Some (q, m3)" "cs' = say t (at_head s m3 cs)"
proof -
  obtain modelo r1 where 1: "strtok rest = (modelo, r1)" by fastforce
  obtain ano_s r2 where 2: "strtok r1 = (ano_s, r2)" by fastforce
  obtain preco_s r3 where 3: "strtok r2 = (preco_s, r3)" by fastforce
  obtain marca_s r4 where 4: "strtok r3 = (marca_s, r4)" by fastforce
  obtain comb_s r5 where 5: "strtok r4 = (comb_s, r5)" by fastforce
  show ?thesis
  proof (cases "modelo = None \<or> ano_s = None \<or> preco_s = None \<or> marca_s = None \<or> comb_s = None")
    case True
    with assms 1 2 3 4 5 usage show ?thesis by (simp add: cmd_add_def)
  next
    case False
    let ?create = "data_create (atoi (the ano_s)) (strtof (the preco_s)) (atoi (the marca_s)) modelo (atoi (the comb_s)) (cs_mem cs)"
    from assms False 1 2 3 4 5 obtain car m1 where create: "?create = Some (car, m1)"
      by (auto simp: cmd_add_def bind_eq_Some_conv)
    show ?thesis
    proof (cases car)
      case None
      with assms False 1 2 3 4 5 create rejected show ?thesis by (auto simp: cmd_add_def)
    next
      case (Some a)
      with assms False 1 2 3 4 5 create show ?thesis
        by (auto simp: cmd_add_def bind_eq_Some_conv intro: sent)
    qed
  qed
qed

lemma cmd_add_blocks:
  assumes "cmd_add cd rest cs = Some cs'" "mem_wf (cs_mem cs)"
  shows "same_blocks (cs_mem cs) (cs_mem cs')"
proof -
  from assms(1) show ?thesis
  proof (cases rule: cmd_add_cases)
    case (rejected ano preco marca modelo comb m1)
    from data_create_any[OF assms(2) rejected(1)] rejected(2) show ?thesis by auto
  next
    case (sent ano preco marca modelo comb car m1 r s m2 q m3 t)
    from data_create_any[OF assms(2) sent(1)] obtain c where
      c: "car = m_brk (cs_mem cs)" "cars_from (cs_mem cs) [c] 0 m1" by auto
    from destroy_created[OF c(2) rlist_add_same[OF sent(2)] assms(2)] sent(3,4) c(1) show ?thesis by fastforce
  qed simp
qed

lemma cmd_get_by_marca_blocks:
  assumes "cmd_get_by_marca cd rest cs = Some cs'" "mem_wf (cs_mem cs)"
  shows "same_blocks (cs_mem cs) (cs_mem cs')"
proof (cases "parse_int_str (fst (strtok rest))")
  case None
  with assms(1) show ?thesis by (auto simp: cmd_get_by_marca_def split: prod.splits)
next
  case (Some marca)
  obtain m_s r1 where "strtok rest = (m_s, r1)" by fastforce
  with assms(1) Some obtain car s m where get: "rlist_get_by_marca cd (list_tail (cs_chain cs)) marca (tail_conn (cs_chain cs))
      (cs_mem cs) = Some (car, s, m)"
    and rest: "(if car = None then Some (say (''Carro n'' @ utf8 [0xC3, 0xA3] @ ''o encontrado.'' @ nl) (at_tail s m cs))
      else do { cs1 \<leftarrow> print_car car (at_tail s m cs); (_, m1) \<leftarrow> data_destroy car (cs_mem cs1);
        Some (cs1\<lparr>cs_mem := m1\<rparr>) }) = Some cs'"
    by (auto simp: cmd_defs bind_eq_Some_conv)
  show ?thesis
  proof (cases rule: rlist_get_by_marca_any[OF get assms(2), case_names none car])
    case none
    with rest show ?thesis by auto
  next
    case (car m0 c)
    have from': "cars_from m0 [c] 0 (cs_mem (at_tail s m cs))" using car(4) by simp
    from print_created[OF from'] rest car(3) obtain q m1 where
      "data_destroy (Some (m_brk m0)) m = Some (q, m1)" "cs_mem cs' = m1" by (auto simp: bind_eq_Some_conv)
    moreover obtain m3 where "data_destroy (Some (m_brk m0)) m = Some (0, m3)" "same_blocks m0 m3"
      by (rule destroy_created[OF car(4) same_blocks_refl car(2)])
    ultimately show ?thesis using same_blocks_trans[OF car(1)] by simp
  qed
qed

lemma cmd_get_by_year_blocks:
  assumes "cmd_get_by_year cd rest cs = Some cs'" "mem_wf (cs_mem cs)"
  shows "same_blocks (cs_mem cs) (cs_mem cs')"
proof (cases "parse_int_str (fst (strtok rest)) = None \<or> list_tail (cs_chain cs) = None")
  case True
  with assms(1) show ?thesis
    by (auto simp: cmd_get_by_year_def rlist_get_by_year_def split: prod.splits option.splits)
next
  case False
  then obtain ano rl where ano: "parse_int_str (fst (strtok rest)) = Some ano"
    and rl: "list_tail (cs_chain cs) = Some rl" by auto
  have "cmd_get_by_year cd rest cs = do {
      (cars, s, m) \<leftarrow> rlist_cars cd (Some rl) ano (tail_conn (cs_chain cs)) (cs_mem cs);
      case cars of
        None \<Rightarrow> Some (say (''Nenhum carro encontrado com o ano especificado.'' @ nl) (at_tail s m cs))
      | Some cars \<Rightarrow> print_destroy_cars 0 cars (at_tail s m cs) }"
    using ano rl by (cases "strtok rest") (simp add: cmd_get_by_year_def rlist_get_by_year_def)
  then obtain cars s m where get: "rlist_cars cd (Some rl) ano (tail_conn (cs_chain cs)) (cs_mem cs) = Some (cars, s, m)"
    and rest: "(case cars of
        None \<Rightarrow> Some (say (''Nenhum carro encontrado com o ano especificado.'' @ nl) (at_tail s m cs))
      | Some cars \<Rightarrow> print_destroy_cars 0 cars (at_tail s m cs)) = Some cs'"
    using assms(1) by (cases "rlist_cars cd (Some rl) ano (tail_conn (cs_chain cs)) (cs_mem cs)") auto
  show ?thesis
  proof (cases rule: rlist_cars_any[OF get assms(2), case_names none cars])
    case none
    with rest show ?thesis by auto
  next
    case (cars m0 ds)
    have from': "cars_from m0 ds 0 (cs_mem (at_tail s m cs))" using cars(4) by simp
    obtain m' where run: "print_destroy_cars 0 (car_ptrs (m_brk m0) (length ds) @ [Some None]) (at_tail s m cs) =
        Some (say (concat (map car_line ds)) ((at_tail s m cs)\<lparr>cs_mem := m'\<rparr>))" "same_blocks m0 m'"
      by (rule print_destroy_cars_ok[OF from' cars(2)])
    have "cs' = say (concat (map car_line ds)) ((at_tail s m cs)\<lparr>cs_mem := m'\<rparr>)"
      using rest unfolding cars(3) option.case run(1) by simp
    then show ?thesis using same_blocks_trans[OF cars(1) run(2)] by simp
  qed
qed

lemma cmd_get_list_ordered_blocks:
  assumes "cmd_get_list_ordered cd cs = Some cs'" "mem_wf (cs_mem cs)"
  shows "same_blocks (cs_mem cs) (cs_mem cs')"
proof (cases "list_tail (cs_chain cs)")
  case None
  with assms(1) show ?thesis
    by (auto simp: cmd_get_list_ordered_def rlist_order_by_year_def bind_eq_Some_conv)
next
  case (Some rl)
  with assms(1) obtain cars s m where get: "rlist_cars cd (list_tail (cs_chain cs)) (-1) (tail_conn (cs_chain cs))
      (cs_mem cs) = Some (cars, s, m)"
    and rest: "case cars of None \<Rightarrow> cs_mem cs' = m
      | Some arr \<Rightarrow> \<exists>t. cars_print_destroy 0 arr m = Some (t, cs_mem cs')"
    by (fastforce simp: cmd_get_list_ordered_def rlist_order_by_year_def bind_eq_Some_conv split: option.splits)
  show ?thesis
  proof (cases rule: rlist_cars_any[OF get assms(2), case_names none cars])
    case none
    with rest show ?thesis by simp
  next
    case (cars m0 ds)
    from cars_print_destroy_ok[OF cars(4,2), of "[]"] rest cars(3) have "same_blocks m0 (cs_mem cs')" by auto
    with same_blocks_trans[OF cars(1)] show ?thesis by simp
  qed
qed

lemma cmd_get_model_list_blocks: "cmd_get_model_list cd cs = Some cs' \<Longrightarrow> same_blocks (cs_mem cs) (cs_mem cs')"
  by (fastforce simp: cmd_defs bind_eq_Some_conv
      dest: rlist_get_model_list_same print_models_same split: option.splits)

lemmas cmd_blocks = cmd_size_blocks cmd_remove_blocks cmd_add_blocks cmd_get_by_marca_blocks cmd_get_by_year_blocks
  cmd_get_list_ordered_blocks cmd_get_model_list_blocks

text \<open>For concrete runs: a client without connections, and one whose connections are those of the demo.\<close>

definition lone_client :: client where
  "lone_client = \<lparr>cs_chain = \<lparr>cc_zh = LiveHandle, list_head = None, head_conn = chunk_conn [],
     list_tail = None, tail_conn = chunk_conn []\<rparr>, cs_mem = demo_mem, cs_out = [], cs_shutdown = False\<rparr>"

definition demo_client :: client where
  "demo_client = \<lparr>cs_chain = \<lparr>cc_zh = LiveHandle, list_head = Some demo_rlist, head_conn = demo_client_end,
     list_tail = Some demo_rlist, tail_conn = demo_client_end\<rparr>, cs_mem = demo_mem, cs_out = [], cs_shutdown = False\<rparr>"

lemma demo_client_sel [simp]:
  "list_head (cs_chain demo_client) = Some demo_rlist" "list_tail (cs_chain demo_client) = Some demo_rlist"
  "head_conn (cs_chain demo_client) = demo_client_end" "tail_conn (cs_chain demo_client) = demo_client_end"
  "cs_mem demo_client = demo_mem" "cs_out demo_client = []"
  "list_head (cs_chain lone_client) = None" "list_tail (cs_chain lone_client) = None" "cs_mem lone_client = demo_mem"
  by (simp_all add: demo_client_def lone_client_def)

section \<open>The words of a line\<close>

text \<open>A word of a command line, and how \<open>strtok\<close> takes the words of a line one by one.\<close>

definition word :: "string \<Rightarrow> bool" where
  "word w \<longleftrightarrow> w \<noteq> [] \<and> CHR '' '' \<notin> set w"

lemma strtok_word [simp]:
  assumes "word w"
  shows "strtok (w @ CHR '' '' # rest) = (Some w, rest)" "strtok w = (Some w, [])"
proof -
  have "CHR '' '' \<notin> set w" "w \<noteq> []" using assms by (simp_all add: word_def)
  then have "dropWhile (\<lambda>c. c = CHR '' '') (w @ r) = w @ r" "takeWhile (\<lambda>c. c \<noteq> CHR '' '') (w @ CHR '' '' # r) = w"
    "dropWhile (\<lambda>c. c \<noteq> CHR '' '') (w @ CHR '' '' # r) = CHR '' '' # r" "takeWhile (\<lambda>c. c \<noteq> CHR '' '') w = w"
    "dropWhile (\<lambda>c. c \<noteq> CHR '' '') w = []" for r
    by (cases w; auto simp: takeWhile_append dropWhile_append)+
  from this(1)[of "[]"] this(1)[of "CHR '' '' # rest"] this(2-5) \<open>w \<noteq> []\<close>
  show "strtok (w @ CHR '' '' # rest) = (Some w, rest)" "strtok w = (Some w, [])"
    by (simp_all add: strtok_def Let_def del: dropWhile_eq_Nil_conv takeWhile_eq_all_conv)
qed

text \<open>The name of a command in front of its arguments.\<close>

lemma run_named:
  "run_command cd (''add '' @ rest) cs = cmd_add cd rest cs"
  "run_command cd (''remove '' @ rest) cs = cmd_remove cd rest cs"
  "run_command cd (''get_by_marca '' @ rest) cs = cmd_get_by_marca cd rest cs"
  "run_command cd (''get_by_year '' @ rest) cs = cmd_get_by_year cd rest cs"
  "run_command cd ''get_list_ordered_by_year'' cs = cmd_get_list_ordered cd cs"
  "run_command cd ''get_model_list'' cs = cmd_get_model_list cd cs"
  "run_command cd ''size'' cs = cmd_size cd cs"
  by (simp_all add: run_command_def strtok_def)

definition typed_car :: "string \<Rightarrow> string \<Rightarrow> string \<Rightarrow> string \<Rightarrow> string \<Rightarrow> car" where
  "typed_car modelo ano preco marca comb = \<lparr>c_ano = atoi ano, c_preco = strtof preco, c_marca = atoi marca,
     c_modelo = modelo, c_combustivel = atoi comb\<rparr>"

text \<open>A command line for a concrete run.\<close>

lemma typed_m3: "typed_car ''M3'' ''1999'' ''20000'' ''1'' ''0'' = m3"
proof -
  have chars: "to_lower (CHR ''2'') = CHR ''2''" "to_lower (CHR ''0'') = CHR ''0''" "\<not> is_space (CHR ''2'')"
    "point_number is_digit ''20000'' = (''20000'', [], [])"
    by code_simp+
  have "float_of_ratio 20000 (Suc 0) = 0x469C4000"
    by (simp add: float_of_ratio_def bit_length_eval round_div_def)
  moreover have "strtof_magnitude ''20000'' = float_of_ratio 20000 (Suc 0)"
    by (simp add: strtof_magnitude_def chars exponent_def Let_def split: prod.splits)
  ultimately have "strtof ''20000'' = 0x469C4000" by (simp add: strtof_def chars)
  moreover have "atoi ''1999'' = 1999" "atoi ''1'' = 1" "atoi ''0'' = 0" by code_simp+
  ultimately show ?thesis by (simp add: typed_car_def m3_def)
qed

section \<open>Properties\<close>



lemma cmd_chain:
  "cmd_size cd cs = Some cs' \<Longrightarrow> \<exists>s. cs_chain cs' = (cs_chain cs)\<lparr>tail_conn := s\<rparr>"
  "cmd_add cd rest cs = Some cs' \<Longrightarrow> \<exists>s. cs_chain cs' = (cs_chain cs)\<lparr>head_conn := s\<rparr>"
  "cmd_remove cd rest cs = Some cs' \<Longrightarrow> \<exists>s. cs_chain cs' = (cs_chain cs)\<lparr>head_conn := s\<rparr>"
  "cmd_get_by_marca cd rest cs = Some cs' \<Longrightarrow> \<exists>s. cs_chain cs' = (cs_chain cs)\<lparr>tail_conn := s\<rparr>"
  "cmd_get_by_year cd rest cs = Some cs' \<Longrightarrow> \<exists>s. cs_chain cs' = (cs_chain cs)\<lparr>tail_conn := s\<rparr>"
  "cmd_get_list_ordered cd cs = Some cs' \<Longrightarrow> \<exists>s. cs_chain cs' = (cs_chain cs)\<lparr>tail_conn := s\<rparr>"
  "cmd_get_model_list cd cs = Some cs' \<Longrightarrow> \<exists>s. cs_chain cs' = (cs_chain cs)\<lparr>tail_conn := s\<rparr>"
proof -
  have same: "\<exists>s. cc = cc\<lparr>head_conn := s\<rparr>" "\<exists>s. cc = cc\<lparr>tail_conn := s\<rparr>" for cc :: client_chain
    by (rule exI[of _ "head_conn cc"], simp, rule exI[of _ "tail_conn cc"], simp)
  show "cmd_size cd cs = Some cs' \<Longrightarrow> \<exists>s. cs_chain cs' = (cs_chain cs)\<lparr>tail_conn := s\<rparr>"
    by (auto simp: cmd_defs bind_eq_Some_conv)
  show "cmd_add cd rest cs = Some cs' \<Longrightarrow> \<exists>s. cs_chain cs' = (cs_chain cs)\<lparr>head_conn := s\<rparr>"
    using same by (auto elim!: cmd_add_cases)
  show "cmd_remove cd rest cs = Some cs' \<Longrightarrow> \<exists>s. cs_chain cs' = (cs_chain cs)\<lparr>head_conn := s\<rparr>"
    using same by (auto simp: cmd_defs bind_eq_Some_conv split: prod.splits if_splits)
  show "cmd_get_by_marca cd rest cs = Some cs' \<Longrightarrow> \<exists>s. cs_chain cs' = (cs_chain cs)\<lparr>tail_conn := s\<rparr>"
    using same by (fastforce simp: cmd_defs bind_eq_Some_conv dest: print_car_chain
        split: prod.splits if_splits option.splits)
  show "cmd_get_by_year cd rest cs = Some cs' \<Longrightarrow> \<exists>s. cs_chain cs' = (cs_chain cs)\<lparr>tail_conn := s\<rparr>"
    using same by (fastforce simp: cmd_defs bind_eq_Some_conv dest: print_destroy_chain
        split: prod.splits option.splits)
  show "cmd_get_list_ordered cd cs = Some cs' \<Longrightarrow> \<exists>s. cs_chain cs' = (cs_chain cs)\<lparr>tail_conn := s\<rparr>"
    by (auto simp: cmd_defs bind_eq_Some_conv)
  show "cmd_get_model_list cd cs = Some cs' \<Longrightarrow> \<exists>s. cs_chain cs' = (cs_chain cs)\<lparr>tail_conn := s\<rparr>"
    by (fastforce simp: cmd_defs bind_eq_Some_conv dest: print_models_same split: option.splits)
qed

text \<open>The commands that change the list use the connection to the head only, all others the connection
  to the tail only; no command replaces a connection.\<close>

theorem client_routes:
  assumes "run_command cd input cs = Some cs'"
  shows "if fst (strtok input) \<in> {Some ''add'', Some ''remove''}
    then \<exists>s. cs_chain cs' = (cs_chain cs)\<lparr>head_conn := s\<rparr>
    else \<exists>s. cs_chain cs' = (cs_chain cs)\<lparr>tail_conn := s\<rparr>"
proof (cases "strtok input")
  case (Pair cmd rest)
  have same: "\<exists>s. cs_chain (say t cs) = (cs_chain cs)\<lparr>tail_conn := s\<rparr>" for t
    by (rule exI[of _ "tail_conn (cs_chain cs)"]) simp
  show ?thesis
  proof (cases cmd)
    case None
    with Pair assms same[of "[]"] show ?thesis by (simp add: run_command_def say_say)
  next
    case (Some c)
    define h t where ht: "h \<longleftrightarrow> (\<exists>s. cs_chain cs' = (cs_chain cs)\<lparr>head_conn := s\<rparr>)"
      "t \<longleftrightarrow> (\<exists>s. cs_chain cs' = (cs_chain cs)\<lparr>tail_conn := s\<rparr>)"
    have ops: "cmd_add cd rest cs = Some cs' \<Longrightarrow> h" "cmd_remove cd rest cs = Some cs' \<Longrightarrow> h"
      "cmd_size cd cs = Some cs' \<Longrightarrow> t" "cmd_get_by_marca cd rest cs = Some cs' \<Longrightarrow> t"
      "cmd_get_by_year cd rest cs = Some cs' \<Longrightarrow> t" "cmd_get_list_ordered cd cs = Some cs' \<Longrightarrow> t"
      "cmd_get_model_list cd cs = Some cs' \<Longrightarrow> t" "say u cs = cs' \<Longrightarrow> t" for u
      unfolding ht by (erule cmd_chain)+ (use same in auto)
    have "if c = ''add'' \<or> c = ''remove'' then h else t"
      using assms Pair Some ops by (simp add: run_command_def cmd_help_def split: if_splits)
    with Pair Some show ?thesis unfolding ht by (simp split: if_splits)
  qed
qed

theorem client_routes_witness:
  "\<exists>s. cs_chain (the (run_command demo_codec ''help'' lone_client)) = (cs_chain lone_client)\<lparr>tail_conn := s\<rparr>"
proof -
  have "strtok ''help'' = (Some ''help'', [])" by code_simp
  then show ?thesis
    using client_routes[of demo_codec "''help''" lone_client "cmd_help lone_client"] by (simp add: run_command_def)
qed

end
