(* ===== verification/ClientCommands.thy ===== *)
theory ClientCommands
  imports ClientRun
begin

text \<open>
  What the user of the client gets from each command when the thread of a server answers it, in
  terms of the abstract list of that server.
\<close>

section \<open>Concrete runs\<close>

text \<open>Every request of the stub differs from the reply it gets.\<close>

lemma demo_carried:
  "carried (pair_codec (add_request c) (fst (tail_spec y (add_request c) xs))) (add_request c)
     (fst (tail_spec y (add_request c) xs)) [1] [2] demo_client_end demo_server_end"
  "carried (pair_codec (del_request t) (fst (tail_spec y (del_request t) xs))) (del_request t)
     (fst (tail_spec y (del_request t) xs)) [1] [2] demo_client_end demo_server_end"
  "carried (pair_codec (list_request a) (fst (tail_spec y (list_request a) xs))) (list_request a)
     (fst (tail_spec y (list_request a) xs)) [1] [2] demo_client_end demo_server_end"
  "carried (pair_codec (get_request k) (fst (tail_spec y (get_request k) xs))) (get_request k)
     (fst (tail_spec y (get_request k) xs)) [1] [2] demo_client_end demo_server_end"
  "carried (pair_codec models_request (fst (tail_spec y models_request xs))) models_request
     (fst (tail_spec y models_request xs)) [1] [2] demo_client_end demo_server_end"
proof -
  have "msg_opcode (add_request c) \<noteq> msg_opcode (fst (tail_spec y (add_request c) xs))"
    "msg_opcode (del_request t) \<noteq> msg_opcode (fst (tail_spec y (del_request t) xs))"
    "msg_opcode (list_request a) \<noteq> msg_opcode (fst (tail_spec y (list_request a) xs))"
    "msg_opcode (get_request k) \<noteq> msg_opcode (fst (tail_spec y (get_request k) xs))"
    "msg_opcode models_request \<noteq> msg_opcode (fst (tail_spec y models_request xs))"
    by (simp_all add: tail_spec_add tail_spec_del tail_spec_list tail_spec_get tail_spec_models cars_reply_def
        reply_ok_def reply_error_def split: option.splits)
  then show
    "carried (pair_codec (add_request c) (fst (tail_spec y (add_request c) xs))) (add_request c)
       (fst (tail_spec y (add_request c) xs)) [1] [2] demo_client_end demo_server_end"
    "carried (pair_codec (del_request t) (fst (tail_spec y (del_request t) xs))) (del_request t)
       (fst (tail_spec y (del_request t) xs)) [1] [2] demo_client_end demo_server_end"
    "carried (pair_codec (list_request a) (fst (tail_spec y (list_request a) xs))) (list_request a)
       (fst (tail_spec y (list_request a) xs)) [1] [2] demo_client_end demo_server_end"
    "carried (pair_codec (get_request k) (fst (tail_spec y (get_request k) xs))) (get_request k)
       (fst (tail_spec y (get_request k) xs)) [1] [2] demo_client_end demo_server_end"
    "carried (pair_codec models_request (fst (tail_spec y models_request xs))) models_request
       (fst (tail_spec y models_request xs)) [1] [2] demo_client_end demo_server_end"
    by (metis pair_carried)+
qed

section \<open>Properties\<close>

text \<open>The client's half of an \<open>add\<close> command: what it prints depends on the reply only.\<close>

lemma add_command_sent:
  assumes "sent cd (add_request c) rep bq br (head_conn (cs_chain cs))" "list_all word [modelo, ano, preco, marca, comb]"
    and "list_head (cs_chain cs) = Some rl" "0 \<le> sint (sockfd rl)" "all_granted (cs_mem cs)" "mem_wf (cs_mem cs)"
    and "c = typed_car modelo ano preco marca comb"
  shows "\<exists>s' m'. run_command cd (''add '' @ modelo @ '' '' @ ano @ '' '' @ preco @ '' '' @ marca @ '' '' @ comb) cs =
      Some (if \<not> car_valid (ano_atual (cs_mem cs)) c then say add_usage (cs\<lparr>cs_mem := m'\<rparr>)
            else if op_success (Some rep) OP_ADD CT_NONE
            then say (''Carro adicionado com sucesso.'' @ nl) (at_head s' m' cs)
            else say (''Falha ao adicionar carro'' @ nl) (at_head s' m' cs)) \<and>
    same_blocks (cs_mem cs) m' \<and>
    (car_valid (ano_atual (cs_mem cs)) c \<longrightarrow> k_out s' = k_out (head_conn (cs_chain cs)) @ frame bq)"
proof -
  let ?m = "cs_mem cs" and ?s = "head_conn (cs_chain cs)"
  have fields: "c_ano c = atoi ano" "c_preco c = strtof preco" "c_marca c = atoi marca" "c_modelo c = modelo"
    "c_combustivel c = atoi comb" by (simp_all add: assms(7) typed_car_def)
  have run: "run_command cd (''add '' @ modelo @ '' '' @ ano @ '' '' @ preco @ '' '' @ marca @ '' '' @ comb) cs =
    do {
      (car, m1) \<leftarrow> data_create_car c ?m;
      if car = None then Some (say add_usage (cs\<lparr>cs_mem := m1\<rparr>))
      else do {
        (r, s, m2) \<leftarrow> rlist_add cd (list_head (cs_chain cs)) car ?s m1;
        (_, m3) \<leftarrow> data_destroy car m2;
        Some (say (if r = 0 then ''Carro adicionado com sucesso.'' @ nl
                   else ''Falha ao adicionar carro'' @ nl) (at_head s m3 cs))
      } }"
    using assms(2) unfolding run_named cmd_add_def fields by simp
  show ?thesis
  proof (cases "car_valid (ano_atual ?m) c")
    case True
    then have create: "data_create_car c ?m = Some (Some (m_brk ?m), with_car c ?m)"
      using data_create_ok[of ?m c] assms(5) by (simp add: two_blocks_granted_def all_granted_def)
    have "c_marca c \<le> 4" "c_combustivel c \<le> 3" using True by (simp_all add: car_valid_def)
    moreover have "all_granted (with_car c ?m)" using assms(5) by (simp add: all_granted_def)
    ultimately obtain s' m2 where add: "rlist_add cd (Some rl) (Some (m_brk ?m)) ?s (with_car c ?m) =
        Some (if op_success (Some rep) OP_ADD CT_NONE then 0 else -1, s', m2)" "same_blocks (with_car c ?m) m2"
      "k_out s' = k_out ?s @ frame bq"
      using stub_add[OF assms(1,4) _ car_at_with_car] by metis
    have "cars_from ?m [c] 0 (with_car c ?m)"
      using cars_from_snoc[of ?m "[]" ?m c] by (simp add: cars_from_Nil)
    then obtain m3 where "data_destroy (Some (m_brk ?m)) m2 = Some (0, m3)" "same_blocks ?m m3"
      using destroy_created[OF _ add(2) assms(6)] by blast
    with run create add True assms(3) show ?thesis by (intro exI[of _ s'] exI[of _ m3]) simp
  next
    case False
    then obtain m' where "data_create_car c ?m = Some (None, m')" "same_blocks ?m m'"
      using data_create_fail[OF assms(6), of c] by blast
    with run False show ?thesis by (intro exI[of _ ?s] exI[of _ m']) simp
  qed
qed

text \<open>C6: A user who types an \<open>add\<close> command with its five words adds that car.  When the client's own
  check accepts it, one request goes to the head; the user reads that the car was added exactly when
  it is valid for the server too, and then it is at the end of the server's list.  A car the client
  rejects is not sent: the user gets the usage text.\<close>

theorem client_adds:
  assumes "session_inv l year sv xs ls" "length xs < 2147483647" "list_all word [modelo, ano, preco, marca, comb]"
    and "list_head (cs_chain cs) = Some rl" "0 \<le> sint (sockfd rl)" "all_granted (cs_mem cs)" "mem_wf (cs_mem cs)"
    and "c = typed_car modelo ano preco marca comb"
    and "carried cd (add_request c) (fst (tail_spec year (add_request c) xs)) bq br (head_conn (cs_chain cs)) p"
  shows "\<exists>s' m'. run_command cd (''add '' @ modelo @ '' '' @ ano @ '' '' @ preco @ '' '' @ marca @ '' '' @ comb) cs =
      Some (if \<not> car_valid (ano_atual (cs_mem cs)) c then say add_usage (cs\<lparr>cs_mem := m'\<rparr>)
            else if car_valid year c then say (''Carro adicionado com sucesso.'' @ nl) (at_head s' m' cs)
            else say (''Falha ao adicionar carro'' @ nl) (at_head s' m' cs)) \<and>
    same_blocks (cs_mem cs) m' \<and>
    (car_valid (ano_atual (cs_mem cs)) c \<longrightarrow>
       exchanged cd peer bq br (head_conn (cs_chain cs)) s' p l sv (if car_valid year c then xs @ [c] else xs))"
proof -
  obtain s' m' where "run_command cd (''add '' @ modelo @ '' '' @ ano @ '' '' @ preco @ '' '' @ marca @ '' '' @ comb) cs =
      Some (if \<not> car_valid (ano_atual (cs_mem cs)) c then say add_usage (cs\<lparr>cs_mem := m'\<rparr>)
            else if car_valid year c then say (''Carro adicionado com sucesso.'' @ nl) (at_head s' m' cs)
            else say (''Falha ao adicionar carro'' @ nl) (at_head s' m' cs))"
    "same_blocks (cs_mem cs) m'"
    "car_valid (ano_atual (cs_mem cs)) c \<longrightarrow> k_out s' = k_out (head_conn (cs_chain cs)) @ frame bq"
    using add_command_sent[OF carried_sent[OF assms(9)] assms(3-8)] unfolding add_confirmed by blast
  moreover have "snd (tail_spec year (add_request c) xs) = (if car_valid year c then xs @ [c] else xs)"
    by (simp add: tail_spec_add)
  ultimately show ?thesis
    using server_exchange[OF assms(1) requests_ok(5)[OF assms(2)] requests_ok(11) assms(9)]
    by (intro exI[of _ s'] exI[of _ m']) simp
qed

theorem client_adds_witness:
  "\<exists>s' m'. run_command (pair_codec (add_request m3) (fst (tail_spec 2025 (add_request m3) [yaris, m3])))
      ''add M3 1999 20000 1 0'' demo_client =
    Some (say (''Carro adicionado com sucesso.'' @ nl) (at_head s' m' demo_client)) \<and> same_blocks demo_mem m' \<and>
    exchanged (pair_codec (add_request m3) (fst (tail_spec 2025 (add_request m3) [yaris, m3]))) None [1] [2]
      demo_client_end s' demo_server_end 0 demo_server [yaris, m3, m3]"
proof -
  have "list_all word [''M3'', ''1999'', ''20000'', ''1'', ''0'']" by (simp add: word_def)
  then show ?thesis
    using client_adds[OF demo_server_inv _ _ _ _ _ _ typed_m3[symmetric] demo_carried(1)[of m3 2025 "[yaris, m3]",
      folded demo_client_sel(3)], of demo_rlist None]
    by simp
qed

text \<open>C14: A user who types a \<open>remove\<close> command removes the first car of that model from the server's list,
  or learns that there is none.\<close>

theorem client_removes:
  assumes "session_inv l year sv xs ls" "length xs < 2147483647" "word modelo"
    and "list_head (cs_chain cs) = Some rl" "0 \<le> sint (sockfd rl)" "all_granted (cs_mem cs)"
    and "carried cd (del_request modelo) (fst (tail_spec year (del_request modelo) xs)) bq br (head_conn (cs_chain cs)) p"
  shows "\<exists>s' m'. run_command cd (''remove '' @ modelo) cs =
      Some (say (if \<exists>c \<in> set xs. c_modelo c = modelo then ''Removido com sucesso'' @ nl
                 else ''Modelo nao encontrado'' @ nl) (at_head s' m' cs)) \<and> same_blocks (cs_mem cs) m' \<and>
    exchanged cd peer bq br (head_conn (cs_chain cs)) s' p l sv (remove_first (\<lambda>c. c_modelo c = modelo) xs)"
proof -
  obtain s' m' where "rlist_remove_by_model cd (Some rl) (Some modelo) (head_conn (cs_chain cs)) (cs_mem cs) =
      Some (if \<exists>c \<in> set xs. c_modelo c = modelo then 0 else 1, s', m')" "same_blocks (cs_mem cs) m'"
    "exchanged cd peer bq br (head_conn (cs_chain cs)) s' p l sv (remove_first (\<lambda>c. c_modelo c = modelo) xs)"
    using remote_remove[OF assms(1,2,5,6,7)] by blast
  with assms(3,4) show ?thesis unfolding run_named cmd_remove_def by (intro exI[of _ s'] exI[of _ m']) simp
qed

theorem client_removes_witness:
  "\<exists>s' m'. run_command (pair_codec (del_request ''M3'') (fst (tail_spec 2025 (del_request ''M3'') [yaris, m3])))
      ''remove M3'' demo_client = Some (say (''Removido com sucesso'' @ nl) (at_head s' m' demo_client)) \<and>
    exchanged (pair_codec (del_request ''M3'') (fst (tail_spec 2025 (del_request ''M3'') [yaris, m3]))) None [1] [2]
      demo_client_end s' demo_server_end 0 demo_server [yaris]"
proof -
  have "word ''M3''" by (simp add: word_def)
  then show ?thesis
    using client_removes[OF demo_server_inv _ _ _ _ _ demo_carried(2)[of "''M3''" 2025 "[yaris, m3]",
      folded demo_client_sel(3)], of demo_rlist None]
    by simp blast
qed

definition not_found_text :: string where
  "not_found_text = ''Carro n'' @ utf8 [0xC3, 0xA3] @ ''o encontrado.'' @ nl"

text \<open>C13: A user who types \<open>get_by_year\<close> reads exactly the cars of that year in the server's list, in its
  order (all cars, sorted by year, for -1), or that there is none; the second text also stands for a
  car that the client's own clock makes invalid.\<close>

theorem client_lists_year:
  assumes "session_inv l year sv xs ls" "length xs < 2147483647" "word ano_s" "parse_int_str (Some ano_s) = Some ano"
    and "list_tail (cs_chain cs) = Some rl" "0 \<le> sint (sockfd rl)" "all_granted (cs_mem cs)" "mem_wf (cs_mem cs)"
    and "carried cd (list_request ano) (fst (tail_spec year (list_request ano) xs)) bq br (tail_conn (cs_chain cs)) p"
  shows "\<exists>s' m'. run_command cd (''get_by_year '' @ ano_s) cs =
      Some (say (if listed ano xs \<noteq> [] \<and> list_all (car_valid (ano_atual (cs_mem cs))) (listed ano xs)
                 then concat (map car_line (listed ano xs))
                 else ''Nenhum carro encontrado com o ano especificado.'' @ nl) (at_tail s' m' cs)) \<and>
    same_blocks (cs_mem cs) m' \<and>
    exchanged cd peer bq br (tail_conn (cs_chain cs)) s' p l sv (if ano = -1 then by_year xs else xs)"
proof -
  let ?ok = "listed ano xs \<noteq> [] \<and> list_all (car_valid (ano_atual (cs_mem cs))) (listed ano xs)"
  obtain r s' m1 where run: "rlist_cars cd (Some rl) ano (tail_conn (cs_chain cs)) (cs_mem cs) = Some (r, s', m1)"
    and ex: "exchanged cd peer bq br (tail_conn (cs_chain cs)) s' p l sv (if ano = -1 then by_year xs else xs)"
    and r: "if ?ok
     then \<exists>m0. same_blocks (cs_mem cs) m0 \<and> r = Some (car_ptrs (m_brk m0) (length (listed ano xs)) @ [Some None]) \<and>
       cars_from m0 (listed ano xs) 0 m1
     else r = None \<and> same_blocks (cs_mem cs) m1"
    by (rule remote_cars[OF assms(1,2,6-9)])
  have cmd: "run_command cd (''get_by_year '' @ ano_s) cs = (case r of
      None \<Rightarrow> Some (say (''Nenhum carro encontrado com o ano especificado.'' @ nl) (at_tail s' m1 cs))
    | Some cars \<Rightarrow> print_destroy_cars 0 cars (at_tail s' m1 cs))"
    using assms(3-5) run unfolding run_named cmd_get_by_year_def by (simp add: rlist_get_by_year_def)
  show ?thesis
  proof (cases ?ok)
    case True
    then obtain m0 where m0: "same_blocks (cs_mem cs) m0" "cars_from m0 (listed ano xs) 0 m1"
      and arr: "r = Some (car_ptrs (m_brk m0) (length (listed ano xs)) @ [Some None])"
      using r by auto
    have from': "cars_from m0 (listed ano xs) 0 (cs_mem (at_tail s' m1 cs))" using m0(2) by simp
    obtain m' where "print_destroy_cars 0 (car_ptrs (m_brk m0) (length (listed ano xs)) @ [Some None]) (at_tail s' m1 cs) =
        Some (say (concat (map car_line (listed ano xs))) ((at_tail s' m1 cs)\<lparr>cs_mem := m'\<rparr>))" "same_blocks m0 m'"
      by (rule print_destroy_cars_ok[OF from' same_blocks_wf[OF m0(1) assms(8)]])
    then show ?thesis
      using cmd arr ex True same_blocks_trans[OF m0(1)] by (intro exI[of _ s'] exI[of _ m']) (simp add: say_mem)
  next
    case False
    have "r = None" "same_blocks (cs_mem cs) m1" using r unfolding if_not_P[OF False] by simp_all
    with cmd ex show ?thesis unfolding if_not_P[OF False] by (intro exI[of _ s'] exI[of _ m1]) simp
  qed
qed

theorem client_lists_year_witness:
  "\<exists>s' m'. run_command (pair_codec (list_request (-1)) (fst (tail_spec 2025 (list_request (-1)) [yaris, m3])))
      ''get_by_year -1'' demo_client = Some (say (car_line m3 @ car_line yaris) (at_tail s' m' demo_client))"
proof -
  have "word ''-1''" "parse_int_str (Some ''-1'') = Some (-1)" "listed (-1) [yaris, m3] = [m3, yaris]"
    by (simp add: word_def) (code_simp, simp add: listed_def)
  then show ?thesis
    using client_lists_year[OF demo_server_inv _ _ _ _ _ _ _ demo_carried(3)[of "-1" 2025 "[yaris, m3]",
      folded demo_client_sel(4)], of "''-1''" demo_rlist None]
    by simp blast
qed



lemma print_models_ok:
  "k \<le> length ss \<Longrightarrow> print_models k (map (Some \<circ> Some) ss @ [Some None]) cs =
     Some (say (concat (map (\<lambda>s. ''Modelo: '' @ s @ nl) (drop k ss))) cs)"
proof (induction "length ss - k" arbitrary: k cs)
  case 0
  then show ?case by (subst print_models.simps) (simp add: arr_get_def nth_append say_say)
next
  case (Suc n)
  then have k: "k < length ss" by simp
  then have "drop k ss = ss ! k # drop (Suc k) ss" by (simp add: Cons_nth_drop_Suc)
  moreover have "arr_get k (map (Some \<circ> Some) ss @ [Some None]) = Some (Some (ss ! k))"
    using k by (simp add: arr_get_def nth_append)
  ultimately show ?case
    using Suc.hyps(1)[of "Suc k"] Suc.hyps(2) k by (subst print_models.simps) (simp add: say_say)
qed

text \<open>A user who types \<open>get_model_list\<close> reads the models of all cars of the server in order.\<close>

theorem client_lists_models:
  assumes "session_inv l year sv xs ls" "length xs < 2147483647"
    and "list_tail (cs_chain cs) = Some rl" "0 \<le> sint (sockfd rl)" "all_granted (cs_mem cs)"
    and "carried cd models_request (fst (tail_spec year models_request xs)) bq br (tail_conn (cs_chain cs)) p"
  shows "\<exists>s' m'. run_command cd ''get_model_list'' cs =
      Some (say (concat (map (\<lambda>c. ''Modelo: '' @ c_modelo c @ nl) xs)) (at_tail s' m' cs)) \<and>
    same_blocks (cs_mem cs) m' \<and> exchanged cd peer bq br (tail_conn (cs_chain cs)) s' p l sv xs"
proof -
  obtain s' m' where "rlist_get_model_list cd (Some rl) (tail_conn (cs_chain cs)) (cs_mem cs) =
      Some (Some (map (Some \<circ> Some) (map c_modelo xs) @ [Some None]), s', m')" "same_blocks (cs_mem cs) m'"
    "exchanged cd peer bq br (tail_conn (cs_chain cs)) s' p l sv xs"
    using remote_model_list[OF assms(1,2,4,5,6)] unfolding map_map by blast
  with assms(3) print_models_ok[of 0 "map c_modelo xs" "at_tail s' m' cs"] show ?thesis
    unfolding run_named cmd_get_model_list_def by (intro exI[of _ s'] exI[of _ m']) (simp add: o_def)
qed

theorem client_lists_models_witness:
  "\<exists>s' m'. run_command (pair_codec models_request (fst (tail_spec 2025 models_request [yaris, m3])))
      ''get_model_list'' demo_client =
    Some (say (''Modelo: Yaris'' @ nl @ ''Modelo: M3'' @ nl) (at_tail s' m' demo_client))"
  using client_lists_models[OF demo_server_inv _ _ _ _ demo_carried(5)[of 2025 "[yaris, m3]",
      folded demo_client_sel(4)], of demo_rlist None]
  by simp blast

text \<open>A user who types \<open>get_list_ordered_by_year\<close> reads all cars of the server sorted by year, cars of
  one year in the order of the list, and leaves the list of that server sorted.\<close>

theorem client_orders:
  assumes "session_inv l year sv xs ls" "length xs < 2147483647" "list_all (car_valid (ano_atual (cs_mem cs))) xs"
    and "list_tail (cs_chain cs) = Some rl" "0 \<le> sint (sockfd rl)" "all_granted (cs_mem cs)" "mem_wf (cs_mem cs)"
    and "carried cd (list_request (-1)) (fst (tail_spec year (list_request (-1)) xs)) bq br (tail_conn (cs_chain cs)) p"
  shows "\<exists>s' m'. run_command cd ''get_list_ordered_by_year'' cs =
      Some (say (if xs = [] then ''Nenhum carro encontrado.'' @ nl else concat (map car_line (by_year xs))) (at_tail s' m' cs)) \<and>
    same_blocks (cs_mem cs) m' \<and> exchanged cd peer bq br (tail_conn (cs_chain cs)) s' p l sv (by_year xs)"
proof -
  obtain s' m' where "rlist_order_by_year cd (Some rl) (tail_conn (cs_chain cs)) (cs_mem cs) =
      Some (if xs = [] then -1 else 0, concat (map car_line (by_year xs)), s', m')" "same_blocks (cs_mem cs) m'"
    "exchanged cd peer bq br (tail_conn (cs_chain cs)) s' p l sv (by_year xs)"
    using remote_order_by_year[OF assms(1,2,5,6,7,8,3)] by blast
  with assms(4) show ?thesis
    unfolding run_named cmd_get_list_ordered_def by (intro exI[of _ s'] exI[of _ m']) simp
qed

theorem client_orders_witness:
  "\<exists>s' m'. run_command (pair_codec (list_request (-1)) (fst (tail_spec 2025 (list_request (-1)) [yaris, m3])))
      ''get_list_ordered_by_year'' demo_client = Some (say (car_line m3 @ car_line yaris) (at_tail s' m' demo_client)) \<and>
    exchanged (pair_codec (list_request (-1)) (fst (tail_spec 2025 (list_request (-1)) [yaris, m3]))) None [1] [2]
      demo_client_end s' demo_server_end 0 demo_server [m3, yaris]"
  using client_orders[OF demo_server_inv _ _ _ _ _ _ demo_carried(3)[of "-1" 2025 "[yaris, m3]",
      folded demo_client_sel(4)], of demo_rlist None]
  by simp blast

end
