(* ===== verification/ChainWire.thy ===== *)
theory ChainWire
  imports Chain ClientCommands
begin

text \<open>
  The chain over its connections.  \<open>Chain\<close> lets a server hand a write to its successor directly; here
  every server runs the turn of \<open>network_server.c\<close> on the end of its own connection, what one server
  writes is what arrives at the next, and the reply that a server waits for is what the turn of its
  successor writes.  The whole chain still implements the abstract chain.
\<close>

section \<open>Servers and their connections\<close>

text \<open>One server of the chain with the end of the connection it serves, and who is at the other end.\<close>

record hop =
  h_server :: server
  h_conn :: conn
  h_peer :: "(string \<times> nat) option"

definition hop_turn :: "codec \<Rightarrow> hop \<Rightarrow> (bool \<times> conn \<times> server) option" where
  "hop_turn cd h = client_turn cd (h_peer h) (h_conn h) (h_server h)"

text \<open>On \<open>s\<close> arrive the bytes that the turn of the server at the other end writes.\<close>

definition answered_by :: "codec \<Rightarrow> conn \<Rightarrow> hop \<Rightarrow> bool" where
  "answered_by cd s h \<longleftrightarrow> (case hop_turn cd h of
     Some (_, p', _) \<Rightarrow> incoming s (drop (length (k_out (h_conn h))) (k_out p')) [] | None \<Rightarrow> True)"

text \<open>The end of a connection through which \<open>bq\<close> is sent to the server of \<open>h\<close>.\<close>

definition linked :: "codec \<Rightarrow> byte list \<Rightarrow> rlist_t option \<Rightarrow> conn \<Rightarrow> hop \<Rightarrow> bool" where
  "linked cd bq rl s h \<longleftrightarrow> (case rl of None \<Rightarrow> False | Some r \<Rightarrow> 0 \<le> sint (sockfd r)) \<and>
     has_room s (length (frame bq)) \<and> incoming (h_conn h) (frame bq) [] \<and> answered_by cd s h"

fun wired :: "codec \<Rightarrow> byte list \<Rightarrow> hop list \<Rightarrow> bool" where
  "wired cd bq [] = False"
| "wired cd bq [h] = (rl_next_server (sv_chain (h_server h)) = None)"
| "wired cd bq (h # h' # hs) =
     (linked cd bq (rl_next_server (sv_chain (h_server h))) (next_conn (sv_chain (h_server h))) h' \<and>
      wired cd bq (h' # hs))"

section \<open>One server\<close>

definition reply_of :: "MessageT \<Rightarrow> replica \<Rightarrow> MessageT" where
  "reply_of msg r = fst (tail_spec (fst r) msg (snd r))"

definition applied :: "MessageT \<Rightarrow> replica \<Rightarrow> replica" where
  "applied msg r = (fst r, snd (tail_spec (fst r) msg (snd r)))"

definition live_log :: "server_log \<Rightarrow> bool" where
  "live_log lg \<longleftrightarrow> log_room lg \<and> (\<exists>ls. log_holds lg ls)"

text \<open>Before its turn: the server holds the replica and the packed reply fits.\<close>

definition hop_ready :: "codec \<Rightarrow> MessageT \<Rightarrow> addr \<Rightarrow> hop \<Rightarrow> replica \<Rightarrow> bool" where
  "hop_ready cd msg l h r \<longleftrightarrow> replica_rel l (h_server h) r \<and> live_log (sv_log (h_server h)) \<and>
     serve_ok msg (snd r) \<and> (case cd_pack cd (reply_of msg r) of None \<Rightarrow> False
       | Some br \<Rightarrow> packs cd (reply_of msg r) br \<and>
           map_option view (cd_unpack cd br) = Some (view (reply_of msg r)) \<and>
           has_room (h_conn h) (length (frame br)))"

text \<open>After it: the packed reply was written and the replica updated.\<close>

definition hop_served :: "codec \<Rightarrow> MessageT \<Rightarrow> addr \<Rightarrow> hop \<Rightarrow> replica \<Rightarrow> bool" where
  "hop_served cd msg l h r \<longleftrightarrow> (\<exists>p' sv' br. hop_turn cd h = Some (True, p', sv') \<and>
     cd_pack cd (reply_of msg r) = Some br \<and> k_out p' = k_out (h_conn h) @ frame br \<and>
     replica_rel l sv' (applied msg r) \<and> live_log (sv_log sv'))"

definition carries :: "codec \<Rightarrow> MessageT \<Rightarrow> byte list \<Rightarrow> bool" where
  "carries cd msg bq \<longleftrightarrow> packs cd msg bq \<and> cd_unpack cd bq = Some msg"

lemma handle_forwarded:
  assumes "forward_request cd msg sv = Some (rc, sv1)" "rc = 0 \<or> rc = -2" "needs_forward msg"
  shows "handle_request cd msg sv = apply_local msg sv1"
  using assms by (auto simp: handle_request_def handle_with_def)

lemma hop_turn_ok:
  assumes ready: "hop_ready cd msg l h r" and msg: "needs_forward msg" "loggable msg" "carries cd msg bq"
    and "incoming (h_conn h) (frame bq) []"
    and forward: "\<And>sv. all_granted (sv_mem sv) \<Longrightarrow> sv_chain sv = sv_chain (h_server h) \<Longrightarrow>
      \<exists>rc sv1. forward_request cd msg sv = Some (rc, sv1) \<and> (rc = 0 \<or> rc = -2) \<and>
        same_blocks (sv_mem sv) (sv_mem sv1) \<and> sv_list sv1 = sv_list sv \<and> sv_log sv1 = sv_log sv"
  shows "hop_served cd msg l h r"
proof -
  let ?sv = "h_server h" and ?y = "fst r" and ?xs = "snd r"
  let ?m = "(sv_mem ?sv)\<lparr>m_brk := Suc (m_brk (sv_mem ?sv))\<rparr>"
  let ?rep = "fst (tail_spec ?y msg ?xs)" and ?xs' = "snd (tail_spec ?y msg ?xs)"
  obtain br ls where rel: "serve_rel l ?y (sv_mem ?sv) ?xs" "sv_list ?sv = Some l"
    and log: "log_holds (sv_log ?sv) ls" "log_room (sv_log ?sv)" and ok: "serve_ok msg ?xs"
    and br: "cd_pack cd ?rep = Some br" "packs cd ?rep br" "has_room (h_conn h) (length (frame br) + 0)"
    using ready by (auto simp: hop_ready_def replica_rel_def live_log_def reply_of_def split: option.splits)
  have avail: "m_avail (sv_mem ?sv) (m_brk (sv_mem ?sv))" using rel by (simp add: serve_rel_def)
  have bq: "incoming (h_conn h) (frame bq @ []) []" "0 < length bq" "length bq \<le> 0xFFFF" "cd_unpack cd bq = Some msg"
    using assms(4,5) by (simp_all add: carries_def packs_def)
  let ?Q = "\<lambda>sv2. serve_rel l ?y (sv_mem sv2) ?xs' \<and> sv_list sv2 = Some l"
  have handle: "\<exists>sv2. handle_request cd msg (?sv\<lparr>sv_mem := ?m, sv_log := lg, sv_ticks := Suc (sv_ticks ?sv)\<rparr>) =
      Some (?rep, sv2) \<and> sv_log sv2 = lg \<and> m_avail (sv_mem sv2) (m_brk (sv_mem sv2)) \<and> ?Q sv2" for lg
  proof -
    let ?sv1 = "?sv\<lparr>sv_mem := ?m, sv_log := lg, sv_ticks := Suc (sv_ticks ?sv)\<rparr>"
    have rel1: "serve_rel l ?y (sv_mem ?sv1) ?xs"
      using serve_rel_same[OF rel(1), of ?m] by (simp add: same_blocks_def)
    then have "all_granted (sv_mem ?sv1)" by (simp add: serve_rel_def)
    from forward[OF this] obtain rc sv1 where
      fwd: "forward_request cd msg ?sv1 = Some (rc, sv1)" "rc = 0 \<or> rc = -2"
      and sv1: "same_blocks (sv_mem ?sv1) (sv_mem sv1)" "sv_list sv1 = Some l" "sv_log sv1 = lg"
      using rel(2) by auto
    from apply_local_ok[OF serve_rel_same[OF rel1 sv1(1)] sv1(2) ok] sv1(2,3) show ?thesis
      unfolding handle_forwarded[OF fwd msg(1)] by (auto simp: serve_rel_def)
  qed
  obtain s' sv2 where turn: "client_turn cd (h_peer h) (h_conn h) ?sv =
      Some (True, s', sv2\<lparr>sv_mem := (sv_mem sv2)\<lparr>m_brk := Suc (m_brk (sv_mem sv2))\<rparr>\<rparr>)"
    "k_out s' = k_out (h_conn h) @ frame br"
    "log_holds (sv_log sv2) (ls @ log_line ?sv (h_peer h) msg)" "log_room (sv_log sv2)" "?Q sv2"
    by (rule turn_handles[OF log msg(2) bq br(2,3) avail handle])
  let ?sv3 = "sv2\<lparr>sv_mem := (sv_mem sv2)\<lparr>m_brk := Suc (m_brk (sv_mem sv2))\<rparr>\<rparr>"
  have "replica_rel l ?sv3 (applied msg r)"
    using turn(5) serve_rel_same[of l ?y "sv_mem sv2" _ "sv_mem ?sv3"]
    by (simp add: replica_rel_def applied_def same_blocks_def)
  moreover have "live_log (sv_log ?sv3)" using turn(3,4) by (auto simp: live_log_def)
  ultimately show ?thesis
    using turn(1,2) br(1) unfolding hop_served_def hop_turn_def reply_of_def
    by (intro exI[of _ s'] exI[of _ ?sv3] exI[of _ br]) simp
qed

text \<open>The server at the end of a link has been served, so its reply is there.\<close>

lemma link_answered:
  assumes "answered_by cd s h" "hop_served cd msg l h r" "hop_ready cd msg l h r"
  obtains br where "packs cd (reply_of msg r) br" "map_option view (cd_unpack cd br) = Some (view (reply_of msg r))"
    "incoming s (frame br) []"
  using assms by (auto simp: answered_by_def hop_served_def hop_ready_def)

lemma forward_linked:
  assumes "linked cd bq (rl_next_server (sv_chain sv)) (next_conn (sv_chain sv)) h" "carries cd msg bq"
    and "hop_served cd msg l h r" "hop_ready cd msg l h r" "all_granted (sv_mem sv)"
  shows "\<exists>sv1. forward_request cd msg sv = Some (0, sv1) \<and>
    same_blocks (sv_mem sv) (sv_mem sv1) \<and> sv_list sv1 = sv_list sv \<and> sv_log sv1 = sv_log sv"
proof -
  obtain rl where rl: "rl_next_server (sv_chain sv) = Some rl" "0 \<le> sint (sockfd rl)"
    and s: "has_room (next_conn (sv_chain sv)) (length (frame bq) + 0)" "answered_by cd (next_conn (sv_chain sv)) h"
    using assms(1) by (auto simp: linked_def split: option.splits)
  obtain br where br: "packs cd (reply_of msg r) br" "cd_unpack cd br \<noteq> None"
    and arrives: "incoming (next_conn (sv_chain sv)) (frame br @ []) []"
    using link_answered[OF s(2) assms(3,4)] by (metis append_Nil2 option.distinct(1) option.map_disc_iff)
  have len: "0 < length br" "length br \<le> 0xFFFF" using br(1) by (simp_all add: packs_def)
  have req: "packs cd msg bq" using assms(2) by (simp add: carries_def)
  have avail: "m_avail (sv_mem sv) (m_brk (sv_mem sv))" "m_avail (sv_mem sv) (Suc (m_brk (sv_mem sv)))"
    using assms(5) by (simp_all add: all_granted_def)
  obtain s' where "network_send_receive cd (Some rl) (Some msg) (next_conn (sv_chain sv)) (sv_mem sv) =
      Some (cd_unpack cd br, s', (sv_mem sv)\<lparr>m_brk := m_brk (sv_mem sv) + 2\<rparr>)"
    by (rule network_send_receive_ok[OF rl(2) req s(1) arrives len avail])
  with rl(1) br(2) show ?thesis
    by (simp add: forward_request_def zoo_forward_to_successor_def same_blocks_def)
qed

section \<open>The whole chain\<close>

lemma wired_served:
  assumes "needs_forward msg" "loggable msg" "carries cd msg bq"
    and "wired cd bq hs" "incoming (h_conn (hd hs)) (frame bq) []" "list_all2 (hop_ready cd msg l) hs rs"
  shows "list_all2 (hop_served cd msg l) hs rs"
  using assms(4-6)
proof (induction hs arbitrary: rs)
  case (Cons h hs)
  then obtain r rs' where rs: "rs = r # rs'" and ready: "hop_ready cd msg l h r" "list_all2 (hop_ready cd msg l) hs rs'"
    by (auto simp: list_all2_Cons1)
  have bq: "incoming (h_conn h) (frame bq) []" using Cons.prems(2) by simp
  show ?case
  proof (cases hs)
    case Nil
    with Cons.prems(1) have "rl_next_server (sv_chain (h_server h)) = None" by simp
    then have "\<exists>rc sv1. forward_request cd msg sv = Some (rc, sv1) \<and> (rc = 0 \<or> rc = -2) \<and>
        same_blocks (sv_mem sv) (sv_mem sv1) \<and> sv_list sv1 = sv_list sv \<and> sv_log sv1 = sv_log sv"
      if "sv_chain sv = sv_chain (h_server h)" for sv
      using that by (simp add: forward_tail)
    then have "hop_served cd msg l h r" by (intro hop_turn_ok[OF ready(1) assms(1-3) bq])
    with rs ready(2) Nil show ?thesis by simp
  next
    case (Cons h' hs')
    then have link: "linked cd bq (rl_next_server (sv_chain (h_server h))) (next_conn (sv_chain (h_server h))) h'"
      and wired: "wired cd bq hs" using Cons.prems(1) by simp_all
    then have "incoming (h_conn (hd hs)) (frame bq) []" using Cons by (simp add: linked_def)
    from Cons.IH[OF wired this ready(2)] have served: "list_all2 (hop_served cd msg l) hs rs'" .
    with Cons ready(2) obtain r' where next_server: "hop_served cd msg l h' r'" "hop_ready cd msg l h' r'"
      by (auto simp: list_all2_Cons1)
    have "\<exists>rc sv1. forward_request cd msg sv = Some (rc, sv1) \<and> (rc = 0 \<or> rc = -2) \<and>
        same_blocks (sv_mem sv) (sv_mem sv1) \<and> sv_list sv1 = sv_list sv \<and> sv_log sv1 = sv_log sv"
      if "all_granted (sv_mem sv)" "sv_chain sv = sv_chain (h_server h)" for sv
      using forward_linked[of cd bq sv h' msg l r'] link assms(3) next_server that by auto
    then have "hop_served cd msg l h r" by (intro hop_turn_ok[OF ready(1) assms(1-3) bq])
    with rs served show ?thesis by simp
  qed
qed simp

text \<open>What the servers do one by one is the step of the abstract chain.\<close>

lemma chain_spec_applied:
  assumes "needs_forward msg" "rs \<noteq> []"
  shows "chain_spec msg rs = (reply_of msg (hd rs), map (applied msg) rs)"
  using assms(2)
proof (induction rs)
  case (Cons r rs)
  then show ?case
    using assms(1) by (cases r; cases "rs = []") (simp_all add: reply_of_def applied_def split: prod.splits)
qed simp

lemma served_servers:
  assumes "list_all2 (hop_served cd msg l) hs rs"
  shows "\<exists>svs. list_all2 (\<lambda>h sv. \<exists>p'. hop_turn cd h = Some (True, p', sv)) hs svs \<and>
    list_all2 (replica_rel l) svs (map (applied msg) rs)"
  using assms
proof (induction hs rs rule: list_all2_induct)
  case (Cons h hs r rs)
  then show ?case by (auto simp: hop_served_def list_all2_Cons1)
qed auto

section \<open>A concrete chain\<close>

lemma answered_byI:
  assumes "hop_served cd msg l h r" "cd_pack cd (reply_of msg r) = Some br" "incoming s (frame br) []"
  shows "answered_by cd s h"
  using assms by (auto simp: answered_by_def hop_served_def)

text \<open>Three servers that hold two cars; each waits for a byte of reply from the next.\<close>

abbreviation (input) demo_wire :: "MessageT \<Rightarrow> codec" where
  "demo_wire msg \<equiv> pair_codec msg (reply_of msg (2025, [yaris, m3]))"

definition tail_hop :: hop where
  "tail_hop = \<lparr>h_server = demo_server, h_conn = demo_server_end, h_peer = None\<rparr>"

definition inner_hop :: hop where
  "inner_hop = tail_hop\<lparr>h_server := demo_server\<lparr>sv_chain := (sv_chain demo_server)\<lparr>
     rl_next_server := Some demo_rlist, next_conn := demo_client_end\<rparr>\<rparr>\<rparr>"

lemma demo_live [simp]: "live_log demo_log"
  unfolding live_log_def by (intro conjI exI[of _ "[]"]) simp_all

lemma demo_hop_ready:
  assumes "serve_ok msg [yaris, m3]" "msg \<noteq> reply_of msg (2025, [yaris, m3])"
  shows "hop_ready (demo_wire msg) msg 0 tail_hop (2025, [yaris, m3])"
    "hop_ready (demo_wire msg) msg 0 inner_hop (2025, [yaris, m3])"
proof -
  have "has_room demo_server_end (Suc (Suc (Suc 0)))" by (rule chunk_conn_room) simp
  moreover have "frame [2] = [0, 1, 2]" by (simp add: frame_def htons_bytes_def)
  moreover have "sv_log demo_server = demo_log" "sv_mem demo_server = two_cars" "sv_list demo_server = Some 0"
    by (simp_all add: demo_server_def)
  ultimately show "hop_ready (demo_wire msg) msg 0 tail_hop (2025, [yaris, m3])"
    "hop_ready (demo_wire msg) msg 0 inner_hop (2025, [yaris, m3])"
    using assms(1) assms(2)[symmetric] demo_replica
    by (simp_all add: hop_ready_def inner_hop_def tail_hop_def replica_rel_def packs_def pair_codec_def)
qed

lemma demo_linked:
  assumes "hop_served (demo_wire msg) msg 0 h (2025, [yaris, m3])" "msg \<noteq> reply_of msg (2025, [yaris, m3])"
    and "h_conn h = demo_server_end"
  shows "linked (demo_wire msg) [1] (Some demo_rlist) demo_client_end h"
proof -
  have frames: "frame [1] = [0, 1, 1]" "frame [2] = [0, 1, 2]" by (simp_all add: frame_def htons_bytes_def)
  have "has_room demo_client_end (Suc (Suc (Suc 0)))" by (rule chunk_conn_room) simp
  moreover have "cd_pack (demo_wire msg) (reply_of msg (2025, [yaris, m3])) = Some [2]"
    using assms(2) by (simp add: pair_codec_def)
  then have "answered_by (demo_wire msg) demo_client_end h"
    using answered_byI[OF assms(1), of "[2]"] frames by simp
  ultimately show ?thesis using assms(3) frames by (simp add: linked_def)
qed

lemma demo_wired:
  assumes "serve_ok msg [yaris, m3]" "msg \<noteq> reply_of msg (2025, [yaris, m3])" "needs_forward msg" "loggable msg"
  shows "carries (demo_wire msg) msg [1]" "wired (demo_wire msg) [1] [inner_hop, inner_hop, tail_hop]"
    "linked (demo_wire msg) [1] (Some demo_rlist) demo_client_end inner_hop"
proof -
  have bq: "incoming demo_server_end (frame [1]) []" by (simp add: frame_def htons_bytes_def)
  show carries: "carries (demo_wire msg) msg [1]" by (simp add: carries_def pair_codec_def packs_def)
  note served = wired_served[OF assms(3,4) carries] and ready = demo_hop_ready[OF assms(1,2)]
  have inner: "rl_next_server (sv_chain (h_server inner_hop)) = Some demo_rlist"
    "next_conn (sv_chain (h_server inner_hop)) = demo_client_end"
    and ends: "h_conn inner_hop = demo_server_end" "h_conn tail_hop = demo_server_end"
    and last: "rl_next_server (sv_chain (h_server tail_hop)) = None"
    by (simp_all add: inner_hop_def tail_hop_def demo_server_def)
  have w1: "wired (demo_wire msg) [1] [tail_hop]" using last by simp
  have "hop_served (demo_wire msg) msg 0 tail_hop (2025, [yaris, m3])"
    using served[OF w1, of 0 "[(2025, [yaris, m3])]"] ready bq ends by simp
  from demo_linked[OF this assms(2) ends(2)] have w2: "wired (demo_wire msg) [1] [inner_hop, tail_hop]"
    using w1 inner by simp
  have "hop_served (demo_wire msg) msg 0 inner_hop (2025, [yaris, m3])"
    using served[OF w2, of 0 "[(2025, [yaris, m3]), (2025, [yaris, m3])]"] ready bq ends by simp
  from demo_linked[OF this assms(2) ends(1)] show "linked (demo_wire msg) [1] (Some demo_rlist) demo_client_end inner_hop" .
  then show "wired (demo_wire msg) [1] [inner_hop, inner_hop, tail_hop]"
    using w2 inner by simp
qed

section \<open>Properties\<close>

text \<open>C4: the chain over its connections implements the abstract chain.  When a write arrives at the
  head, and every server waits on the connection to its successor for what the turn of that one
  writes, then one turn of every server answers it: the head writes the packed reply of the abstract
  chain, and the servers hold the replicas of the abstract chain after this write.\<close>

theorem chain_over_wire:
  assumes "needs_forward msg" "loggable msg" "carries cd msg bq"
    and "wired cd bq hs" "incoming (h_conn (hd hs)) (frame bq) []" "list_all2 (hop_ready cd msg l) hs rs"
  shows "\<exists>svs p' br. list_all2 (\<lambda>h sv. \<exists>p. hop_turn cd h = Some (True, p, sv)) hs svs \<and>
    list_all2 (replica_rel l) svs (snd (chain_spec msg rs)) \<and>
    hop_turn cd (hd hs) = Some (True, p', hd svs) \<and> cd_pack cd (fst (chain_spec msg rs)) = Some br \<and>
    k_out p' = k_out (h_conn (hd hs)) @ frame br"
proof -
  have served: "list_all2 (hop_served cd msg l) hs rs" by (rule wired_served[OF assms])
  then obtain svs where svs: "list_all2 (\<lambda>h sv. \<exists>p. hop_turn cd h = Some (True, p, sv)) hs svs"
    "list_all2 (replica_rel l) svs (map (applied msg) rs)"
    using served_servers by blast
  have "hs \<noteq> []" using assms(4) by auto
  with served svs(1) have "rs \<noteq> []" "hop_served cd msg l (hd hs) (hd rs)"
    "\<exists>p. hop_turn cd (hd hs) = Some (True, p, hd svs)"
    by (cases hs; auto simp: list_all2_Cons1)+
  with svs show ?thesis
    unfolding chain_spec_applied[OF assms(1) \<open>rs \<noteq> []\<close>] by (auto simp: hop_served_def)
qed

lemma del_not_reply: "del_request s \<noteq> reply_of (del_request s) r"
proof -
  have "msg_opcode (del_request s) = OP_DEL" by simp
  moreover have "msg_opcode (reply_of (del_request s) r) \<noteq> OP_DEL"
    by (simp add: reply_of_def tail_spec_del reply_ok_def)
  ultimately show ?thesis by metis
qed

theorem chain_over_wire_witness:
  "\<exists>svs. list_all2 (\<lambda>h sv. \<exists>p. hop_turn (demo_wire (del_request ''M3'')) h = Some (True, p, sv))
       [inner_hop, inner_hop, tail_hop] svs \<and>
     list_all2 (replica_rel 0) svs [(2025, [yaris]), (2025, [yaris]), (2025, [yaris])]"
proof -
  let ?msg = "del_request ''M3''"
  have ok: "serve_ok ?msg [yaris, m3]" by simp
  note wires = demo_wired[OF ok del_not_reply request_forwarded(1) requests_ok(12)]
    and ready = demo_hop_ready[OF ok del_not_reply]
  have bq: "incoming (h_conn (hd [inner_hop, inner_hop, tail_hop])) (frame [1]) []"
    by (simp add: inner_hop_def tail_hop_def frame_def htons_bytes_def)
  have all_ready: "list_all2 (hop_ready (demo_wire ?msg) ?msg 0) [inner_hop, inner_hop, tail_hop]
      [(2025, [yaris, m3]), (2025, [yaris, m3]), (2025, [yaris, m3])]"
    using ready by simp
  have spec: "snd (chain_spec ?msg [(2025, [yaris, m3]), (2025, [yaris, m3]), (2025, [yaris, m3])]) =
      [(2025, [yaris]), (2025, [yaris]), (2025, [yaris])]"
    unfolding chain_spec_applied[OF request_forwarded(1) list.distinct(2)] by (simp add: applied_def)
  show ?thesis
    using chain_over_wire[OF request_forwarded(1) requests_ok(12) wires(1,2) bq all_ready] unfolding spec by blast
qed

text \<open>C3: A user who types an \<open>add\<close> command at a client connected to the head adds the car to every
  replica.  One command, one turn of every server of the chain: the user reads that the car was added
  exactly when it is valid for the servers, and then it is at the end of the list of all of them.\<close>

theorem client_add_reaches_all:
  assumes "list_all word [modelo, ano, preco, marca, comb]" "c = typed_car modelo ano preco marca comb"
    and "all_granted (cs_mem cs)" "mem_wf (cs_mem cs)" "car_valid (ano_atual (cs_mem cs)) c"
    and "carries cd (add_request c) bq" "wired cd bq hs"
    and "linked cd bq (list_head (cs_chain cs)) (head_conn (cs_chain cs)) (hd hs)"
    and "list_all (\<lambda>h. hop_ready cd (add_request c) l h (year, xs)) hs"
  shows "(\<exists>s' m'. run_command cd (''add '' @ modelo @ '' '' @ ano @ '' '' @ preco @ '' '' @ marca @ '' '' @ comb) cs =
      Some (say (if car_valid year c then ''Carro adicionado com sucesso.'' @ nl else ''Falha ao adicionar carro'' @ nl)
        (at_head s' m' cs))) \<and>
    list_all (\<lambda>h. \<exists>p' sv'. hop_turn cd h = Some (True, p', sv') \<and>
      list_is (sv_mem sv') l (if car_valid year c then xs @ [c] else xs)) hs"
proof -
  let ?msg = "add_request c" and ?r = "(year, xs)"
  have "hs \<noteq> []" using assms(7) by auto
  have ready: "list_all2 (hop_ready cd ?msg l) hs (replicate (length hs) ?r)"
    using assms(9) by (simp add: list_all2_conv_all_nth list_all_length)
  obtain rl where rl: "list_head (cs_chain cs) = Some rl" "0 \<le> sint (sockfd rl)"
    and s: "has_room (head_conn (cs_chain cs)) (length (frame bq))" "answered_by cd (head_conn (cs_chain cs)) (hd hs)"
      "incoming (h_conn (hd hs)) (frame bq) []"
    using assms(8) by (auto simp: linked_def split: option.splits)
  have "list_all2 (hop_served cd ?msg l) hs (replicate (length hs) ?r)"
    by (rule wired_served[OF request_forwarded(2) requests_ok(11) assms(6,7) s(3) ready])
  then have served: "list_all (\<lambda>h. hop_served cd ?msg l h ?r) hs"
    by (simp add: list_all2_conv_all_nth list_all_length)
  then have head: "hop_served cd ?msg l (hd hs) ?r" "hop_ready cd ?msg l (hd hs) ?r"
    using assms(9) \<open>hs \<noteq> []\<close> by (cases hs; simp)+
  obtain br where "packs cd (reply_of ?msg ?r) br" "map_option view (cd_unpack cd br) = Some (view (reply_of ?msg ?r))"
    "incoming (head_conn (cs_chain cs)) (frame br) []"
    by (rule link_answered[OF s(2) head])
  with assms(6) s(1) have "sent cd ?msg (fst (tail_spec year ?msg xs)) bq br (head_conn (cs_chain cs))"
    by (simp add: sent_def reply_of_def carries_def)
  from add_command_sent[OF this assms(1) rl assms(3,4,2)] have
    "\<exists>s' m'. run_command cd (''add '' @ modelo @ '' '' @ ano @ '' '' @ preco @ '' '' @ marca @ '' '' @ comb) cs =
      Some (say (if car_valid year c then ''Carro adicionado com sucesso.'' @ nl else ''Falha ao adicionar carro'' @ nl)
        (at_head s' m' cs))"
    using assms(5) unfolding add_confirmed by (cases "car_valid year c") (simp_all, blast+)
  moreover have "snd (applied ?msg ?r) = (if car_valid year c then xs @ [c] else xs)"
    by (simp add: applied_def tail_spec_add)
  then have "hop_served cd ?msg l h ?r \<Longrightarrow> \<exists>p' sv'. hop_turn cd h = Some (True, p', sv') \<and>
      list_is (sv_mem sv') l (if car_valid year c then xs @ [c] else xs)" for h
    by (auto simp: hop_served_def replica_rel_def serve_rel_def)
  ultimately show ?thesis using served by (auto simp: list_all_iff)
qed

lemma add_not_reply: "add_request c \<noteq> reply_of (add_request c) r"
proof -
  have "msg_opcode (add_request c) = OP_ADD" by (simp add: add_request_def)
  moreover have "msg_opcode (reply_of (add_request c) r) \<noteq> OP_ADD"
    by (simp add: reply_of_def tail_spec_add reply_ok_def reply_error_def)
  ultimately show ?thesis by metis
qed

theorem client_add_reaches_all_witness:
  "(\<exists>s' m'. run_command (demo_wire (add_request m3)) ''add M3 1999 20000 1 0'' demo_client =
      Some (say (''Carro adicionado com sucesso.'' @ nl) (at_head s' m' demo_client))) \<and>
    list_all (\<lambda>h. \<exists>p' sv'. hop_turn (demo_wire (add_request m3)) h = Some (True, p', sv') \<and>
      list_is (sv_mem sv') 0 [yaris, m3, m3]) [inner_hop, inner_hop, tail_hop]"
proof -
  have words: "list_all word [''M3'', ''1999'', ''20000'', ''1'', ''0'']" by (simp add: word_def)
  have ok: "serve_ok (add_request m3) [yaris, m3]" by simp
  note wires = demo_wired[OF ok add_not_reply request_forwarded(2) requests_ok(11)]
    and ready = demo_hop_ready[OF ok add_not_reply]
  have "list_all (\<lambda>h. hop_ready (demo_wire (add_request m3)) (add_request m3) 0 h (2025, [yaris, m3]))
      [inner_hop, inner_hop, tail_hop]" using ready by simp
  from client_add_reaches_all[OF words typed_m3[symmetric] _ _ _ wires(1,2) _ this, of demo_client] wires(3)
  show ?thesis by simp
qed

end
