(* ===== verification/WellFormed.thy ===== *)
theory WellFormed
  imports Remote
begin

text \<open>
  The type of a message: what packing it dereferences is there.  A message that follows it is
  answered by one that follows it, so the server never packs a message with missing elements; the
  requests of the client stub follow it.
\<close>

definition pdata_ok :: "pdata \<Rightarrow> bool" where
  "pdata_ok d \<longleftrightarrow> p_modelo d \<noteq> None"

definition set_cell :: "('a \<Rightarrow> bool) \<Rightarrow> 'a option option \<Rightarrow> bool" where
  "set_cell P c \<longleftrightarrow> (case c of Some (Some x) \<Rightarrow> P x | _ \<Rightarrow> False)"

text \<open>The announced elements of both arrays are set and not NULL, and every car has a model.\<close>

definition message_typed :: "MessageT \<Rightarrow> bool" where
  "message_typed msg \<longleftrightarrow> (case msg_data msg of None \<Rightarrow> True | Some d \<Rightarrow> pdata_ok d) \<and>
     list_all (set_cell (\<lambda>_. True)) (cells (msg_n_models msg) (msg_models msg)) \<and>
     list_all (set_cell pdata_ok) (cells (msg_n_cars msg) (msg_cars msg))"

lemma typed_msg_ok:
  assumes "message_typed msg"
  shows "msg_ok msg"
proof -
  have "msg_n_models msg = 1 \<Longrightarrow> set_cell (\<lambda>_. True) (Option.bind (msg_models msg) (arr_get 0))"
    using assms by (simp add: message_typed_def cells_def)
  then show ?thesis by (auto simp: msg_ok_def set_cell_def split: option.splits)
qed

lemma typed_models:
  "list_all (set_cell (\<lambda>_. True)) (cells (length xs) (Some (terminated xs)))"
proof -
  have "cells (length (map Some xs)) (Some (map Some (map Some xs) @ [Some None])) = map Some (map Some xs)"
    by (rule cells_map_Some)
  then show ?thesis by (simp add: terminated_def list_all_iff set_cell_def)
qed

lemma typed_cars:
  "list_all (set_cell pdata_ok) (cells (length cs) (Some (map (Some \<circ> Some \<circ> pdata_of) cs)))"
proof -
  have "cells (length (map (Some \<circ> pdata_of) cs)) (Some (map Some (map (Some \<circ> pdata_of) cs) @ [])) =
      map Some (map (Some \<circ> pdata_of) cs)"
    by (rule cells_map_Some)
  then show ?thesis by (simp add: list_all_iff set_cell_def pdata_ok_def o_def)
qed

lemma typed_requests [simp]:
  "message_typed (list_request ano)" "message_typed (get_request marca)" "message_typed size_request"
  "message_typed models_request" "message_typed (add_request c)" "message_typed (del_request t)"
  by (simp_all add: message_typed_def list_request_def get_request_def size_request_def models_request_def
      add_request_def del_request_def message_t_init_def cells_def set_cell_def arr_get_def pdata_ok_def)

lemma skel_step_typed:
  assumes "message_typed msg" "skel_step year msg xs = (rc, msg', xs')"
  shows "message_typed msg'"
proof -
  have keep: "message_typed (reply_error msg)"
    "message_typed (reply_ok (msg\<lparr>msg_result := r\<rparr>) ct)"
    "message_typed (reply_ok (msg\<lparr>msg_data := Some (pdata_of c)\<rparr>) ct)"
    "message_typed (cars_reply msg cs)"
    "message_typed (reply_ok (msg\<lparr>msg_models := Some (terminated (map c_modelo cs)), msg_n_models := length cs\<rparr>) ct)"
    for r ct c cs
    using assms(1) typed_models[of "map c_modelo cs"] typed_cars[of cs]
    by (simp_all add: message_typed_def reply_error_def reply_ok_def cars_reply_def pdata_ok_def)
  then show ?thesis using assms
    by (auto simp: skel_step_def step_size_def step_add_def step_get_def step_getlist_def step_getmodels_def
        step_del_def split: if_splits option.splits)
qed

text \<open>A codec that unpacks only such messages.\<close>

definition typed_codec :: "codec \<Rightarrow> bool" where
  "typed_codec cd \<longleftrightarrow> (\<forall>bs msg. cd_unpack cd bs = Some msg \<longrightarrow> message_typed msg)"

lemma receive_typed:
  assumes "typed_codec cd" "network_receive cd s m = Some (Some msg, s', m')"
  shows "message_typed msg"
  using assms by (auto simp: network_receive_def receive_frame_def typed_codec_def bind_eq_Some_conv Let_def malloc_block_def
      split: if_splits)

section \<open>Properties\<close>

text \<open>C20: \<open>invoke\<close> keeps the type of messages: a request whose announced elements are there is
  answered by a message whose announced elements are there, as long as no allocation is refused.\<close>

theorem replies_typed:
  assumes "list_is m l xs" "length xs < 2147483647" "all_granted m" "message_typed msg"
    and "invoke (Some msg) (Some l) m = Some (rc, Some msg', m')"
  shows "message_typed msg'"
proof -
  obtain r where "refines_step m l xs r (skel_step (ano_atual m) msg xs)"
    "invoke (Some msg) (Some l) m = map_option (\<lambda>(rc, msg', m'). (rc, Some msg', m')) r"
    using invoke_cases_refine[OF assms(1,2) typed_msg_ok[OF assms(4)]] by blast
  with assms(3,5) obtain xs' where "(rc, msg', xs') = skel_step (ano_atual m) msg xs"
    by (auto simp: refines_step_def)
  then show ?thesis by (rule skel_step_typed[OF assms(4) sym])
qed

theorem replies_typed_witness:
  "\<exists>msg' m'. invoke (Some models_request) (Some 0) two_cars = Some (0, Some msg', m') \<and> message_typed msg'"
proof -
  have size: "length [yaris, m3] < 2147483647" by simp
  obtain rc msg' m' where "invoke (Some models_request) (Some 0) two_cars = Some (rc, Some msg', m')" "rc = 0"
    using invoke_cases_refine[OF two_cars_is size typed_msg_ok[OF typed_requests(4)]]
    by (auto simp: refines_step_def skel_step_def step_getmodels_def)
  with replies_typed[OF two_cars_is size two_cars_granted typed_requests(4)] show ?thesis by blast
qed

end
