(* ===== verification/Threads.thy ===== *)
theory Threads
  imports ChainWire WellFormed
begin

text \<open>
  The threads of the server together: any number of client threads of \<open>network_server.c\<close>, each
  at its own point of its loop, the writer of the log, and the ZooKeeper watcher, interleaved at the
  granularity of the locks.  Whatever the interleaving, the list of the process is explained by the
  requests in the order in which they held \<open>lock_list\<close>, and every client reads its own replies
  in order.
\<close>

section \<open>The machine\<close>

text \<open>Where a client thread stands between two critical sections of its loop.\<close>

datatype pc = AtRead | AtLog MessageT | AtList MessageT | AtSend MessageT | AtEnd

text \<open>\<open>w_done\<close> records the requests in the order of \<open>lock_list\<close>, with thread and reply.\<close>

type_synonym history = "(nat \<times> MessageT \<times> MessageT) list"

record world =
  w_server :: server
  w_conn :: "nat \<Rightarrow> conn"
  w_pc :: "nat \<Rightarrow> pc"
  w_peer :: "nat \<Rightarrow> (string \<times> nat) option"
  w_done :: history

definition go :: "nat \<Rightarrow> pc \<Rightarrow> conn \<Rightarrow> server \<Rightarrow> world \<Rightarrow> world" where
  "go t p s sv w = w\<lparr>w_server := sv, w_conn := (w_conn w)(t := s), w_pc := (w_pc w)(t := p)\<rparr>"

definition thread_step :: "codec \<Rightarrow> nat \<Rightarrow> world \<Rightarrow> world option" where
  "thread_step cd t w = (let sv = w_server w; s = w_conn w t in case w_pc w t of
     AtRead \<Rightarrow>
       if sv_shutdown sv (sv_ticks sv) then Some (go t AtEnd s sv w)
       else do {
         (request, s1, m1) \<leftarrow> network_receive cd s (sv_mem sv);
         Some (go t (case request of None \<Rightarrow> AtEnd | Some msg \<Rightarrow> AtLog msg) s1 (sv\<lparr>sv_mem := m1\<rparr>) w)
       }
   | AtLog msg \<Rightarrow> do {
       sv1 \<leftarrow> log_event (w_peer w t) REQUEST (Some msg) sv;
       Some (go t (AtList msg) s sv1 w)
     }
   | AtList msg \<Rightarrow> do {
       (reply, sv1) \<leftarrow> handle_request cd msg sv;
       Some ((go t (AtSend reply) s sv1 w)\<lparr>w_done := w_done w @ [(t, msg, reply)]\<rparr>)
     }
   | AtSend reply \<Rightarrow> do {
       (r, s1, m1) \<leftarrow> network_send cd reply s (sv_mem sv);
       Some (go t (if r < 0 then AtEnd else AtRead) s1 (sv\<lparr>sv_mem := m1\<rparr>) w)
     }
   | AtEnd \<Rightarrow> None)"

inductive world_step :: "codec \<Rightarrow> world \<Rightarrow> world \<Rightarrow> bool" for cd where
  thread: "thread_step cd t w = Some w' \<Longrightarrow> world_step cd w w'"
| writer: "writer_turn (sv_log (w_server w)) = Some (Wrote q) \<Longrightarrow>
    world_step cd w (w\<lparr>w_server := (w_server w)\<lparr>sv_log := q\<rparr>\<rparr>)"
| watcher: "child_watcher cd os peers zk connected event (sv_chain (w_server w)) (sv_mem (w_server w)) = Some (ch, m) \<Longrightarrow>
    world_step cd w (w\<lparr>w_server := (w_server w)\<lparr>sv_chain := ch, sv_mem := m\<rparr>\<rparr>)"

lemma go_sel [simp]:
  "w_server (go t p s sv w) = sv" "w_conn (go t p s sv w) = (w_conn w)(t := s)"
  "w_pc (go t p s sv w) = (w_pc w)(t := p)" "w_peer (go t p s sv w) = w_peer w" "w_done (go t p s sv w) = w_done w"
  by (simp_all add: go_def)

lemma go_go [simp]: "go t p' s' sv' (go t p s sv w) = go t p' s' sv' w"
  by (simp add: go_def)

text \<open>The ways a thread can step.\<close>

lemma thread_step_cases:
  assumes "thread_step cd t w = Some w'"
  obtains
    (stop) "w_pc w t = AtRead" "w' = go t AtEnd (w_conn w t) (w_server w) w"
  | (receive) req s1 m1 where "w_pc w t = AtRead"
      "network_receive cd (w_conn w t) (sv_mem (w_server w)) = Some (req, s1, m1)"
      "w' = go t (case req of None \<Rightarrow> AtEnd | Some msg \<Rightarrow> AtLog msg) s1 ((w_server w)\<lparr>sv_mem := m1\<rparr>) w"
  | (log) msg sv1 where "w_pc w t = AtLog msg" "log_event (w_peer w t) REQUEST (Some msg) (w_server w) = Some sv1"
      "w' = go t (AtList msg) (w_conn w t) sv1 w"
  | (handle) msg reply sv1 where "w_pc w t = AtList msg" "handle_request cd msg (w_server w) = Some (reply, sv1)"
      "w' = (go t (AtSend reply) (w_conn w t) sv1 w)\<lparr>w_done := w_done w @ [(t, msg, reply)]\<rparr>"
  | (send) reply r s1 m1 where "w_pc w t = AtSend reply"
      "network_send cd reply (w_conn w t) (sv_mem (w_server w)) = Some (r, s1, m1)"
      "w' = go t (if r < 0 then AtEnd else AtRead) s1 ((w_server w)\<lparr>sv_mem := m1\<rparr>) w"
  using assms by (auto simp: thread_step_def Let_def bind_eq_Some_conv split: pc.splits if_splits)

section \<open>A turn of the loop is a sequence of steps\<close>

lemma turn_is_steps:
  assumes "client_turn cd (w_peer w t) (w_conn w t) (w_server w) = Some (continue, s', sv')"
    and "w_pc w t = AtRead" "\<not> sv_shutdown (w_server w) (sv_ticks (w_server w))"
  shows "\<exists>w'. (world_step cd)\<^sup>*\<^sup>* w w' \<and> w_server w' = sv' \<and> w_conn w' = (w_conn w)(t := s') \<and>
    w_pc w' = (w_pc w)(t := if continue then AtRead else AtEnd) \<and> w_peer w' = w_peer w \<and>
    (\<exists>es. w_done w' = w_done w @ es \<and> length es \<le> 1)"
proof -
  let ?sv = "w_server w"
  obtain req s1 m1 where recv: "network_receive cd (w_conn w t) (sv_mem ?sv) = Some (req, s1, m1)"
    and turn: "(case req of None \<Rightarrow> Some (False, s1, ?sv\<lparr>sv_mem := m1\<rparr>)
     | Some request \<Rightarrow> do {
         sv2 \<leftarrow> log_event (w_peer w t) REQUEST (Some request) (?sv\<lparr>sv_mem := m1\<rparr>);
         (reply, sv3) \<leftarrow> handle_request cd request sv2;
         (r, s2, m2) \<leftarrow> network_send cd reply s1 (sv_mem sv3);
         Some (\<not> r < 0, s2, sv3\<lparr>sv_mem := m2\<rparr>)
       }) = Some (continue, s', sv')"
    using assms(1) by (auto simp: client_turn_def bind_eq_Some_conv Let_def)
  define w1 where "w1 = go t (case req of None \<Rightarrow> AtEnd | Some msg \<Rightarrow> AtLog msg) s1 (?sv\<lparr>sv_mem := m1\<rparr>) w"
  have one: "world_step cd w w1"
    using recv assms(2,3) by (intro world_step.thread[of cd t]) (simp add: thread_step_def w1_def Let_def)
  show ?thesis
  proof (cases req)
    case None
    with one turn show ?thesis by (intro exI[of _ w1]) (auto simp: w1_def)
  next
    case (Some msg)
    with turn obtain sv2 reply sv3 r m2 where steps: "log_event (w_peer w t) REQUEST (Some msg) (?sv\<lparr>sv_mem := m1\<rparr>) = Some sv2"
      "handle_request cd msg sv2 = Some (reply, sv3)" "network_send cd reply s1 (sv_mem sv3) = Some (r, s', m2)"
      "continue = (\<not> r < 0)" "sv' = sv3\<lparr>sv_mem := m2\<rparr>"
      by (clarsimp simp: bind_eq_Some_conv)
    define w2 where "w2 = go t (AtList msg) s1 sv2 w1"
    define w3 where "w3 = (go t (AtSend reply) s1 sv3 w2)\<lparr>w_done := w_done w2 @ [(t, msg, reply)]\<rparr>"
    define w4 where "w4 = go t (if r < 0 then AtEnd else AtRead) s' sv' w3"
    have "world_step cd w1 w2"
      using Some steps(1) by (intro world_step.thread[of cd t]) (simp add: thread_step_def w1_def w2_def Let_def)
    moreover have "world_step cd w2 w3"
      using steps(2) by (intro world_step.thread[of cd t]) (simp add: thread_step_def w2_def w3_def Let_def)
    moreover have "world_step cd w3 w4"
      using steps(3,5) by (intro world_step.thread[of cd t]) (simp add: thread_step_def w3_def w4_def Let_def)
    ultimately have "(world_step cd)\<^sup>*\<^sup>* w w4"
      using one by (meson converse_rtranclp_into_rtranclp r_into_rtranclp)
    moreover have "w_conn w4 = (w_conn w)(t := s')" "w_peer w4 = w_peer w" "w_server w4 = sv'"
      "w_pc w4 = (w_pc w)(t := if continue then AtRead else AtEnd)"
      by (simp_all add: w4_def w3_def w2_def w1_def steps(4))
    moreover have "w_done w4 = w_done w @ [(t, msg, reply)]" by (simp add: w4_def w3_def w2_def w1_def)
    ultimately show ?thesis by (intro exI[of _ w4]) simp
  qed
qed

section \<open>What the history explains\<close>

text \<open>
  The abstract service over a history: a request is answered by the service, or it is a write that
  could not be forwarded, which changes nothing.
\<close>

inductive explains :: "i32 \<Rightarrow> car list \<Rightarrow> history \<Rightarrow> car list \<Rightarrow> bool" for year xs where
  start: "explains year xs [] xs"
| served: "explains year xs h ys \<Longrightarrow>
    explains year xs (h @ [(t, msg, fst (tail_spec year msg ys))]) (snd (tail_spec year msg ys))"
| not_forwarded: "explains year xs h ys \<Longrightarrow> needs_forward msg \<Longrightarrow>
    explains year xs (h @ [(t, msg, msg\<lparr>msg_opcode := OP_ERROR, msg_result := -1\<rparr>)]) ys"

lemma forward_request_same:
  assumes "forward_request cd msg sv = Some (rc, sv1)"
  shows "same_blocks (sv_mem sv) (sv_mem sv1)" "sv_list sv1 = sv_list sv" "sv_log sv1 = sv_log sv"
  using assms by (auto simp: forward_request_def zoo_forward_to_successor_def bind_eq_Some_conv
      dest: network_send_receive_same split: if_splits)

text \<open>The critical section of \<open>lock_list\<close> on a list of the process, with or without a successor.\<close>

lemma handle_cases:
  assumes "handle_request cd msg sv = Some (reply, sv')" "serve_rel l year (sv_mem sv) xs" "sv_list sv = Some l"
    and "serve_ok msg xs"
  shows "sv_list sv' = Some l \<and> sv_log sv' = sv_log sv \<and>
    (reply = fst (tail_spec year msg xs) \<and> serve_rel l year (sv_mem sv') (snd (tail_spec year msg xs)) \<or>
     needs_forward msg \<and> reply = msg\<lparr>msg_opcode := OP_ERROR, msg_result := -1\<rparr> \<and> serve_rel l year (sv_mem sv') xs)"
proof -
  have local: "sv_list sv' = Some l \<and> sv_log sv' = sv_log sv \<and> reply = fst (tail_spec year msg xs) \<and>
      serve_rel l year (sv_mem sv') (snd (tail_spec year msg xs))"
    if "apply_local msg sv1 = Some (reply, sv')" "same_blocks (sv_mem sv) (sv_mem sv1)"
      "sv_list sv1 = sv_list sv" "sv_log sv1 = sv_log sv" for sv1
    using apply_local_ok[OF serve_rel_same[OF assms(2) that(2)], of msg] that assms(3,4) by auto
  show ?thesis
  proof (cases "needs_forward msg")
    case True
    with assms(1) obtain rc sv1 where fwd: "forward_request cd msg sv = Some (rc, sv1)"
      and rest: "apply_local msg sv1 = Some (reply, sv') \<or>
        reply = msg\<lparr>msg_opcode := OP_ERROR, msg_result := -1\<rparr> \<and> sv' = sv1"
      by (auto simp: handle_request_def handle_with_def bind_eq_Some_conv split: if_splits)
    note same = forward_request_same[OF fwd]
    show ?thesis using rest local[OF _ same] True same assms(3) serve_rel_same[OF assms(2) same(1)] by auto
  next
    case False
    with assms(1) have "apply_local msg sv = Some (reply, sv')" by (simp add: handle_request_def handle_with_def)
    from local[OF this] show ?thesis by simp
  qed
qed

text \<open>Every request adds at most one car.\<close>

lemma remove_first_length: "length (remove_first P xs) \<le> length xs"
  by (induction xs) auto

lemma tail_spec_length: "length (snd (tail_spec year msg xs)) \<le> Suc (length xs)"
  using remove_first_length[of _ xs]
  by (auto simp: tail_spec_def skel_step_def step_size_def step_add_def step_get_def step_getlist_def
      step_getmodels_def step_del_def le_SucI split: option.splits)

lemma explains_length: "explains year xs h ys \<Longrightarrow> length ys \<le> length xs + length h"
proof (induction rule: explains.induct)
  case (served h ys t msg)
  with tail_spec_length[of year msg ys] show ?case by simp
qed simp_all

section \<open>What a client reads\<close>

definition replies_to :: "nat \<Rightarrow> history \<Rightarrow> MessageT list" where
  "replies_to t h = map (snd \<circ> snd) (filter (\<lambda>e. fst e = t) h)"

text \<open>Those already on the wire: a reply that is still to be sent is the last one of its thread.\<close>

definition sent_to :: "nat \<Rightarrow> world \<Rightarrow> MessageT list" where
  "sent_to t w = (case w_pc w t of AtSend r \<Rightarrow> butlast (replies_to t (w_done w)) | _ \<Rightarrow> replies_to t (w_done w))"

definition packed :: "codec \<Rightarrow> MessageT \<Rightarrow> byte list" where
  "packed cd msg = (case cd_pack cd msg of None \<Rightarrow> [] | Some bs \<Rightarrow> frame bs)"

definition reads_own :: "codec \<Rightarrow> (nat \<Rightarrow> byte list) \<Rightarrow> world \<Rightarrow> nat \<Rightarrow> bool" where
  "reads_own cd out0 w t \<longleftrightarrow> (w_pc w t \<noteq> AtEnd \<longrightarrow>
     k_out (w_conn w t) = out0 t @ concat (map (packed cd) (sent_to t w))) \<and>
     (case w_pc w t of AtSend r \<Rightarrow> (\<exists>rs. replies_to t (w_done w) = rs @ [r]) | _ \<Rightarrow> True)"

lemma replies_to_snoc [simp]:
  "replies_to t (h @ [(u, msg, r)]) = replies_to t h @ (if u = t then [r] else [])"
  by (simp add: replies_to_def)

definition reading_typed :: "world \<Rightarrow> nat \<Rightarrow> bool" where
  "reading_typed w t \<longleftrightarrow> (case w_pc w t of AtLog msg \<Rightarrow> message_typed msg | AtList msg \<Rightarrow> message_typed msg | _ \<Rightarrow> True)"

text \<open>What a step of thread \<open>t\<close> does to the streams and to the requests in flight.\<close>

lemma step_reads_own:
  assumes "thread_step cd t w = Some w'" "typed_codec cd"
    and "\<forall>u. reads_own cd out0 w u \<and> reading_typed w u"
  shows "\<forall>u. reads_own cd out0 w' u \<and> reading_typed w' u"
proof
  fix u
  have old: "reads_own cd out0 w u" "reading_typed w u" using assms(3) by simp_all
  show "reads_own cd out0 w' u \<and> reading_typed w' u"
  proof (cases "u = t")
    case False
    then have "w_conn w' u = w_conn w u" "w_pc w' u = w_pc w u" "replies_to u (w_done w') = replies_to u (w_done w)"
      using assms(1) by (auto elim!: thread_step_cases)
    with old show ?thesis by (simp add: reads_own_def reading_typed_def sent_to_def split: pc.splits)
  next
    case True
    show ?thesis
      using assms(1)
    proof (cases rule: thread_step_cases)
      case (receive req s1 m1)
      with old network_receive_out[OF receive(2)] receive_typed[OF assms(2)] True show ?thesis
        by (cases req) (auto simp: reads_own_def reading_typed_def sent_to_def)
    next
      case (send reply r s1 m1)
      show ?thesis
      proof (cases "r < 0")
        case False
        then obtain bs where "cd_pack cd reply = Some bs" "k_out s1 = k_out (w_conn w t) @ frame bs"
          using network_send_out[OF send(2)] by blast
        with old send True False show ?thesis by (auto simp: reads_own_def reading_typed_def sent_to_def packed_def)
      qed (use old send True in \<open>auto simp: reads_own_def reading_typed_def sent_to_def\<close>)
    qed (use old True in \<open>auto simp: reads_own_def reading_typed_def sent_to_def\<close>)
  qed
qed

section \<open>The invariant\<close>

lemma write_live:
  assumes "write_in_server_log c peer e msg q = Some q'" "live_log q"
  shows "live_log q'"
proof -
  obtain ls where q: "log_holds q ls" "log_room q" using assms(2) by (auto simp: live_log_def)
  have brk: "log_holds (q\<lparr>log_brk := Suc (log_brk q)\<rparr>) ls" "log_room (q\<lparr>log_brk := Suc (log_brk q)\<rparr>)"
    using q by (fastforce simp: log_holds_def log_room_def less_Suc_eq)+
  have live: "live_log q1" if "log_enqueue line q0 = Some q1" "log_holds q0 ls" "log_room q0" for line q0 q1
    using log.enq_law[of q0 ls line] that by (auto simp: live_log_def)
  show ?thesis
    using assms(1) q brk live by (auto simp: write_in_server_log_def live_log_def log_room_def bind_eq_Some_conv Let_def
        split: option.splits if_splits)
qed

lemma writer_live:
  assumes "writer_turn q = Some (Wrote q')" "live_log q"
  shows "live_log q'"
proof -
  obtain ls where q: "log_holds q ls" "log_room q" using assms(2) by (auto simp: live_log_def)
  show ?thesis
  proof (cases ls)
    case Nil
    with q(1) log_dequeue_empty have "log_head q = None" by blast
    with assms(1) show ?thesis by (simp add: writer_turn_def split: if_splits)
  next
    case (Cons line rest)
    with q(1) obtain q1 where q1: "log_dequeue q = Some (Some line, q1)" "log_holds q1 rest" "log_avail q1 = log_avail q"
      by (metis log_dequeue_holds)
    have keep: "log_holds (q1\<lparr>file_room := evs, filed := fl\<rparr>) rest" for evs fl
      using q1(2) by (simp add: log_holds_def)
    have "log_holds q' rest \<and> log_avail q' = log_avail q"
      using assms(1) q1 keep log_holds_nonempty[of q line rest] q(1) Cons
      by (cases line) (auto simp: writer_turn_def bind_eq_Some_conv)
    with q(2) show ?thesis by (auto simp: live_log_def log_room_def)
  qed
qed

lemma log_event_keeps:
  assumes "log_event peer e msg sv = Some sv'"
  shows "sv_mem sv' = sv_mem sv" "sv_list sv' = sv_list sv" "live_log (sv_log sv) \<Longrightarrow> live_log (sv_log sv')"
  using assms write_live by (auto simp: log_event_def bind_eq_Some_conv)

definition world_inv :: "codec \<Rightarrow> addr \<Rightarrow> i32 \<Rightarrow> car list \<Rightarrow> (nat \<Rightarrow> byte list) \<Rightarrow> world \<Rightarrow> bool" where
  "world_inv cd l year xs out0 w \<longleftrightarrow>
     (\<exists>ys. explains year xs (w_done w) ys \<and> serve_rel l year (sv_mem (w_server w)) ys) \<and>
     sv_list (w_server w) = Some l \<and> live_log (sv_log (w_server w)) \<and>
     (\<forall>t. reads_own cd out0 w t \<and> reading_typed w t)"

lemma thread_step_server:
  assumes "thread_step cd t w = Some w'" "serve_rel l year (sv_mem (w_server w)) ys"
    and "sv_list (w_server w) = Some l" "live_log (sv_log (w_server w))" "explains year xs (w_done w) ys"
    and "reading_typed w t" "length xs + length (w_done w') \<le> 2147483647"
  shows "(\<exists>ys. explains year xs (w_done w') ys \<and> serve_rel l year (sv_mem (w_server w')) ys) \<and>
    sv_list (w_server w') = Some l \<and> live_log (sv_log (w_server w'))"
  using assms(1)
proof (cases rule: thread_step_cases)
  case (receive req s1 m1)
  with serve_rel_same[OF assms(2) network_receive_same[OF receive(2)]] assms(3-5) show ?thesis by auto
next
  case (log msg sv1)
  with log_event_keeps[OF log(2)] assms(2-5) show ?thesis by auto
next
  case (handle msg reply sv1)
  have "length ys < 2147483647"
    using explains_length[OF assms(5)] assms(7) handle(3) by simp
  moreover have "msg_ok msg" using assms(6) handle(1) by (simp add: reading_typed_def typed_msg_ok)
  ultimately have "serve_ok msg ys" by (simp add: serve_ok_def)
  with handle_cases[OF handle(2) assms(2,3)] explains.served[OF assms(5), of t msg]
    explains.not_forwarded[OF assms(5), of msg t] assms(4) handle(3) show ?thesis by auto
next
  case (send reply r s1 m1)
  with serve_rel_same[OF assms(2) network_send_same[OF send(2)]] assms(3-5) show ?thesis by auto
qed (use assms in auto)

lemma on_server [simp]:
  "reads_own cd out0 (w\<lparr>w_server := sv\<rparr>) t = reads_own cd out0 w t"
  "reading_typed (w\<lparr>w_server := sv\<rparr>) t = reading_typed w t"
  by (simp_all add: reads_own_def reading_typed_def sent_to_def split: pc.splits)

lemma world_step_inv:
  assumes "world_step cd w w'" "world_inv cd l year xs out0 w" "typed_codec cd"
    and "length xs + length (w_done w') \<le> 2147483647"
  shows "world_inv cd l year xs out0 w'"
proof -
  obtain ys where inv: "explains year xs (w_done w) ys" "serve_rel l year (sv_mem (w_server w)) ys"
    "sv_list (w_server w) = Some l" "live_log (sv_log (w_server w))" "\<forall>t. reads_own cd out0 w t \<and> reading_typed w t"
    using assms(2) by (auto simp: world_inv_def)
  show ?thesis
    using assms(1)
  proof cases
    case (thread t)
    from thread_step_server[OF this inv(2,3,4,1) _ assms(4)] step_reads_own[OF this assms(3) inv(5)] inv(5)
    show ?thesis by (simp add: world_inv_def)
  next
    case (writer q)
    with writer_live[OF writer(2) inv(4)] inv show ?thesis
      by (auto simp: world_inv_def)
  next
    case (watcher os peers zk connected event ch m)
    with serve_rel_same[OF inv(2) child_watcher_same[OF watcher(2)]] inv show ?thesis
      by (auto simp: world_inv_def)
  qed
qed

lemma world_step_done: "world_step cd w w' \<Longrightarrow> length (w_done w) \<le> length (w_done w')"
  by (induction rule: world_step.induct) (auto elim!: thread_step_cases)

lemma world_steps_inv:
  assumes "(world_step cd)\<^sup>*\<^sup>* w w'" "world_inv cd l year xs out0 w" "typed_codec cd"
    and "length xs + length (w_done w') \<le> 2147483647"
  shows "world_inv cd l year xs out0 w'"
  using assms(1,4)
proof (induction rule: rtranclp_induct)
  case base
  show ?case by (rule assms(2))
next
  case (step w1 w2)
  from world_step_done[OF step(2)] step(4) have "length xs + length (w_done w1) \<le> 2147483647" by simp
  from world_step_inv[OF step(2) step.IH[OF this] assms(3) step(4)] show ?case .
qed

definition threads_start :: "world \<Rightarrow> bool" where
  "threads_start w \<longleftrightarrow> w_done w = [] \<and> (\<forall>t. w_pc w t = AtRead)"

lemma start_inv:
  assumes "threads_start w" "serve_rel l year (sv_mem (w_server w)) xs" "sv_list (w_server w) = Some l"
    and "live_log (sv_log (w_server w))"
  shows "world_inv cd l year xs (\<lambda>t. k_out (w_conn w t)) w"
proof -
  have "explains year xs (w_done w) xs" using assms(1) by (simp add: threads_start_def explains.start)
  with assms show ?thesis
    by (auto simp: world_inv_def threads_start_def reads_own_def reading_typed_def sent_to_def replies_to_def)
qed

section \<open>Properties\<close>

text \<open>C2: the threads of a server are linearisable.  After any interleaving of any number of client
  threads with the writer of the log and the watcher of the chain, the list of the process is the one
  that the abstract service reaches by the requests one after the other, in the order in which their
  threads held \<open>lock_list\<close>; every reply is the one of the service at that point (or the error of a
  write that could not be forwarded); and what each connection still in use has got is exactly the
  replies to its own requests, in order.\<close>

theorem threads_linearisable:
  assumes "(world_step cd)\<^sup>*\<^sup>* w w'" "threads_start w" "typed_codec cd"
    and "serve_rel l year (sv_mem (w_server w)) xs" "sv_list (w_server w) = Some l" "live_log (sv_log (w_server w))"
    and "length xs + length (w_done w') \<le> 2147483647"
  shows "\<exists>ys. explains year xs (w_done w') ys \<and> list_is (sv_mem (w_server w')) l ys \<and>
    (\<forall>t. w_pc w' t = AtEnd \<or>
       k_out (w_conn w' t) = k_out (w_conn w t) @ concat (map (packed cd) (sent_to t w')))"
  using world_steps_inv[OF assms(1) start_inv[OF assms(2,4-6)] assms(3,7)]
  by (auto simp: world_inv_def serve_rel_def reads_own_def)

text \<open>Two clients that send a size request each, byte by byte.\<close>

definition demo_world :: world where
  "demo_world = \<lparr>w_server = demo_server, w_conn = (\<lambda>_. chunk_conn [0, 2, 40, 70]), w_pc = (\<lambda>_. AtRead),
     w_peer = (\<lambda>_. None), w_done = []\<rparr>"

lemma demo_world_sel [simp]:
  "w_server demo_world = demo_server" "w_conn demo_world t = chunk_conn [0, 2, 40, 70]" "w_pc demo_world t = AtRead"
  "w_peer demo_world t = None" "w_done demo_world = []" "threads_start demo_world"
  by (simp_all add: demo_world_def threads_start_def)

lemma demo_codec_typed [simp]: "typed_codec demo_codec"
  by (auto simp: typed_codec_def demo_codec_def message_typed_def message_t_init_def cells_def)

lemma demo_server_live:
  "serve_rel 0 2025 (sv_mem demo_server) [yaris, m3]" "sv_list demo_server = Some 0" "live_log (sv_log demo_server)"
  using demo_replica demo_live by (simp_all add: replica_rel_def) (simp add: demo_server_def)

text \<open>The first client is served while the second waits.\<close>

lemma demo_world_turn:
  "\<exists>w'. (world_step demo_codec)\<^sup>*\<^sup>* demo_world w' \<and> w_pc w' 0 = AtRead \<and> w_pc w' 1 = AtRead \<and>
     k_out (w_conn w' 0) = [0, 2, 41, 50] \<and> length (w_done w') \<le> 1"
proof -
  let ?s = "chunk_conn [0, 2, 40, 70]"
  have spec: "tail_spec 2025 (demo_msg 40) [yaris, m3] =
      (reply_ok ((demo_msg 40)\<lparr>msg_result := 2\<rparr>) CT_RESULT, [yaris, m3])"
    by (simp add: tail_spec_def skel_step_def step_size_def demo_msg_def message_t_init_def)
  have "serve_ok (demo_msg 40) [yaris, m3]" "loggable (demo_msg 40)"
    by (simp_all add: serve_ok_def msg_ok_def demo_msg_def message_t_init_def loggable_def)
  moreover have "incoming ?s (frame [40, 70] @ []) []"
    using chunk_conn_incoming[of "[0, 2, 40, 70]"] by (simp add: frame_pair)
  moreover have "cd_unpack demo_codec [40, 70] = Some (demo_msg 40)" by (simp add: demo_msg_def)
  moreover have "packs demo_codec (fst (tail_spec 2025 (demo_msg 40) [yaris, m3])) [41, 50]"
    unfolding spec by (simp add: demo_msg_def packs_def demo_codec_def reply_ok_def)
  moreover have "has_room ?s (length (frame [41, 50]) + 0)"
    by (rule chunk_conn_room) (simp add: frame_pair)
  ultimately obtain s' sv' where "client_turn demo_codec None ?s demo_server = Some (True, s', sv')"
    "k_out s' = k_out ?s @ frame [41, 50]"
    using client_turn_ok[OF demo_server_inv, of "demo_msg 40" ?s "[40, 70]" "[]" "[]" demo_codec "[41, 50]" 0 None] by auto
  moreover have "\<not> sv_shutdown demo_server (sv_ticks demo_server)" by (simp add: demo_server_def)
  ultimately show ?thesis
    using turn_is_steps[of demo_codec demo_world 0 True s' sv'] by (auto simp: frame_pair)
qed

theorem threads_linearisable_witness:
  "\<exists>w' ys. (world_step demo_codec)\<^sup>*\<^sup>* demo_world w' \<and> explains 2025 [yaris, m3] (w_done w') ys \<and>
     list_is (sv_mem (w_server w')) 0 ys \<and>
     concat (map (packed demo_codec) (sent_to 0 w')) = [0, 2, 41, 50] \<and> sent_to 1 w' = []"
proof -
  obtain w' where w': "(world_step demo_codec)\<^sup>*\<^sup>* demo_world w'" "w_pc w' 0 = AtRead" "w_pc w' 1 = AtRead"
    "k_out (w_conn w' 0) = [0, 2, 41, 50]" "length (w_done w') \<le> 1"
    using demo_world_turn by blast
  have "length [yaris, m3] + length (w_done w') \<le> 2147483647" using w'(5) by simp
  from threads_linearisable[OF w'(1) demo_world_sel(6) demo_codec_typed _ _ _ this, unfolded demo_world_sel,
    OF demo_server_live]
  obtain ys where ys: "explains 2025 [yaris, m3] (w_done w') ys" "list_is (sv_mem (w_server w')) 0 ys"
    and out: "\<forall>t. w_pc w' t = AtEnd \<or>
       k_out (w_conn w' t) = k_out (chunk_conn [0, 2, 40, 70]) @ concat (map (packed demo_codec) (sent_to t w'))"
    by blast
  have sent: "concat (map (packed demo_codec) (sent_to 0 w')) = [0, 2, 41, 50]"
    using out[rule_format, of 0] w'(2,4) by simp
  then have "replies_to 0 (w_done w') \<noteq> []" using w'(2) by (auto simp: sent_to_def)
  with w'(5) have "replies_to 1 (w_done w') = []"
    by (cases "w_done w'") (auto simp: replies_to_def split: if_splits)
  then have "sent_to 1 w' = []" using w'(3) by (simp add: sent_to_def)
  with w'(1) ys sent show ?thesis by blast
qed

text \<open>C23: no thread gets stuck inside the server.  In every reachable state a thread that has read a
  request it can log, or that is about to handle one while the server has no successor, can make its
  next step: nothing it reads there is freed, missing or uninitialised.\<close>

theorem threads_progress:
  assumes "(world_step cd)\<^sup>*\<^sup>* w w'" "threads_start w" "typed_codec cd"
    and "serve_rel l year (sv_mem (w_server w)) xs" "sv_list (w_server w) = Some l" "live_log (sv_log (w_server w))"
    and "length xs + length (w_done w') < 2147483647"
    and "\<exists>msg. w_pc w' t = AtLog msg \<and> loggable msg \<or>
      w_pc w' t = AtList msg \<and> rl_next_server (sv_chain (w_server w')) = None"
  shows "\<exists>w''. thread_step cd t w' = Some w''"
proof -
  have len: "length xs + length (w_done w') \<le> 2147483647" using assms(7) by simp
  obtain ys ls where inv: "explains year xs (w_done w') ys" "serve_rel l year (sv_mem (w_server w')) ys"
    "sv_list (w_server w') = Some l" "log_holds (sv_log (w_server w')) ls" "log_room (sv_log (w_server w'))"
    "reading_typed w' t"
    using world_steps_inv[OF assms(1) start_inv[OF assms(2,4-6)] assms(3) len] by (auto simp: world_inv_def live_log_def)
  obtain msg where "w_pc w' t = AtLog msg \<and> loggable msg \<or>
      w_pc w' t = AtList msg \<and> rl_next_server (sv_chain (w_server w')) = None" using assms(8) by blast
  then show ?thesis
  proof
    assume "w_pc w' t = AtLog msg \<and> loggable msg"
    moreover from this obtain lg where "log_event (w_peer w' t) REQUEST (Some msg) (w_server w') =
        Some ((w_server w')\<lparr>sv_log := lg, sv_ticks := Suc (sv_ticks (w_server w'))\<rparr>)"
      by (metis log_request_ok[OF inv(4,5)])
    ultimately show ?thesis by (simp add: thread_step_def Let_def)
  next
    assume at: "w_pc w' t = AtList msg \<and> rl_next_server (sv_chain (w_server w')) = None"
    have "msg_ok msg" using inv(6) at by (simp add: reading_typed_def typed_msg_ok)
    moreover have "length ys < 2147483647" using explains_length[OF inv(1)] assms(7) by simp
    ultimately have "serve_ok msg ys" by (simp add: serve_ok_def)
    from apply_local_ok[OF inv(2,3) this] at show ?thesis
      by (auto simp: thread_step_def Let_def handle_tail)
  qed
qed

theorem threads_progress_witness:
  "\<exists>w' w''. (world_step demo_codec)\<^sup>*\<^sup>* demo_world w' \<and> w_pc w' 0 = AtLog (demo_msg 40) \<and>
     thread_step demo_codec 0 w' = Some w''"
proof -
  let ?s = "chunk_conn [0, 2, 40, 70]"
  have "incoming ?s (frame [40, 70] @ []) []"
    using chunk_conn_incoming[of "[0, 2, 40, 70]"] by (simp add: frame_pair)
  moreover have mem: "sv_mem demo_server = two_cars" "\<not> sv_shutdown demo_server (sv_ticks demo_server)"
    by (simp_all add: demo_server_def)
  moreover have "0 < length [40 :: byte, 70]" "length [40 :: byte, 70] \<le> 0xFFFF" "m_avail two_cars (m_brk two_cars)"
    "cd_unpack demo_codec [40, 70] = Some (demo_msg 40)"
    by (simp_all add: demo_msg_def)
  ultimately obtain s1 m1 where "network_receive demo_codec ?s (sv_mem demo_server) = Some (Some (demo_msg 40), s1, m1)"
    by (metis network_receive_ok)
  then have "thread_step demo_codec 0 demo_world =
      Some (go 0 (AtLog (demo_msg 40)) s1 (demo_server\<lparr>sv_mem := m1\<rparr>) demo_world)"
    using mem(2) by (simp add: thread_step_def Let_def)
  then have reach: "(world_step demo_codec)\<^sup>*\<^sup>* demo_world
      (go 0 (AtLog (demo_msg 40)) s1 (demo_server\<lparr>sv_mem := m1\<rparr>) demo_world)"
    by (blast intro: world_step.thread)
  have "loggable (demo_msg 40)" by (simp add: loggable_def demo_msg_def)
  then have "\<exists>w''. thread_step demo_codec 0 (go 0 (AtLog (demo_msg 40)) s1 (demo_server\<lparr>sv_mem := m1\<rparr>) demo_world) = Some w''"
    using threads_progress[OF reach _ demo_codec_typed, of 0 2025 "[yaris, m3]" 0] demo_server_live by simp
  moreover have "w_pc (go 0 (AtLog (demo_msg 40)) s1 (demo_server\<lparr>sv_mem := m1\<rparr>) demo_world) 0 = AtLog (demo_msg 40)"
    by simp
  ultimately show ?thesis using reach by blast
qed

end
