(* ===== verification/ChainOrder.thy ===== *)
theory ChainOrder
  imports ChainClient
begin

text \<open>
  The shape of the chain as a whole: the successors that the servers choose one by one, followed from
  the server that a client takes as head, pass every registered server once, in the order of their
  numbers, and end at the one that a client takes as tail.
\<close>

section \<open>Following the successors\<close>

text \<open>The child that the server registered as child \<open>i\<close> connects to.\<close>

definition successor :: "string list \<Rightarrow> nat \<Rightarrow> nat option" where
  "successor cs i = (case next_scan (own_number (child_path (cs ! i))) 0 cs (INT_MAX, -1) of
     None \<Rightarrow> None | Some (n, j) \<Rightarrow> if j = -1 then None else Some (nat j))"

text \<open>At most \<open>n\<close> links of the chain, from child \<open>i\<close> on.\<close>

fun chain_from :: "string list \<Rightarrow> nat \<Rightarrow> nat \<Rightarrow> nat list" where
  "chain_from cs 0 i = [i]"
| "chain_from cs (Suc n) i = i # (case successor cs i of None \<Rightarrow> [] | Some j \<Rightarrow> chain_from cs n j)"

definition number :: "string list \<Rightarrow> nat \<Rightarrow> int" where
  "number cs i = (case node_number (cs ! i) of None \<Rightarrow> 0 | Some a \<Rightarrow> sint a)"

definition above :: "string list \<Rightarrow> nat \<Rightarrow> nat set" where
  "above cs i = {k. k < length cs \<and> number cs i < number cs k}"

lemma number_inj:
  assumes "numbered cs" "i < length cs" "j < length cs" "number cs i = number cs j"
  shows "i = j"
proof -
  obtain a b where "node_number (cs ! i) = Some a" "node_number (cs ! j) = Some b"
    using assms(1-3) by (metis numbered_number)
  with assms(4) numbered_inj[OF assms(1-3)] show ?thesis by (simp add: number_def signed_word_eqI)
qed

text \<open>The successor is the least of the children above.\<close>

lemma successor_above:
  assumes "numbered cs" "i < length cs"
  shows "case successor cs i of None \<Rightarrow> above cs i = {}
    | Some j \<Rightarrow> j < length cs \<and> number cs i < number cs j \<and> above cs i = insert j (above cs j)"
proof -
  obtain a where a: "node_number (cs ! i) = Some a" using assms by (metis numbered_number)
  have num: "\<exists>b. node_number (cs ! k) = Some b \<and> number cs k = sint b" if "k < length cs" for k
    using numbered_number[OF assms(1) that] by (metis number_def option.simps(5))
  obtain n j where scan: "next_scan (Some a) 0 cs (INT_MAX, -1) = Some (n, j)"
    using next_scan_ok[of a 0 cs INT_MAX "-1"] by blast
  show ?thesis
  proof (cases "j = -1")
    case True
    have "above cs i = {}"
    proof (rule ccontr)
      assume "above cs i \<noteq> {}"
      then obtain k b where "k < length cs" "node_number (cs ! k) = Some b" "sint a < sint b"
        using num a by (fastforce simp: above_def number_def)
      moreover have "\<forall>c \<in> set cs. \<forall>k. node_number c = Some k \<longrightarrow> sint k \<le> sint a"
        using next_scan_none[OF assms(1), of a] scan True by blast
      ultimately show False by (meson leD nth_mem)
    qed
    with True scan a show ?thesis by (simp add: successor_def)
  next
    case False
    from successor_found[OF assms(1) scan this] have j: "nat j < length cs" "node_number (cs ! nat j) = Some n"
      "sint a < sint n" and least: "\<forall>c \<in> set cs. \<forall>k. node_number c = Some k \<longrightarrow> sint a < sint k \<longrightarrow> sint n \<le> sint k"
      by simp_all
    have numj: "number cs (nat j) = sint n" "number cs i = sint a" using j(2) a by (simp_all add: number_def)
    have "above cs i = insert (nat j) (above cs (nat j))"
    proof (rule set_eqI)
      fix k
      show "k \<in> above cs i \<longleftrightarrow> k \<in> insert (nat j) (above cs (nat j))"
      proof (cases "k < length cs")
        case True
        then obtain b where "node_number (cs ! k) = Some b" "number cs k = sint b" using num by blast
        then have "number cs i < number cs k \<longleftrightarrow> number cs (nat j) \<le> number cs k"
          using least True j(3) unfolding numj by fastforce
        then show ?thesis
          using number_inj[OF assms(1) True j(1)] True j(1) by (auto simp: above_def)
      qed (use j(1) in \<open>auto simp: above_def\<close>)
    qed
    with False scan a j(1,3) numj show ?thesis by (simp add: successor_def)
  qed
qed

lemma above_self [simp]: "i \<notin> above cs i"
  by (simp add: above_def)

lemma finite_above [simp]: "finite (above cs i)"
  by (simp add: above_def)

lemma chain_from_above:
  assumes "numbered cs" "i < length cs" "card (above cs i) \<le> n"
  shows "set (chain_from cs n i) = insert i (above cs i) \<and>
    sorted_wrt (\<lambda>j k. number cs j < number cs k) (chain_from cs n i) \<and> above cs (last (chain_from cs n i)) = {}"
  using assms(2,3)
proof (induction n arbitrary: i)
  case 0
  then show ?case by simp
next
  case (Suc n)
  show ?case
  proof (cases "successor cs i")
    case None
    then show ?thesis using successor_above[OF assms(1) Suc.prems(1)] by simp
  next
    case (Some j)
    then have j: "j < length cs" "number cs i < number cs j" "above cs i = insert j (above cs j)"
      using successor_above[OF assms(1) Suc.prems(1)] by simp_all
    with Suc.prems(2) have "card (above cs j) \<le> n" by simp
    note IH = Suc.IH[OF j(1) this]
    have "chain_from cs n j \<noteq> []" by (cases n) simp_all
    moreover have "\<forall>k \<in> insert j (above cs j). number cs i < number cs k"
      using j(2) by (auto simp: above_def)
    ultimately show ?thesis using Some j(3) IH by simp
  qed
qed

lemma sorted_numbers_distinct: "sorted_wrt (\<lambda>j k. number cs j < number cs k) js \<Longrightarrow> distinct js"
  by (induction js) auto

section \<open>Properties\<close>

text \<open>C21: the servers form one chain.  Followed from the child that a client takes as head, the successors
  that the servers choose pass all registered servers, each once, by increasing number, and the last
  one is the child that a client takes as tail.\<close>

theorem chain_visits_all:
  assumes "numbered cs" "cs \<noteq> []"
  shows "\<exists>least i greatest j. ends_scan 0 cs ((INT_MAX, 0), (INT_MIN, 0)) = ((least, i), (greatest, j)) \<and>
    set (chain_from cs (length cs) i) = {..<length cs} \<and>
    sorted_wrt (\<lambda>j k. number cs j < number cs k) (chain_from cs (length cs) i) \<and>
    length (chain_from cs (length cs) i) = length cs \<and> last (chain_from cs (length cs) i) = j"
proof -
  obtain least i greatest j where scan: "ends_scan 0 cs ((INT_MAX, 0), (INT_MIN, 0)) = ((least, i), (greatest, j))"
    and i: "i < length cs" "node_number (cs ! i) = Some least" and j: "j < length cs" "node_number (cs ! j) = Some greatest"
    and all: "\<forall>c \<in> set cs. \<forall>k. node_number c = Some k \<longrightarrow> sint least \<le> sint k \<and> sint k \<le> sint greatest"
    by (rule ends_found[OF assms])
  let ?path = "chain_from cs (length cs) i"
  have range: "number cs i \<le> number cs k \<and> number cs k \<le> number cs j" if k: "k < length cs" for k
  proof -
    obtain b where "node_number (cs ! k) = Some b" using numbered_number[OF assms(1) k] by blast
    moreover from this all k have "sint least \<le> sint b \<and> sint b \<le> sint greatest" by (meson nth_mem)
    ultimately show ?thesis using i(2) j(2) by (simp add: number_def)
  qed
  have "above cs i \<subseteq> {..<length cs}" by (auto simp: above_def)
  from card_mono[OF _ this] have "card (above cs i) \<le> length cs" by simp
  note path = chain_from_above[OF assms(1) i(1) this]
  have "k = i \<or> number cs i < number cs k" if "k < length cs" for k
    using range[OF that] number_inj[OF assms(1) that i(1)] by linarith
  then have "insert i (above cs i) = {..<length cs}" using i(1) by (auto simp: above_def)
  then have set: "set ?path = {..<length cs}" using path by simp
  have sorted: "sorted_wrt (\<lambda>j k. number cs j < number cs k) ?path" using path by simp
  then have "distinct ?path" by (rule sorted_numbers_distinct)
  then have "length ?path = length cs" using set by (metis card_lessThan distinct_card)
  moreover from this i(1) have "?path \<noteq> []" by auto
  then have "last ?path < length cs" using set last_in_set[of ?path] by auto
  then have "last ?path = j"
    using path range j(1) number_inj[OF assms(1) _ j(1)] by (fastforce simp: above_def)
  ultimately show ?thesis using scan set sorted by blast
qed

theorem chain_visits_all_witness:
  "\<exists>least i greatest j. ends_scan 0 three_nodes ((INT_MAX, 0), (INT_MIN, 0)) = ((least, i), (greatest, j)) \<and>
     set (chain_from three_nodes 3 i) = {..<3} \<and> length (chain_from three_nodes 3 i) = 3 \<and>
     last (chain_from three_nodes 3 i) = j"
proof -
  have "three_nodes \<noteq> []" by (simp add: three_nodes_def)
  from chain_visits_all[OF three_nodes_numbered this] show ?thesis unfolding three_nodes_numbers(4) by blast
qed

end
