(* ===== verification/Descriptors.thy ===== *)
theory Descriptors
  imports Message
begin

text \<open>
  The tables of the generated \<open>source/sdmessage.pb-c.c\<close>: what the protobuf-c library knows of the
  enumerations and messages of \<open>sdmessage.proto\<close> when it packs and unpacks them.  A pointer to a
  descriptor is its name (\<open>pb_ref\<close>), an offset is the name of the member of the C structure, and
  \<open>sizeof\<close>, the pointer to the init function and the reserved words, which are all NULL, are left out.
\<close>

section \<open>The types of protobuf-c\<close>

datatype pb_ref = Ref_marca | Ref_combustivel | Ref_data | Ref_message_t | Ref_opcode | Ref_c_type

datatype pb_label = LABEL_NONE | LABEL_REPEATED

datatype pb_type = TYPE_INT32 | TYPE_SINT32 | TYPE_FLOAT | TYPE_ENUM | TYPE_STRING | TYPE_MESSAGE

record field_descriptor =
  fd_name :: string
  fd_id :: nat
  fd_label :: pb_label
  fd_type :: pb_type
  fd_quantifier :: "string option"
  fd_offset :: string
  fd_descriptor :: "pb_ref option"
  fd_default :: "string option"
  fd_flags :: nat

record enum_value =
  ev_name :: string
  ev_c_name :: string
  ev_value :: nat

text \<open>The first number of a run of consecutive numbers, and the index of its entry.\<close>

type_synonym int_range = "nat \<times> nat"

record enum_descriptor =
  ed_name :: string
  ed_short_name :: string
  ed_c_name :: string
  ed_package_name :: string
  ed_n_values :: nat
  ed_values :: "enum_value list"
  ed_n_value_names :: nat
  ed_values_by_name :: "(string \<times> nat) list"
  ed_n_value_ranges :: nat
  ed_value_ranges :: "int_range list"

record message_descriptor =
  md_name :: string
  md_short_name :: string
  md_c_name :: string
  md_package_name :: string
  md_n_fields :: nat
  md_fields :: "field_descriptor list"
  md_fields_by_name :: "nat list"
  md_n_field_ranges :: nat
  md_field_ranges :: "int_range list"

section \<open>The structure of a car\<close>

definition data__field_descriptors :: "field_descriptor list" where
  "data__field_descriptors =
    [\<lparr>fd_name = ''ano'', fd_id = 1, fd_label = LABEL_NONE, fd_type = TYPE_INT32,
     fd_quantifier = None,
       fd_offset = ''ano'', fd_descriptor = None, fd_default = None, fd_flags = 0\<rparr>,
     \<lparr>fd_name = ''preco'', fd_id = 2, fd_label = LABEL_NONE, fd_type = TYPE_FLOAT,
     fd_quantifier = None,
       fd_offset = ''preco'', fd_descriptor = None, fd_default = None, fd_flags = 0\<rparr>,
     \<lparr>fd_name = ''marca'', fd_id = 3, fd_label = LABEL_NONE, fd_type = TYPE_ENUM,
     fd_quantifier = None,
       fd_offset = ''marca'', fd_descriptor = Some Ref_marca, fd_default = None, fd_flags = 0\<rparr>,
     \<lparr>fd_name = ''modelo'', fd_id = 4, fd_label = LABEL_NONE, fd_type = TYPE_STRING,
     fd_quantifier = None,
       fd_offset = ''modelo'', fd_descriptor = None, fd_default = Some '''', fd_flags = 0\<rparr>,
     \<lparr>fd_name = ''combustivel'', fd_id = 5, fd_label = LABEL_NONE, fd_type = TYPE_ENUM,
     fd_quantifier = None,
       fd_offset = ''combustivel'', fd_descriptor = Some Ref_combustivel, fd_default = None,
     fd_flags = 0\<rparr>]"

definition data__field_indices_by_name :: "nat list" where
  "data__field_indices_by_name = [0, 4, 2, 3, 1]"

definition data__number_ranges :: "int_range list" where
  "data__number_ranges = [(1, 0), (0, 5)]"

definition data__descriptor :: message_descriptor where
  "data__descriptor = \<lparr>md_name = ''Data'', md_short_name = ''Data'', md_c_name = ''Data'',
     md_package_name = '''',
     md_n_fields = 5, md_fields = data__field_descriptors,
     md_fields_by_name = data__field_indices_by_name,
     md_n_field_ranges = 1, md_field_ranges = data__number_ranges\<rparr>"

section \<open>Opcodes\<close>

definition message_t__opcode__enum_values_by_number :: "enum_value list" where
  "message_t__opcode__enum_values_by_number =
    [\<lparr>ev_name = ''OP_BAD'', ev_c_name = ''MESSAGE_T__OPCODE__OP_BAD'', ev_value = 0\<rparr>,
     \<lparr>ev_name = ''OP_ADD'', ev_c_name = ''MESSAGE_T__OPCODE__OP_ADD'', ev_value = 10\<rparr>,
     \<lparr>ev_name = ''OP_GET'', ev_c_name = ''MESSAGE_T__OPCODE__OP_GET'', ev_value = 20\<rparr>,
     \<lparr>ev_name = ''OP_DEL'', ev_c_name = ''MESSAGE_T__OPCODE__OP_DEL'', ev_value = 30\<rparr>,
     \<lparr>ev_name = ''OP_SIZE'', ev_c_name = ''MESSAGE_T__OPCODE__OP_SIZE'', ev_value = 40\<rparr>,
     \<lparr>ev_name = ''OP_GETMODELS'', ev_c_name = ''MESSAGE_T__OPCODE__OP_GETMODELS'',
     ev_value = 50\<rparr>,
     \<lparr>ev_name = ''OP_GETLISTBYTEAR'', ev_c_name = ''MESSAGE_T__OPCODE__OP_GETLISTBYTEAR'',
     ev_value = 60\<rparr>,
     \<lparr>ev_name = ''OP_ORDER'', ev_c_name = ''MESSAGE_T__OPCODE__OP_ORDER'', ev_value = 70\<rparr>,
     \<lparr>ev_name = ''OP_ERROR'', ev_c_name = ''MESSAGE_T__OPCODE__OP_ERROR'', ev_value = 99\<rparr>,
     \<lparr>ev_name = ''OP_BUSY'', ev_c_name = ''MESSAGE_T__OPCODE__OP_BUSY'', ev_value = 100\<rparr>,
     \<lparr>ev_name = ''OP_READY'', ev_c_name = ''MESSAGE_T__OPCODE__OP_READY'', ev_value = 101\<rparr>]"

definition message_t__opcode__value_ranges :: "int_range list" where
  "message_t__opcode__value_ranges = [(0, 0), (10, 1), (20, 2), (30, 3), (40, 4), (50, 5), (60, 6), (70,
     7), (99, 8), (0, 11)]"

definition message_t__opcode__enum_values_by_name :: "(string \<times> nat) list" where
  "message_t__opcode__enum_values_by_name =
    [(''OP_ADD'', 1), (''OP_BAD'', 0), (''OP_BUSY'', 9), (''OP_DEL'', 3), (''OP_ERROR'', 8), (''OP_GET'',
     2), (''OP_GETLISTBYTEAR'', 6), (''OP_GETMODELS'', 5), (''OP_ORDER'', 7), (''OP_READY'', 10),
     (''OP_SIZE'', 4)]"

definition message_t__opcode__descriptor :: enum_descriptor where
  "message_t__opcode__descriptor = \<lparr>ed_name = ''message_t.Opcode'', ed_short_name = ''Opcode'',
     ed_c_name = ''MessageT__Opcode'', ed_package_name = '''',
     ed_n_values = 11, ed_values = message_t__opcode__enum_values_by_number,
     ed_n_value_names = 11, ed_values_by_name = message_t__opcode__enum_values_by_name,
     ed_n_value_ranges = 9, ed_value_ranges = message_t__opcode__value_ranges\<rparr>"

section \<open>Content types\<close>

definition message_t__c_type__enum_values_by_number :: "enum_value list" where
  "message_t__c_type__enum_values_by_number =
    [\<lparr>ev_name = ''CT_BAD'', ev_c_name = ''MESSAGE_T__C_TYPE__CT_BAD'', ev_value = 0\<rparr>,
     \<lparr>ev_name = ''CT_DATA'', ev_c_name = ''MESSAGE_T__C_TYPE__CT_DATA'', ev_value = 10\<rparr>,
     \<lparr>ev_name = ''CT_MARCA'', ev_c_name = ''MESSAGE_T__C_TYPE__CT_MARCA'', ev_value = 20\<rparr>,
     \<lparr>ev_name = ''CT_YEAR'', ev_c_name = ''MESSAGE_T__C_TYPE__CT_YEAR'', ev_value = 30\<rparr>,
     \<lparr>ev_name = ''CT_MODEL'', ev_c_name = ''MESSAGE_T__C_TYPE__CT_MODEL'', ev_value = 40\<rparr>,
     \<lparr>ev_name = ''CT_RESULT'', ev_c_name = ''MESSAGE_T__C_TYPE__CT_RESULT'', ev_value = 50\<rparr>,
     \<lparr>ev_name = ''CT_LIST'', ev_c_name = ''MESSAGE_T__C_TYPE__CT_LIST'', ev_value = 60\<rparr>,
     \<lparr>ev_name = ''CT_NONE'', ev_c_name = ''MESSAGE_T__C_TYPE__CT_NONE'', ev_value = 70\<rparr>]"

definition message_t__c_type__value_ranges :: "int_range list" where
  "message_t__c_type__value_ranges = [(0, 0), (10, 1), (20, 2), (30, 3), (40, 4), (50, 5), (60, 6), (70,
     7), (0, 8)]"

definition message_t__c_type__enum_values_by_name :: "(string \<times> nat) list" where
  "message_t__c_type__enum_values_by_name =
    [(''CT_BAD'', 0), (''CT_DATA'', 1), (''CT_LIST'', 6), (''CT_MARCA'', 2), (''CT_MODEL'', 4),
     (''CT_NONE'', 7), (''CT_RESULT'', 5), (''CT_YEAR'', 3)]"

definition message_t__c_type__descriptor :: enum_descriptor where
  "message_t__c_type__descriptor = \<lparr>ed_name = ''message_t.C_type'', ed_short_name = ''C_type'',
     ed_c_name = ''MessageT__CType'', ed_package_name = '''',
     ed_n_values = 8, ed_values = message_t__c_type__enum_values_by_number,
     ed_n_value_names = 8, ed_values_by_name = message_t__c_type__enum_values_by_name,
     ed_n_value_ranges = 8, ed_value_ranges = message_t__c_type__value_ranges\<rparr>"

section \<open>The structure of a message\<close>

definition message_t__field_descriptors :: "field_descriptor list" where
  "message_t__field_descriptors =
    [\<lparr>fd_name = ''opcode'', fd_id = 1, fd_label = LABEL_NONE, fd_type = TYPE_ENUM,
     fd_quantifier = None,
       fd_offset = ''opcode'', fd_descriptor = Some Ref_opcode, fd_default = None, fd_flags = 0\<rparr>,
     \<lparr>fd_name = ''c_type'', fd_id = 2, fd_label = LABEL_NONE, fd_type = TYPE_ENUM,
     fd_quantifier = None,
       fd_offset = ''c_type'', fd_descriptor = Some Ref_c_type, fd_default = None, fd_flags = 0\<rparr>,
     \<lparr>fd_name = ''data'', fd_id = 3, fd_label = LABEL_NONE, fd_type = TYPE_MESSAGE,
     fd_quantifier = None,
       fd_offset = ''data'', fd_descriptor = Some Ref_data, fd_default = None, fd_flags = 0\<rparr>,
     \<lparr>fd_name = ''result'', fd_id = 6, fd_label = LABEL_NONE, fd_type = TYPE_SINT32,
     fd_quantifier = None,
       fd_offset = ''result'', fd_descriptor = None, fd_default = None, fd_flags = 0\<rparr>,
     \<lparr>fd_name = ''models'', fd_id = 7, fd_label = LABEL_REPEATED, fd_type = TYPE_STRING,
     fd_quantifier = Some ''n_models'',
       fd_offset = ''models'', fd_descriptor = None, fd_default = Some '''', fd_flags = 0\<rparr>,
     \<lparr>fd_name = ''cars'', fd_id = 8, fd_label = LABEL_REPEATED, fd_type = TYPE_MESSAGE,
     fd_quantifier = Some ''n_cars'',
       fd_offset = ''cars'', fd_descriptor = Some Ref_data, fd_default = None, fd_flags = 0\<rparr>]"

definition message_t__field_indices_by_name :: "nat list" where
  "message_t__field_indices_by_name = [1, 5, 2, 4, 0, 3]"

definition message_t__number_ranges :: "int_range list" where
  "message_t__number_ranges = [(1, 0), (6, 3), (0, 6)]"

definition message_t__descriptor :: message_descriptor where
  "message_t__descriptor = \<lparr>md_name = ''message_t'', md_short_name = ''MessageT'',
     md_c_name = ''MessageT'', md_package_name = '''',
     md_n_fields = 6, md_fields = message_t__field_descriptors,
     md_fields_by_name = message_t__field_indices_by_name,
     md_n_field_ranges = 2, md_field_ranges = message_t__number_ranges\<rparr>"

section \<open>Makes\<close>

definition marca__enum_values_by_number :: "enum_value list" where
  "marca__enum_values_by_number =
    [\<lparr>ev_name = ''MARCA_TOYOTA'', ev_c_name = ''MARCA__MARCA_TOYOTA'', ev_value = 0\<rparr>,
     \<lparr>ev_name = ''MARCA_BMW'', ev_c_name = ''MARCA__MARCA_BMW'', ev_value = 1\<rparr>,
     \<lparr>ev_name = ''MARCA_RENAULT'', ev_c_name = ''MARCA__MARCA_RENAULT'', ev_value = 2\<rparr>,
     \<lparr>ev_name = ''MARCA_AUDI'', ev_c_name = ''MARCA__MARCA_AUDI'', ev_value = 3\<rparr>,
     \<lparr>ev_name = ''MARCA_MERCEDES'', ev_c_name = ''MARCA__MARCA_MERCEDES'', ev_value = 4\<rparr>]"

definition marca__value_ranges :: "int_range list" where
  "marca__value_ranges = [(0, 0), (0, 5)]"

definition marca__enum_values_by_name :: "(string \<times> nat) list" where
  "marca__enum_values_by_name =
    [(''MARCA_AUDI'', 3), (''MARCA_BMW'', 1), (''MARCA_MERCEDES'', 4), (''MARCA_RENAULT'', 2),
     (''MARCA_TOYOTA'', 0)]"

definition marca__descriptor :: enum_descriptor where
  "marca__descriptor = \<lparr>ed_name = ''Marca'', ed_short_name = ''Marca'', ed_c_name = ''Marca'',
     ed_package_name = '''',
     ed_n_values = 5, ed_values = marca__enum_values_by_number,
     ed_n_value_names = 5, ed_values_by_name = marca__enum_values_by_name,
     ed_n_value_ranges = 1, ed_value_ranges = marca__value_ranges\<rparr>"

section \<open>Fuels\<close>

definition combustivel__enum_values_by_number :: "enum_value list" where
  "combustivel__enum_values_by_number =
    [\<lparr>ev_name = ''COMBUSTIVEL_GASOLINA'', ev_c_name = ''COMBUSTIVEL__COMBUSTIVEL_GASOLINA'',
     ev_value = 0\<rparr>,
     \<lparr>ev_name = ''COMBUSTIVEL_GASOLEO'', ev_c_name = ''COMBUSTIVEL__COMBUSTIVEL_GASOLEO'',
     ev_value = 1\<rparr>,
     \<lparr>ev_name = ''COMBUSTIVEL_ELETRICO'', ev_c_name = ''COMBUSTIVEL__COMBUSTIVEL_ELETRICO'',
     ev_value = 2\<rparr>,
     \<lparr>ev_name = ''COMBUSTIVEL_HIBRIDO'', ev_c_name = ''COMBUSTIVEL__COMBUSTIVEL_HIBRIDO'',
     ev_value = 3\<rparr>]"

definition combustivel__value_ranges :: "int_range list" where
  "combustivel__value_ranges = [(0, 0), (0, 4)]"

definition combustivel__enum_values_by_name :: "(string \<times> nat) list" where
  "combustivel__enum_values_by_name =
    [(''COMBUSTIVEL_ELETRICO'', 2), (''COMBUSTIVEL_GASOLEO'', 1), (''COMBUSTIVEL_GASOLINA'', 0),
     (''COMBUSTIVEL_HIBRIDO'', 3)]"

definition combustivel__descriptor :: enum_descriptor where
  "combustivel__descriptor = \<lparr>ed_name = ''Combustivel'', ed_short_name = ''Combustivel'',
     ed_c_name = ''Combustivel'', ed_package_name = '''',
     ed_n_values = 4, ed_values = combustivel__enum_values_by_number,
     ed_n_value_names = 4, ed_values_by_name = combustivel__enum_values_by_name,
     ed_n_value_ranges = 1, ed_value_ranges = combustivel__value_ranges\<rparr>"

section \<open>What the library needs of the tables\<close>

text \<open>
  Numbers are found by their runs: number \<open>v\<close> has the entry at \<open>orig + (v - start)\<close> when it lies in
  the run that starts at \<open>start\<close>, whose length is the distance to the index of the next run.
\<close>

fun range_index :: "int_range list \<Rightarrow> nat \<Rightarrow> nat option" where
  "range_index ((start, orig) # (start', orig') # rs) v =
     (if start \<le> v \<and> v < start + (orig' - orig) then Some (orig + (v - start))
      else range_index ((start', orig') # rs) v)"
| "range_index _ v = None"

text \<open>Names are found by binary search in the order of \<open>strcmp\<close>.\<close>

fun strcmp_less :: "string \<Rightarrow> string \<Rightarrow> bool" where
  "strcmp_less _ [] = False"
| "strcmp_less [] (_ # _) = True"
| "strcmp_less (a # as) (b # bs) = (of_char a < (of_char b :: nat) \<or> a = b \<and> strcmp_less as bs)"

fun sorted_names :: "string list \<Rightarrow> bool" where
  "sorted_names (a # b # cs) = (strcmp_less a b \<and> sorted_names (b # cs))"
| "sorted_names _ = True"

text \<open>A table of runs finds exactly the numbers of its \<open>keys\<close>, a table of names exactly the names.\<close>

definition ranges_exact :: "int_range list \<Rightarrow> nat \<Rightarrow> nat list \<Rightarrow> bool" where
  "ranges_exact rs n keys \<longleftrightarrow> length rs = Suc n \<and>
     (\<forall>v i. range_index rs v = Some i \<longleftrightarrow> i < length keys \<and> keys ! i = v)"

definition names_exact :: "(string \<times> nat) list \<Rightarrow> string list \<Rightarrow> bool" where
  "names_exact by_name names \<longleftrightarrow> sorted_names (map fst by_name) \<and> length by_name = length names \<and>
     list_all (\<lambda>(s, i). i < length names \<and> names ! i = s) by_name"

definition enum_exact :: "enum_descriptor \<Rightarrow> bool" where
  "enum_exact e \<longleftrightarrow> length (ed_values e) = ed_n_values e \<and> ed_n_value_names e = length (ed_values_by_name e) \<and>
     ranges_exact (ed_value_ranges e) (ed_n_value_ranges e) (map ev_value (ed_values e)) \<and>
     names_exact (ed_values_by_name e) (map ev_name (ed_values e))"

text \<open>
  A field of a message: repeated fields count their elements in a member of their own, an
  enumeration or message names its descriptor, a string has the empty string as its default.
\<close>

definition field_exact :: "field_descriptor \<Rightarrow> bool" where
  "field_exact f \<longleftrightarrow> (fd_label f = LABEL_REPEATED \<longleftrightarrow> fd_quantifier f \<noteq> None) \<and>
     (fd_type f = TYPE_ENUM \<or> fd_type f = TYPE_MESSAGE \<longleftrightarrow> fd_descriptor f \<noteq> None) \<and>
     (fd_type f = TYPE_STRING \<longleftrightarrow> fd_default f = Some []) \<and> fd_name f = fd_offset f"

definition message_exact :: "message_descriptor \<Rightarrow> bool" where
  "message_exact d \<longleftrightarrow> length (md_fields d) = md_n_fields d \<and>
     ranges_exact (md_field_ranges d) (md_n_field_ranges d) (map fd_id (md_fields d)) \<and>
     names_exact (map (\<lambda>i. (fd_name (md_fields d ! i), i)) (md_fields_by_name d)) (map fd_name (md_fields d)) \<and>
     list_all field_exact (md_fields d)"

named_theorems pb_tables "the generated tables"

lemmas [pb_tables] =
  data__field_descriptors_def data__field_indices_by_name_def data__number_ranges_def data__descriptor_def
  message_t__opcode__enum_values_by_number_def message_t__opcode__value_ranges_def
  message_t__opcode__enum_values_by_name_def message_t__opcode__descriptor_def
  message_t__c_type__enum_values_by_number_def message_t__c_type__value_ranges_def
  message_t__c_type__enum_values_by_name_def message_t__c_type__descriptor_def
  message_t__field_descriptors_def message_t__field_indices_by_name_def message_t__number_ranges_def
  message_t__descriptor_def
  marca__enum_values_by_number_def marca__value_ranges_def marca__enum_values_by_name_def marca__descriptor_def
  combustivel__enum_values_by_number_def combustivel__value_ranges_def combustivel__enum_values_by_name_def
  combustivel__descriptor_def

section \<open>Properties\<close>

text \<open>The runs of a table cover its entries one after the other, from the first index on.\<close>

fun runs_of :: "int_range list \<Rightarrow> nat list" where
  "runs_of ((start, orig) # (start', orig') # rs) =
     map (\<lambda>k. start + k) [0..<orig' - orig] @ runs_of ((start', orig') # rs)"
| "runs_of _ = []"

fun runs_ok :: "int_range list \<Rightarrow> bool" where
  "runs_ok ((start, orig) # (start', orig') # rs) = (orig < orig' \<and> runs_ok ((start', orig') # rs))"
| "runs_ok _ = True"

lemma range_index_sound:
  "runs_ok rs \<Longrightarrow> range_index rs v = Some i \<Longrightarrow>
     snd (hd rs) \<le> i \<and> i - snd (hd rs) < length (runs_of rs) \<and> runs_of rs ! (i - snd (hd rs)) = v"
proof (induction rs v rule: range_index.induct)
  case (1 start orig start' orig' rs v)
  show ?case
  proof (cases "start \<le> v \<and> v < start + (orig' - orig)")
    case True
    with "1.prems" show ?thesis by (auto simp: nth_append)
  next
    case False
    with "1.prems" have "range_index ((start', orig') # rs) v = Some i" by (auto split: if_splits)
    with "1.IH"[OF False] "1.prems"(1) show ?thesis by (auto simp: nth_append)
  qed
qed simp_all

lemma ranges_exactI:
  assumes "length rs = Suc n" "runs_ok rs" "snd (hd rs) = 0" "runs_of rs = keys"
    and "list_all (\<lambda>i. range_index rs (keys ! i) = Some i) [0..<length keys]"
  shows "ranges_exact rs n keys"
  using assms range_index_sound[of rs] by (fastforce simp: ranges_exact_def list_all_iff)

lemma enum_exactI:
  assumes "length (ed_values e) = ed_n_values e" "ed_n_value_names e = length (ed_values_by_name e)"
    and "length (ed_value_ranges e) = Suc (ed_n_value_ranges e)" "runs_ok (ed_value_ranges e)"
    and "snd (hd (ed_value_ranges e)) = 0" "runs_of (ed_value_ranges e) = map ev_value (ed_values e)"
    and "list_all (\<lambda>i. range_index (ed_value_ranges e) (map ev_value (ed_values e) ! i) = Some i) [0..<length (ed_values e)]"
    and "names_exact (ed_values_by_name e) (map ev_name (ed_values e))"
  shows "enum_exact e"
  using assms by (auto simp: enum_exact_def intro!: ranges_exactI)

lemma message_exactI:
  assumes "length (md_fields d) = md_n_fields d"
    and "length (md_field_ranges d) = Suc (md_n_field_ranges d)" "runs_ok (md_field_ranges d)"
    and "snd (hd (md_field_ranges d)) = 0" "runs_of (md_field_ranges d) = map fd_id (md_fields d)"
    and "list_all (\<lambda>i. range_index (md_field_ranges d) (map fd_id (md_fields d) ! i) = Some i) [0..<length (md_fields d)]"
    and "names_exact (map (\<lambda>i. (fd_name (md_fields d ! i), i)) (md_fields_by_name d)) (map fd_name (md_fields d))"
    and "list_all field_exact (md_fields d)"
  shows "message_exact d"
  using assms by (auto simp: message_exact_def intro!: ranges_exactI)

text \<open>The enumerations of the header, whose constants the program uses.\<close>

definition MessageT__Opcode :: "(string \<times> u32) list" where
  "MessageT__Opcode = [(''OP_BAD'', OP_BAD), (''OP_ADD'', OP_ADD), (''OP_GET'', OP_GET), (''OP_DEL'', OP_DEL),
     (''OP_SIZE'', OP_SIZE), (''OP_GETMODELS'', OP_GETMODELS), (''OP_GETLISTBYTEAR'', OP_GETLISTBYTEAR),
     (''OP_ORDER'', OP_ORDER), (''OP_ERROR'', OP_ERROR), (''OP_BUSY'', OP_BUSY), (''OP_READY'', OP_READY)]"

definition MessageT__CType :: "(string \<times> u32) list" where
  "MessageT__CType = [(''CT_BAD'', CT_BAD), (''CT_DATA'', CT_DATA), (''CT_MARCA'', CT_MARCA), (''CT_YEAR'', CT_YEAR),
     (''CT_MODEL'', CT_MODEL), (''CT_RESULT'', CT_RESULT), (''CT_LIST'', CT_LIST), (''CT_NONE'', CT_NONE)]"

definition Marca :: "(string \<times> u32) list" where
  "Marca = [(''MARCA_TOYOTA'', 0), (''MARCA_BMW'', 1), (''MARCA_RENAULT'', 2), (''MARCA_AUDI'', 3), (''MARCA_MERCEDES'', 4)]"

definition Combustivel :: "(string \<times> u32) list" where
  "Combustivel = [(''COMBUSTIVEL_GASOLINA'', 0), (''COMBUSTIVEL_GASOLEO'', 1), (''COMBUSTIVEL_ELETRICO'', 2),
     (''COMBUSTIVEL_HIBRIDO'', 3)]"

definition numbers_of :: "enum_descriptor \<Rightarrow> (string \<times> u32) list" where
  "numbers_of e = map (\<lambda>v. (ev_name v, of_nat (ev_value v))) (ed_values e)"


end
