(* ===== verification/Varint.thy ===== *)
theory Varint
  imports Prelude
begin

text \<open>
  The tagged values of the protobuf encoding: variable-length integers, little-endian words and
  length-delimited bytes, each behind the number of its field.
\<close>

section \<open>Variable-length integers\<close>

type_synonym octet = "8 word"

text \<open>Seven bits in a byte, least significant first; the top bit says that more follow.\<close>

function enc_varint :: "nat \<Rightarrow> octet list" where
  "enc_varint n = (if n < 128 then [of_nat n] else of_nat (128 + n mod 128) # enc_varint (n div 128))"
  by auto
termination by (relation "measure id") auto

declare enc_varint.simps [simp del]

fun dec_varint :: "octet list \<Rightarrow> (nat \<times> octet list) option" where
  "dec_varint [] = None"
| "dec_varint (b # bs) =
     (if unat b < 128 then Some (unat b, bs)
      else do { (n, rest) \<leftarrow> dec_varint bs; Some (unat b - 128 + 128 * n, rest) })"

lemma unat_octet: "n < 256 \<Longrightarrow> unat (of_nat n :: octet) = n"
  by (simp add: unat_of_nat)

lemma dec_enc_varint [simp]: "dec_varint (enc_varint n @ rest) = Some (n, rest)"
proof (induction n arbitrary: rest rule: less_induct)
  case (less n)
  show ?case
  proof (cases "n < 128")
    case True
    then show ?thesis by (subst enc_varint.simps) (simp add: unat_octet)
  next
    case False
    then have "n div 128 < n" by simp
    define k where "k = 128 + n mod 128"
    have "k < 256" "\<not> k < 128" "k - 128 + 128 * (n div 128) = n" by (simp_all add: k_def)
    moreover from this(1) have "unat (of_nat k :: octet) = k" by (rule unat_octet)
    moreover have "enc_varint n = of_nat k # enc_varint (n div 128)"
      using False unfolding k_def by (subst enc_varint.simps) simp
    ultimately show ?thesis using less.IH[OF \<open>n div 128 < n\<close>] by simp
  qed
qed

lemma enc_varint_nonempty [simp]: "enc_varint n \<noteq> []"
  by (subst enc_varint.simps) simp

section \<open>Tagged values\<close>

datatype wire = Varint nat | Fixed32 u32 | Delimited "octet list"

fun wire_type :: "wire \<Rightarrow> nat" where
  "wire_type (Varint _) = 0"
| "wire_type (Delimited _) = 2"
| "wire_type (Fixed32 _) = 5"

definition enc_fixed32 :: "u32 \<Rightarrow> octet list" where
  "enc_fixed32 w = (let n = unat w in
     [of_nat n, of_nat (n div 256), of_nat (n div 256 div 256), of_nat (n div 256 div 256 div 256)])"

definition dec_fixed32 :: "octet list \<Rightarrow> u32" where
  "dec_fixed32 bs = of_nat (unat (bs ! 0) + 256 * (unat (bs ! 1) + 256 * (unat (bs ! 2) + 256 * unat (bs ! 3))))"

fun enc_payload :: "wire \<Rightarrow> octet list" where
  "enc_payload (Varint n) = enc_varint n"
| "enc_payload (Fixed32 w) = enc_fixed32 w"
| "enc_payload (Delimited bs) = enc_varint (length bs) @ bs"

definition enc_wire :: "nat \<times> wire \<Rightarrow> octet list" where
  "enc_wire f = enc_varint (8 * fst f + wire_type (snd f)) @ enc_payload (snd f)"

definition dec_payload :: "nat \<Rightarrow> octet list \<Rightarrow> (wire \<times> octet list) option" where
  "dec_payload ty bs =
     (if ty = 0 then do { (n, rest) \<leftarrow> dec_varint bs; Some (Varint n, rest) }
      else if ty = 2 then do {
        (n, rest) \<leftarrow> dec_varint bs;
        if length rest < n then None else Some (Delimited (take n rest), drop n rest)
      }
      else if ty = 5 then if length bs < 4 then None else Some (Fixed32 (dec_fixed32 (take 4 bs)), drop 4 bs)
      else None)"

definition dec_wire :: "octet list \<Rightarrow> ((nat \<times> wire) \<times> octet list) option" where
  "dec_wire bs = do {
     (key, rest) \<leftarrow> dec_varint bs;
     (w, rest') \<leftarrow> dec_payload (key mod 8) rest;
     Some ((key div 8, w), rest')
   }"

lemma four_octets:
  assumes "n < 256 * (256 * (256 * 256))"
  shows "n mod 256 + 256 * (n div 256 mod 256 + 256 * (n div 256 div 256 mod 256 +
      256 * (n div 256 div 256 div 256 mod 256))) = (n :: nat)"
proof -
  have split: "k mod 256 + 256 * (k div 256) = k" for k :: nat by simp
  define a b c where "a = n div 256" and "b = a div 256" and "c = b div 256"
  have "c < 256" using assms by (simp add: a_def b_def c_def div_less_iff_less_mult)
  then show ?thesis unfolding a_def[symmetric] b_def[symmetric] c_def[symmetric]
    using split[of n] split[of a] split[of b] by (simp only: mod_less a_def[symmetric] b_def[symmetric] c_def[symmetric])
qed

lemma dec_enc_fixed32: "dec_fixed32 (enc_fixed32 w) = w"
proof -
  have octet: "unat (of_nat k :: octet) = k mod 256" for k by (simp add: unat_of_nat)
  have "unat w < 2 ^ LENGTH(32)" by (rule unsigned_less)
  then have "unat w < 256 * (256 * (256 * 256))" by simp
  from four_octets[OF this] show ?thesis
    by (simp only: dec_fixed32_def enc_fixed32_def Let_def nth_Cons_0 nth_Cons_Suc One_nat_def numeral_2_eq_2
        numeral_3_eq_3 octet) simp
qed

lemma enc_fixed32_length: "length (enc_fixed32 w) = 4"
  by (simp add: enc_fixed32_def Let_def)

lemma dec_enc_payload [simp]: "dec_payload (wire_type w) (enc_payload w @ rest) = Some (w, rest)"
  using dec_enc_fixed32 enc_fixed32_length by (cases w) (simp_all add: dec_payload_def)

lemma wire_type_less: "wire_type w < 8"
  by (cases w) simp_all

lemma dec_enc_wire [simp]: "dec_wire (enc_wire f @ rest) = Some (f, rest)"
  using wire_type_less[of "snd f"] by (cases f) (simp add: dec_wire_def enc_wire_def)

text \<open>All values of a message; \<open>fuel\<close> is at least their number, for which the number of bytes is enough.\<close>

fun dec_wires :: "nat \<Rightarrow> octet list \<Rightarrow> (nat \<times> wire) list option" where
  "dec_wires fuel [] = Some []"
| "dec_wires 0 (b # bs) = None"
| "dec_wires (Suc fuel) (b # bs) = do {
     (f, rest) \<leftarrow> dec_wire (b # bs);
     fs \<leftarrow> dec_wires fuel rest;
     Some (f # fs)
   }"

definition enc_wires :: "(nat \<times> wire) list \<Rightarrow> octet list" where
  "enc_wires fs = concat (map enc_wire fs)"

lemma enc_wire_Cons: obtains b bs where "enc_wire f = b # bs"
  by (cases "enc_wire f") (auto simp: enc_wire_def)

lemma dec_enc_wires: "length fs \<le> fuel \<Longrightarrow> dec_wires fuel (enc_wires fs) = Some fs"
proof (induction fs arbitrary: fuel)
  case (Cons f fs)
  obtain b bs where enc: "enc_wire f = b # bs" by (rule enc_wire_Cons)
  from Cons.prems obtain k where k: "fuel = Suc k" "length fs \<le> k" by (cases fuel) simp_all
  have "dec_wire (b # bs @ enc_wires fs) = Some (f, enc_wires fs)"
    using dec_enc_wire[of f "enc_wires fs"] enc by simp
  moreover have "enc_wires (f # fs) = b # bs @ enc_wires fs" using enc by (simp add: enc_wires_def)
  ultimately show ?case using Cons.IH[OF k(2)] k(1) by simp
qed (simp add: enc_wires_def)

lemma enc_wires_length: "length fs \<le> length (enc_wires fs)"
proof (induction fs)
  case (Cons f fs)
  moreover obtain b bs where "enc_wire f = b # bs" by (rule enc_wire_Cons)
  ultimately show ?case by (simp add: enc_wires_def)
qed (simp add: enc_wires_def)

section \<open>Signed integers\<close>

text \<open>An \<open>int32\<close> is extended to 64 bits, an \<open>sint32\<close> alternates between the signs.\<close>

definition int32_varint :: "u32 \<Rightarrow> nat" where
  "int32_varint w = nat (sint w mod 2 ^ 64)"

definition zigzag :: "u32 \<Rightarrow> nat" where
  "zigzag w = nat (if 0 \<le> sint w then 2 * sint w else - 2 * sint w - 1)"

definition unzigzag :: "nat \<Rightarrow> u32" where
  "unzigzag n = (if even n then of_nat (n div 2) else - of_nat (n div 2) - 1)"

lemma int32_varint_back [simp]: "of_nat (int32_varint w) = w"
proof -
  have "(of_nat (int32_varint w) :: u32) = word_of_int (sint w mod 2 ^ 64)"
    by (simp add: int32_varint_def)
  also have "\<dots> = word_of_int (sint w)"
    unfolding word_of_int_eq_iff by (simp add: take_bit_eq_mod mod_mod_cancel)
  finally show ?thesis by simp
qed

lemma unzigzag_zigzag [simp]: "unzigzag (zigzag w) = w"
proof (cases "0 \<le> sint w")
  case True
  then have "zigzag w = 2 * nat (sint w)" by (simp add: zigzag_def)
  with True show ?thesis by (simp add: unzigzag_def)
next
  case False
  then have "zigzag w = 2 * nat (- sint w - 1) + 1" by (simp add: zigzag_def)
  with False show ?thesis by (simp add: unzigzag_def)
qed

end
