(* ===== verification/Proto3.thy ===== *)
theory Proto3
  imports Descriptors Varint ChainWire WellFormed
begin

text \<open>
  The functions of the generated \<open>source/sdmessage.pb-c.c\<close> around the protobuf-c library, which is a
  parameter, and one concrete value of this parameter: the encoding of protocol buffers as it is
  documented, driven by the generated tables.  It shows what the development assumes of a codec to hold
  for every message of the program, not only for the two of a concrete run.
\<close>

section \<open>The generated functions\<close>

text \<open>What the library does with a message of a descriptor; \<open>None\<close> is undefined or a failure.\<close>

record protobuf_c =
  pbc_pack_data :: "pdata \<Rightarrow> octet list option"
  pbc_unpack_data :: "octet list \<Rightarrow> pdata option"
  pbc_pack :: "MessageT \<Rightarrow> octet list option"
  pbc_unpack :: "octet list \<Rightarrow> MessageT option"

text \<open>
  A message in memory begins with the pointer to its descriptor, which every function asserts.  The
  memory of a message is a value here, so freeing it leaves only the assertion.
\<close>

type_synonym 'm based = "pb_ref \<times> 'm"

definition data__init :: "pdata based" where
  "data__init = (Ref_data, data_init)"

definition data__get_packed_size :: "protobuf_c \<Rightarrow> pdata based \<Rightarrow> nat option" where
  "data__get_packed_size lib message =
     (if fst message = Ref_data then map_option length (pbc_pack_data lib (snd message)) else None)"

definition data__pack :: "protobuf_c \<Rightarrow> pdata based \<Rightarrow> octet list option" where
  "data__pack lib message = (if fst message = Ref_data then pbc_pack_data lib (snd message) else None)"

definition data__pack_to_buffer :: "protobuf_c \<Rightarrow> pdata based \<Rightarrow> octet list \<Rightarrow> octet list option" where
  "data__pack_to_buffer lib message buffer =
     (if fst message = Ref_data then map_option (\<lambda>bs. buffer @ bs) (pbc_pack_data lib (snd message)) else None)"

definition data__unpack :: "protobuf_c \<Rightarrow> octet list \<Rightarrow> pdata based option" where
  "data__unpack lib bs = map_option (Pair Ref_data) (pbc_unpack_data lib bs)"

definition data__free_unpacked :: "pdata based option \<Rightarrow> unit option" where
  "data__free_unpacked message =
     (case message of None \<Rightarrow> Some () | Some m \<Rightarrow> if fst m = Ref_data then Some () else None)"

definition message_t__init :: "MessageT based" where
  "message_t__init = (Ref_message_t, message_t_init)"

definition message_t__get_packed_size :: "protobuf_c \<Rightarrow> MessageT based \<Rightarrow> nat option" where
  "message_t__get_packed_size lib message =
     (if fst message = Ref_message_t then map_option length (pbc_pack lib (snd message)) else None)"

definition message_t__pack :: "protobuf_c \<Rightarrow> MessageT based \<Rightarrow> octet list option" where
  "message_t__pack lib message = (if fst message = Ref_message_t then pbc_pack lib (snd message) else None)"

definition message_t__pack_to_buffer :: "protobuf_c \<Rightarrow> MessageT based \<Rightarrow> octet list \<Rightarrow> octet list option" where
  "message_t__pack_to_buffer lib message buffer =
     (if fst message = Ref_message_t then map_option (\<lambda>bs. buffer @ bs) (pbc_pack lib (snd message)) else None)"

definition message_t__unpack :: "protobuf_c \<Rightarrow> octet list \<Rightarrow> MessageT based option" where
  "message_t__unpack lib bs = map_option (Pair Ref_message_t) (pbc_unpack lib bs)"

definition message_t__free_unpacked :: "MessageT based option \<Rightarrow> unit option" where
  "message_t__free_unpacked message =
     (case message of None \<Rightarrow> Some () | Some m \<Rightarrow> if fst m = Ref_message_t then Some () else None)"

text \<open>
  The codec of the transport: all messages of the program are initialised by \<open>message_t__init\<close> or come
  from \<open>message_t__unpack\<close>, so their descriptor is the right one.
\<close>

definition codec_of :: "protobuf_c \<Rightarrow> codec" where
  "codec_of lib = \<lparr>cd_pack = (\<lambda>msg. message_t__pack lib (fst message_t__init, msg)),
     cd_unpack = (\<lambda>bs. map_option snd (message_t__unpack lib bs))\<rparr>"

lemma codec_of_sel:
  "cd_pack (codec_of lib) = pbc_pack lib" "cd_unpack (codec_of lib) = pbc_unpack lib"
  by (auto simp: codec_of_def message_t__pack_def message_t__init_def message_t__unpack_def map_option.compositionality
      o_def option.map_ident)

section \<open>Packing by the tables\<close>

text \<open>The value of a member of a C structure.\<close>

datatype member = Scalar u32 | Text "string option" | Struct "pdata option"
  | Texts "string option option list" | Structs "pdata option option list"

definition octets :: "string \<Rightarrow> octet list" where
  "octets s = map (\<lambda>c. of_nat (of_char c)) s"

definition scalar_wire :: "pb_type \<Rightarrow> u32 \<Rightarrow> wire" where
  "scalar_wire ty w = (case ty of TYPE_FLOAT \<Rightarrow> Fixed32 w | TYPE_SINT32 \<Rightarrow> Varint (zigzag w) | _ \<Rightarrow> Varint (int32_varint w))"

text \<open>
  A scalar that is zero and an empty string are left out, a missing submessage too; a missing element
  of a repeated field, or a NULL string, cannot be packed.
\<close>

definition field_wires ::
  "(pdata \<Rightarrow> octet list option) \<Rightarrow> field_descriptor \<Rightarrow> member \<Rightarrow> (nat \<times> wire) list option" where
  "field_wires sub f v = (case v of
     Scalar w \<Rightarrow> Some (if w = 0 then [] else [(fd_id f, scalar_wire (fd_type f) w)])
   | Text None \<Rightarrow> None
   | Text (Some s) \<Rightarrow> Some (if s = [] then [] else [(fd_id f, Delimited (octets s))])
   | Struct None \<Rightarrow> Some []
   | Struct (Some d) \<Rightarrow> map_option (\<lambda>bs. [(fd_id f, Delimited bs)]) (sub d)
   | Texts ss \<Rightarrow> those (map (\<lambda>c. map_option (\<lambda>s. (fd_id f, Delimited (octets s))) (Option.bind c id)) ss)
   | Structs ds \<Rightarrow> those (map (\<lambda>c. map_option (\<lambda>bs. (fd_id f, Delimited bs)) (Option.bind (Option.bind c id) sub)) ds))"

fun fields_wires ::
  "(pdata \<Rightarrow> octet list option) \<Rightarrow> (string \<Rightarrow> member) \<Rightarrow> field_descriptor list \<Rightarrow> (nat \<times> wire) list option" where
  "fields_wires sub get [] = Some []"
| "fields_wires sub get (f # fs) = do {
     ws \<leftarrow> field_wires sub f (get (fd_offset f));
     rest \<leftarrow> fields_wires sub get fs;
     Some (ws @ rest)
   }"

definition data_member :: "pdata \<Rightarrow> string \<Rightarrow> member" where
  "data_member d name =
     (if name = ''ano'' then Scalar (p_ano d) else if name = ''preco'' then Scalar (p_preco d)
      else if name = ''marca'' then Scalar (p_marca d) else if name = ''modelo'' then Text (p_modelo d)
      else Scalar (p_combustivel d))"

definition message_member :: "MessageT \<Rightarrow> string \<Rightarrow> member" where
  "message_member msg name =
     (if name = ''opcode'' then Scalar (msg_opcode msg) else if name = ''c_type'' then Scalar (msg_c_type msg)
      else if name = ''data'' then Struct (msg_data msg) else if name = ''result'' then Scalar (msg_result msg)
      else if name = ''models'' then Texts (cells (msg_n_models msg) (msg_models msg))
      else Structs (cells (msg_n_cars msg) (msg_cars msg)))"

definition pack_data :: "pdata \<Rightarrow> octet list option" where
  "pack_data d = map_option enc_wires (fields_wires (\<lambda>_. None) (data_member d) data__field_descriptors)"

definition pack_message :: "MessageT \<Rightarrow> octet list option" where
  "pack_message msg = map_option enc_wires (fields_wires pack_data (message_member msg) message_t__field_descriptors)"

section \<open>Unpacking by the tables\<close>

datatype item = Word u32 | Str string | Sub pdata

definition read_item :: "(octet list \<Rightarrow> pdata option) \<Rightarrow> pb_type \<Rightarrow> wire \<Rightarrow> item option" where
  "read_item sub ty w = (case (ty, w) of
     (TYPE_INT32, Varint n) \<Rightarrow> Some (Word (of_nat n))
   | (TYPE_ENUM, Varint n) \<Rightarrow> Some (Word (of_nat n))
   | (TYPE_SINT32, Varint n) \<Rightarrow> Some (Word (unzigzag n))
   | (TYPE_FLOAT, Fixed32 x) \<Rightarrow> Some (Word x)
   | (TYPE_STRING, Delimited bs) \<Rightarrow> Some (Str (map (\<lambda>b. char_of (unat b)) bs))
   | (TYPE_MESSAGE, Delimited bs) \<Rightarrow> map_option Sub (sub bs)
   | _ \<Rightarrow> None)"

definition put_data :: "string \<Rightarrow> item \<Rightarrow> pdata \<Rightarrow> pdata option" where
  "put_data name v d = (case v of
     Word w \<Rightarrow> Some (if name = ''ano'' then d\<lparr>p_ano := w\<rparr> else if name = ''preco'' then d\<lparr>p_preco := w\<rparr>
       else if name = ''marca'' then d\<lparr>p_marca := w\<rparr> else d\<lparr>p_combustivel := w\<rparr>)
   | Str s \<Rightarrow> Some (d\<lparr>p_modelo := Some s\<rparr>)
   | Sub _ \<Rightarrow> None)"

text \<open>A new element of a repeated field goes behind those that are there.\<close>

definition append_item :: "'a \<Rightarrow> 'a arr option \<Rightarrow> 'a arr option" where
  "append_item x a = Some ((case a of None \<Rightarrow> [] | Some xs \<Rightarrow> xs) @ [Some x])"

definition put_message :: "string \<Rightarrow> item \<Rightarrow> MessageT \<Rightarrow> MessageT option" where
  "put_message name v msg = (case v of
     Word w \<Rightarrow> Some (if name = ''opcode'' then msg\<lparr>msg_opcode := w\<rparr> else if name = ''c_type'' then msg\<lparr>msg_c_type := w\<rparr>
       else msg\<lparr>msg_result := w\<rparr>)
   | Str s \<Rightarrow> Some (msg\<lparr>msg_n_models := Suc (msg_n_models msg), msg_models := append_item (Some s) (msg_models msg)\<rparr>)
   | Sub d \<Rightarrow> Some (if name = ''data'' then msg\<lparr>msg_data := Some d\<rparr>
       else msg\<lparr>msg_n_cars := Suc (msg_n_cars msg), msg_cars := append_item (Some d) (msg_cars msg)\<rparr>))"

fun put_wires ::
  "(octet list \<Rightarrow> pdata option) \<Rightarrow> (string \<Rightarrow> item \<Rightarrow> 'm \<Rightarrow> 'm option) \<Rightarrow> field_descriptor list \<Rightarrow>
     (nat \<times> wire) list \<Rightarrow> 'm \<Rightarrow> 'm option" where
  "put_wires sub put fs [] msg = Some msg"
| "put_wires sub put fs ((k, w) # ws) msg =
     (case find (\<lambda>f. fd_id f = k) fs of
        None \<Rightarrow> put_wires sub put fs ws msg
      | Some f \<Rightarrow> do {
          v \<leftarrow> read_item sub (fd_type f) w;
          msg1 \<leftarrow> put (fd_offset f) v msg;
          put_wires sub put fs ws msg1
        })"

definition unpack_data :: "octet list \<Rightarrow> pdata option" where
  "unpack_data bs = do {
     ws \<leftarrow> dec_wires (length bs) bs;
     put_wires (\<lambda>_. None) put_data data__field_descriptors ws data_init
   }"

definition unpack_message :: "octet list \<Rightarrow> MessageT option" where
  "unpack_message bs = do {
     ws \<leftarrow> dec_wires (length bs) bs;
     put_wires unpack_data put_message message_t__field_descriptors ws message_t_init
   }"

definition proto3 :: protobuf_c where
  "proto3 = \<lparr>pbc_pack_data = pack_data, pbc_unpack_data = unpack_data, pbc_pack = pack_message, pbc_unpack = unpack_message\<rparr>"

section \<open>The round trip\<close>

lemma put_wires_append:
  "put_wires sub put fs (ws @ vs) msg = Option.bind (put_wires sub put fs ws msg) (put_wires sub put fs vs)"
  by (induction sub put fs ws msg rule: put_wires.induct) (auto split: option.splits Option.bind_split)

lemma char_octet: "char_of (unat (of_nat (of_char c) :: octet)) = c"
proof -
  have "of_char c < (256 :: nat)" by simp
  then show ?thesis by (simp only: unat_octet) simp
qed

lemma octets_back [simp]: "map (\<lambda>b. char_of (unat b)) (octets s) = s"
  by (simp add: octets_def char_octet o_def)

lemma scalar_back [simp]:
  "read_item sub TYPE_INT32 (scalar_wire TYPE_INT32 w) = Some (Word w)"
  "read_item sub TYPE_ENUM (scalar_wire TYPE_ENUM w) = Some (Word w)"
  "read_item sub TYPE_SINT32 (scalar_wire TYPE_SINT32 w) = Some (Word w)"
  "read_item sub TYPE_FLOAT (scalar_wire TYPE_FLOAT w) = Some (Word w)"
  by (simp_all add: read_item_def scalar_wire_def)

lemma delimited_back [simp]:
  "read_item sub TYPE_STRING (Delimited (octets s)) = Some (Str s)"
  "read_item sub TYPE_MESSAGE (Delimited bs) = map_option Sub (sub bs)"
  by (simp_all add: read_item_def)

lemma data_round_trip:
  assumes "pdata_ok d"
  shows "\<exists>bs. pack_data d = Some bs \<and> unpack_data bs = Some d"
proof -
  obtain s where s: "p_modelo d = Some s" using assms by (auto simp: pdata_ok_def)
  obtain ws where ws: "fields_wires (\<lambda>_. None) (data_member d) data__field_descriptors = Some ws"
    using s by (simp add: data__field_descriptors_def field_wires_def data_member_def)
  have "put_wires (\<lambda>_. None) put_data data__field_descriptors ws data_init = Some d"
    using ws s by (auto simp: data__field_descriptors_def field_wires_def data_member_def put_wires_append put_data_def data_init_def)
  moreover have "dec_wires (length (enc_wires ws)) (enc_wires ws) = Some ws"
    using dec_enc_wires enc_wires_length by blast
  ultimately show ?thesis using ws by (auto simp: pack_data_def unpack_data_def)
qed

lemma cells_typed:
  "list_all (set_cell P) xs \<Longrightarrow> \<exists>ys. xs = map (Some \<circ> Some) ys \<and> list_all P ys"
proof (induction xs)
  case (Cons x xs)
  then obtain ys where "xs = map (Some \<circ> Some) ys" "list_all P ys"
    using Cons by (simp only: list.pred_inject) blast
  moreover obtain y where "x = Some (Some y)" "P y"
    using Cons.prems by (auto simp: set_cell_def split: option.splits)
  ultimately show ?case by (intro exI[of _ "y # ys"]) simp
qed simp

text \<open>The elements of a repeated field, one after the other.\<close>

definition more_all :: "'a list \<Rightarrow> 'a arr option \<Rightarrow> 'a arr option" where
  "more_all xs a = (if xs = [] then a else Some ((case a of None \<Rightarrow> [] | Some ys \<Rightarrow> ys) @ map Some xs))"

lemma more_all_simps: "more_all [] a = a" "more_all (x # xs) a = more_all xs (append_item x a)"
  by (simp_all add: more_all_def append_item_def)

lemma more_all_cells: "cells (length xs) (more_all xs None) = map Some xs"
  using cells_map_Some[of xs "[]"] by (simp add: more_all_def cells_def)

lemma message_fields:
  "find (\<lambda>f. fd_id f = 7) message_t__field_descriptors = Some (message_t__field_descriptors ! 4)"
  "fd_type (message_t__field_descriptors ! 4) = TYPE_STRING" "fd_offset (message_t__field_descriptors ! 4) = ''models''"
  "find (\<lambda>f. fd_id f = 8) message_t__field_descriptors = Some (message_t__field_descriptors ! 5)"
  "fd_type (message_t__field_descriptors ! 5) = TYPE_MESSAGE" "fd_offset (message_t__field_descriptors ! 5) = ''cars''"
  by (simp_all add: message_t__field_descriptors_def)

lemma put_texts:
  "put_wires unpack_data put_message message_t__field_descriptors (map (\<lambda>s. (7, Delimited (octets s))) ss) msg =
     Some (msg\<lparr>msg_n_models := msg_n_models msg + length ss, msg_models := more_all (map Some ss) (msg_models msg)\<rparr>)"
  by (induction ss arbitrary: msg)
    (simp_all add: more_all_simps message_fields put_message_def)

lemma put_structs:
  assumes "list_all2 (\<lambda>bs d. unpack_data bs = Some d) bss ds"
  shows "put_wires unpack_data put_message message_t__field_descriptors (map (\<lambda>bs. (8, Delimited bs)) bss) msg =
     Some (msg\<lparr>msg_n_cars := msg_n_cars msg + length ds, msg_cars := more_all (map Some ds) (msg_cars msg)\<rparr>)"
  using assms
proof (induction bss ds arbitrary: msg rule: list_all2_induct)
  case (Cons bs bss d ds)
  then show ?case
    by (simp add: more_all_simps message_fields put_message_def)
qed (simp add: more_all_simps)

text \<open>What a member contributes.\<close>

lemma field_wires_simps:
  "field_wires sub f (Scalar w) = Some (if w = 0 then [] else [(fd_id f, scalar_wire (fd_type f) w)])"
  "field_wires sub f (Struct None) = Some []"
  "field_wires sub f (Texts (map (Some \<circ> Some) ss)) = Some (map (\<lambda>s. (fd_id f, Delimited (octets s))) ss)"
proof -
  show "field_wires sub f (Texts (map (Some \<circ> Some) ss)) = Some (map (\<lambda>s. (fd_id f, Delimited (octets s))) ss)"
    by (induction ss) (simp_all add: field_wires_def)
qed (simp_all add: field_wires_def)

lemma field_wires_struct:
  "sub d = Some b \<Longrightarrow> field_wires sub f (Struct (Some d)) = Some [(fd_id f, Delimited b)]"
  by (simp add: field_wires_def)

lemma field_wires_structs:
  assumes "list_all2 (\<lambda>d bs. sub d = Some bs) ds bss"
  shows "field_wires sub f (Structs (map (Some \<circ> Some) ds)) = Some (map (\<lambda>bs. (fd_id f, Delimited bs)) bss)"
  using assms by (induction ds bss rule: list_all2_induct) (simp_all add: field_wires_def)

lemma structs_packed:
  assumes "list_all pdata_ok ds"
  obtains bss where "list_all2 (\<lambda>d bs. pack_data d = Some bs) ds bss" "list_all2 (\<lambda>bs d. unpack_data bs = Some d) bss ds"
proof -
  have "\<exists>bss. list_all2 (\<lambda>d bs. pack_data d = Some bs) ds bss \<and> list_all2 (\<lambda>bs d. unpack_data bs = Some d) bss ds"
    using assms
  proof (induction ds)
    case (Cons d ds)
    moreover obtain bs where "pack_data d = Some bs" "unpack_data bs = Some d"
      using data_round_trip[of d] Cons.prems by auto
    ultimately show ?case by (auto intro: exI[of _ "bs # _"])
  qed simp
  with that show ?thesis by blast
qed

lemma message_round_trip:
  assumes "message_typed msg"
  obtains bs ss ds where "pack_message msg = Some bs"
    "unpack_message bs = Some (msg\<lparr>msg_models := more_all (map Some ss) None, msg_cars := more_all (map Some ds) None\<rparr>)"
    "cells (msg_n_models msg) (msg_models msg) = map (Some \<circ> Some) ss"
    "cells (msg_n_cars msg) (msg_cars msg) = map (Some \<circ> Some) ds"
proof -
  obtain ss where ss: "cells (msg_n_models msg) (msg_models msg) = map (Some \<circ> Some) ss"
    using assms cells_typed[of "\<lambda>_. True"] by (auto simp: message_typed_def)
  obtain ds where ds: "cells (msg_n_cars msg) (msg_cars msg) = map (Some \<circ> Some) ds" "list_all pdata_ok ds"
    using assms cells_typed[of pdata_ok] by (auto simp: message_typed_def)
  have n: "length ss = msg_n_models msg" "length ds = msg_n_cars msg"
    using arg_cong[OF ss, of length] arg_cong[OF ds(1), of length] by simp_all
  obtain bss where bss: "list_all2 (\<lambda>d bs. pack_data d = Some bs) ds bss" "list_all2 (\<lambda>bs d. unpack_data bs = Some d) bss ds"
    by (rule structs_packed[OF ds(2)])
  obtain b where b: "\<And>d. msg_data msg = Some d \<Longrightarrow> pack_data d = Some b \<and> unpack_data b = Some d"
  proof (cases "msg_data msg")
    case (Some d)
    with assms have "pdata_ok d" by (simp add: message_typed_def)
    then obtain b where "pack_data d = Some b" "unpack_data b = Some d" using data_round_trip by blast
    with Some that[of b] show ?thesis by simp
  qed (use that in simp)
  let ?head = "(if msg_opcode msg = 0 then [] else [(1, scalar_wire TYPE_ENUM (msg_opcode msg))]) @
    (if msg_c_type msg = 0 then [] else [(2, scalar_wire TYPE_ENUM (msg_c_type msg))]) @
    (if msg_data msg = None then [] else [(3, Delimited b)]) @
    (if msg_result msg = 0 then [] else [(6, scalar_wire TYPE_SINT32 (msg_result msg))])"
  let ?ws = "?head @ map (\<lambda>s. (7, Delimited (octets s))) ss @ map (\<lambda>bs. (8, Delimited bs)) bss"
  have members: "message_member msg ''opcode'' = Scalar (msg_opcode msg)" "message_member msg ''c_type'' = Scalar (msg_c_type msg)"
    "message_member msg ''data'' = Struct (msg_data msg)" "message_member msg ''result'' = Scalar (msg_result msg)"
    "message_member msg ''models'' = Texts (map (Some \<circ> Some) ss)" "message_member msg ''cars'' = Structs (map (Some \<circ> Some) ds)"
    using ss ds(1) by (simp_all add: message_member_def)
  have "fields_wires pack_data (message_member msg) message_t__field_descriptors = Some ?ws"
    using b by (cases "msg_data msg")
      (simp_all add: message_t__field_descriptors_def members field_wires_simps field_wires_struct field_wires_structs[OF bss(1)])
  moreover have "put_wires unpack_data put_message message_t__field_descriptors ?head message_t_init =
      Some (message_t_init\<lparr>msg_opcode := msg_opcode msg, msg_c_type := msg_c_type msg, msg_data := msg_data msg, msg_result := msg_result msg\<rparr>)"
    using b by (auto simp: put_wires_append message_t__field_descriptors_def put_message_def message_t_init_def)
  then have "put_wires unpack_data put_message message_t__field_descriptors ?ws message_t_init =
      Some (msg\<lparr>msg_models := more_all (map Some ss) None, msg_cars := more_all (map Some ds) None\<rparr>)"
    using n unfolding put_wires_append by (simp add: put_wires_append put_texts put_structs[OF bss(2)] message_t_init_def)
  moreover have "dec_wires (length (enc_wires ?ws)) (enc_wires ?ws) = Some ?ws"
    using dec_enc_wires enc_wires_length by blast
  ultimately show ?thesis
    using that[of "enc_wires ?ws" ds ss] ss ds(1) by (simp add: pack_message_def unpack_message_def)
qed

section \<open>What unpacking gives\<close>

text \<open>A message as it comes out of \<open>message_t__unpack\<close>: the arrays hold exactly the announced elements.\<close>

definition tight :: "nat \<Rightarrow> 'a arr option \<Rightarrow> bool" where
  "tight n a \<longleftrightarrow> (case a of None \<Rightarrow> n = 0 | Some xs \<Rightarrow> length xs = n \<and> n \<noteq> 0)"

definition message_tight :: "MessageT \<Rightarrow> bool" where
  "message_tight msg \<longleftrightarrow> tight (msg_n_models msg) (msg_models msg) \<and> tight (msg_n_cars msg) (msg_cars msg)"

lemma tight_more_all:
  assumes "tight n a" "cells n a = map (Some \<circ> Some) ys"
  shows "more_all (map Some ys) None = a"
proof (cases a)
  case None
  with assms show ?thesis by (simp add: tight_def more_all_def cells_def)
next
  case (Some xs)
  with assms(1) have n: "length xs = n" "n \<noteq> 0" by (simp_all add: tight_def)
  have "cells n a = xs"
    using Some n(1) by (auto simp: cells_def arr_get_def intro!: nth_equalityI)
  with assms(2) have "xs = map (Some \<circ> Some) ys" by simp
  with Some n show ?thesis by (auto simp: more_all_def)
qed

lemma append_item_tight:
  assumes "tight n a"
  shows "tight (Suc n) (append_item x a)" "cells (Suc n) (append_item x a) = cells n a @ [Some x]"
proof -
  show "tight (Suc n) (append_item x a)"
    using assms by (cases a) (simp_all add: tight_def append_item_def)
  show "cells (Suc n) (append_item x a) = cells n a @ [Some x]"
    using assms by (cases a) (auto simp: tight_def append_item_def cells_def arr_get_def nth_append)
qed

definition unpacked_ok :: "MessageT \<Rightarrow> bool" where
  "unpacked_ok msg \<longleftrightarrow> message_typed msg \<and> message_tight msg"

lemma unpacked_init: "unpacked_ok message_t_init" "pdata_ok data_init"
  by (simp_all add: unpacked_ok_def message_tight_def message_typed_def message_t_init_def tight_def cells_def
      pdata_ok_def data_init_def)

lemma put_data_ok: "put_data name v d = Some d' \<Longrightarrow> pdata_ok d \<Longrightarrow> pdata_ok d'"
  by (cases v) (auto simp: put_data_def pdata_ok_def)

lemma put_message_ok:
  assumes "put_message name v msg = Some msg'" "unpacked_ok msg" "\<And>d. v = Sub d \<Longrightarrow> pdata_ok d"
  shows "unpacked_ok msg'"
proof (cases v)
  case (Word w)
  with assms(1,2) show ?thesis
    by (auto simp: put_message_def unpacked_ok_def message_typed_def message_tight_def)
next
  case (Str s)
  with assms(1,2) show ?thesis
    by (auto simp: put_message_def unpacked_ok_def message_typed_def message_tight_def append_item_tight set_cell_def)
next
  case (Sub d)
  with assms show ?thesis
    by (auto simp: put_message_def unpacked_ok_def message_typed_def message_tight_def append_item_tight set_cell_def)
qed

lemma read_item_sub: "read_item sub ty w = Some (Sub d) \<Longrightarrow> \<exists>bs. sub bs = Some d"
  by (auto simp: read_item_def split: pb_type.splits wire.splits)

lemma put_wires_ok:
  assumes "put_wires sub put fs ws msg = Some msg'" "P msg"
    and step: "\<And>name v m m'. put name v m = Some m' \<Longrightarrow> P m \<Longrightarrow> (\<And>d. v = Sub d \<Longrightarrow> pdata_ok d) \<Longrightarrow> P m'"
    and sub: "\<And>bs d. sub bs = Some d \<Longrightarrow> pdata_ok d"
  shows "P msg'"
  using assms(1,2)
proof (induction ws arbitrary: msg)
  case (Cons kw ws)
  obtain k w where kw: "kw = (k, w)" by (cases kw)
  show ?case
  proof (cases "find (\<lambda>f. fd_id f = k) fs")
    case None
    with Cons kw show ?thesis by simp
  next
    case (Some f)
    with Cons.prems(1) kw obtain v msg1 where v: "read_item sub (fd_type f) w = Some v"
      "put (fd_offset f) v msg = Some msg1" "put_wires sub put fs ws msg1 = Some msg'"
      by (auto simp: bind_eq_Some_conv)
    have "P msg1"
      using step[OF v(2) Cons.prems(2)] v(1) read_item_sub sub by blast
    from Cons.IH[OF v(3) this] show ?thesis .
  qed
qed simp

lemma unpack_data_ok: "unpack_data bs = Some d \<Longrightarrow> pdata_ok d"
  by (auto simp: unpack_data_def bind_eq_Some_conv intro: put_data_ok unpacked_init(2)
      elim!: put_wires_ok[where P = pdata_ok])

lemma unpack_message_ok: "unpack_message bs = Some msg \<Longrightarrow> unpacked_ok msg"
  by (auto simp: unpack_message_def bind_eq_Some_conv intro: put_message_ok unpacked_init(1) unpack_data_ok
      elim!: put_wires_ok[where P = unpacked_ok])

section \<open>The codec as an interface\<close>

text \<open>A message whose packed form fits a frame.\<close>

definition fits :: "codec \<Rightarrow> MessageT \<Rightarrow> bool" where
  "fits cd msg \<longleftrightarrow> (case cd_pack cd msg of None \<Rightarrow> False | Some bs \<Rightarrow> 0 < length bs \<and> length bs \<le> 0xFFFF)"

text \<open>
  What the transport needs of packing and unpacking: every typed message can be packed, and comes
  back with the same view, exactly if its arrays are tight; whatever is unpacked is typed.
\<close>

locale message_codec =
  fixes cd :: codec
  assumes packs_typed: "message_typed msg \<Longrightarrow>
      \<exists>bs msg'. cd_pack cd msg = Some bs \<and> cd_unpack cd bs = Some msg' \<and> view msg' = view msg \<and>
        (message_tight msg \<longrightarrow> msg' = msg)"
    and unpacks_typed: "cd_unpack cd bs = Some msg \<Longrightarrow> message_typed msg"
begin

lemma typed: "typed_codec cd"
  using unpacks_typed by (simp add: typed_codec_def)

lemma request_carried:
  assumes "message_typed req" "message_tight req" "fits cd req"
  obtains bq where "carries cd req bq"
  using packs_typed[OF assms(1)] assms(2,3) by (auto simp: carries_def packs_def fits_def)

lemma reply_sent:
  assumes "message_typed rep" "fits cd rep"
  obtains br where "packs cd rep br" "map_option view (cd_unpack cd br) = Some (view rep)"
  using packs_typed[OF assms(1)] assms(2) by (auto simp: packs_def fits_def)

text \<open>With such a codec the two ends of a connection carry any typed request and its reply.\<close>

lemma ends_carry:
  assumes "message_typed req" "message_tight req" "fits cd req" "message_typed rep" "fits cd rep"
  obtains bq br where "packs cd req bq" "packs cd rep br"
    "\<And>s p. incoming p (frame bq) [] \<Longrightarrow> has_room p (length (frame br)) \<Longrightarrow> incoming s (frame br) [] \<Longrightarrow>
       has_room s (length (frame bq)) \<Longrightarrow> carried cd req rep bq br s p"
proof -
  obtain bq where bq: "carries cd req bq" by (rule request_carried[OF assms(1-3)])
  obtain br where br: "packs cd rep br" "map_option view (cd_unpack cd br) = Some (view rep)"
    by (rule reply_sent[OF assms(4,5)])
  show ?thesis
    by (rule that[of bq br]) (use bq br in \<open>auto simp: carries_def carried_def\<close>)
qed

end

lemma proto3_round_trip:
  assumes "message_typed msg"
  shows "\<exists>bs msg'. pack_message msg = Some bs \<and> unpack_message bs = Some msg' \<and> view msg' = view msg \<and>
    (message_tight msg \<longrightarrow> msg' = msg)"
proof -
  obtain bs ss ds where pack: "pack_message msg = Some bs"
    "unpack_message bs = Some (msg\<lparr>msg_models := more_all (map Some ss) None, msg_cars := more_all (map Some ds) None\<rparr>)"
    and cells: "cells (msg_n_models msg) (msg_models msg) = map (Some \<circ> Some) ss"
    "cells (msg_n_cars msg) (msg_cars msg) = map (Some \<circ> Some) ds"
    by (rule message_round_trip[OF assms])
  have "length ss = msg_n_models msg" "length ds = msg_n_cars msg"
    using arg_cong[OF cells(1), of length] arg_cong[OF cells(2), of length] by simp_all
  then have "cells (msg_n_models msg) (more_all (map Some ss) None) = cells (msg_n_models msg) (msg_models msg)"
    "cells (msg_n_cars msg) (more_all (map Some ds) None) = cells (msg_n_cars msg) (msg_cars msg)"
    using more_all_cells[of "map Some ss"] more_all_cells[of "map Some ds"] cells by simp_all
  then have "view (msg\<lparr>msg_models := more_all (map Some ss) None, msg_cars := more_all (map Some ds) None\<rparr>) = view msg"
    by (simp add: view_def)
  moreover have "message_tight msg \<longrightarrow>
      msg\<lparr>msg_models := more_all (map Some ss) None, msg_cars := more_all (map Some ds) None\<rparr> = msg"
    using tight_more_all[OF _ cells(1)] tight_more_all[OF _ cells(2)] by (simp add: message_tight_def)
  ultimately show ?thesis using pack by blast
qed

interpretation proto3: message_codec "codec_of proto3"
proof
  show "\<exists>bs msg'. cd_pack (codec_of proto3) msg = Some bs \<and> cd_unpack (codec_of proto3) bs = Some msg' \<and>
      view msg' = view msg \<and> (message_tight msg \<longrightarrow> msg' = msg)" if "message_typed msg" for msg
    using proto3_round_trip[OF that] by (simp add: codec_of_sel proto3_def)
  show "message_typed msg" if "cd_unpack (codec_of proto3) bs = Some msg" for bs msg
    using unpack_message_ok[of bs msg] that by (simp add: codec_of_sel proto3_def unpacked_ok_def)
qed

section \<open>Properties\<close>



end
