(* ===== verification/DebugPrint.thy ===== *)
theory DebugPrint
  imports WellFormed ListClient ChainClient
begin

text \<open>
  The printers for debugging: those of \<open>source/client_stub.c\<close> for messages and the one of
  \<open>source/chain_client.c\<close> for a node of ZooKeeper.  The program does not call them; they are text
  functions here, \<open>None\<close> when they read outside an array or an uninitialised cell.
\<close>

section \<open>Messages\<close>

definition opcode_to_str :: "u32 \<Rightarrow> string" where
  "opcode_to_str op =
     (if op = OP_BAD then ''OP_BAD'' else if op = OP_SIZE then ''OP_SIZE'' else if op = OP_ADD then ''OP_ADD''
      else if op = OP_DEL then ''OP_DEL'' else if op = OP_GET then ''OP_GET''
      else if op = OP_GETMODELS then ''OP_GETMODELS''
      else if op = OP_GETLISTBYTEAR then ''OP_GETLISTBYTEAR'' else ''OP_UNKNOWN'')"

definition ctype_to_str :: "u32 \<Rightarrow> string" where
  "ctype_to_str ct =
     (if ct = CT_NONE then ''CT_NONE'' else if ct = CT_RESULT then ''CT_RESULT''
      else if ct = CT_MODEL then ''CT_MODEL'' else if ct = CT_MARCA then ''CT_MARCA''
      else if ct = CT_DATA then ''CT_DATA'' else if ct = CT_LIST then ''CT_LIST'' else ''CT_UNKNOWN'')"

text \<open>A NULL prefix is the empty string, a NULL string prints as \<open>(null)\<close>.\<close>

definition or_else :: "string \<Rightarrow> string option \<Rightarrow> string" where
  "or_else alt s = (case s of None \<Rightarrow> alt | Some s \<Rightarrow> s)"

definition quoted :: "string \<Rightarrow> string" where
  "quoted s = [char_of (34 :: nat)] @ s @ [char_of (34 :: nat)]"

definition data_pb_debug_print :: "pdata option \<Rightarrow> string option \<Rightarrow> string" where
  "data_pb_debug_print d pre =
     (case d of
        None \<Rightarrow> or_else [] pre @ '' Data: (null)'' @ nl
      | Some d \<Rightarrow>
          or_else [] pre @ '' Data { ano='' @ dec_int (sint (p_ano d)) @ '', preco='' @ float_2f (p_preco d) @
          '', marca='' @ dec_int (sint (p_marca d)) @ '', modelo='' @ quoted (or_else ''(null)'' (p_modelo d)) @
          '', combustivel='' @ dec_int (sint (p_combustivel d)) @ '' }'' @ nl)"

text \<open>The text of the first \<open>n\<close> cells of an array.\<close>

definition cells_text :: "('a \<Rightarrow> string) \<Rightarrow> nat \<Rightarrow> 'a arr \<Rightarrow> string option" where
  "cells_text line n a = map_option concat (those (map (\<lambda>i. map_option line (arr_get i a)) [0..<n]))"

definition array_text :: "string \<Rightarrow> ('a \<Rightarrow> string) \<Rightarrow> nat \<Rightarrow> 'a arr option \<Rightarrow> string option" where
  "array_text name line n a =
     (if n > 0 \<and> a \<noteq> None
      then map_option (\<lambda>s. ''  '' @ name @ '' (n='' @ dec_int (int n) @ ''):'' @ nl @ s) (Option.bind a (cells_text line n))
      else Some (''  '' @ name @ '': (none)'' @ nl))"

definition message_debug_print :: "MessageT option \<Rightarrow> string option \<Rightarrow> string option" where
  "message_debug_print msg tag =
     (let t = or_else ''MSG'' tag in case msg of
        None \<Rightarrow> Some (''['' @ t @ ''] MessageT: (null)'' @ nl)
      | Some msg \<Rightarrow> do {
          models \<leftarrow> array_text ''models'' (\<lambda>s. ''    - '' @ quoted (or_else ''(null)'' s) @ nl) (msg_n_models msg) (msg_models msg);
          cars \<leftarrow> array_text ''cars'' (\<lambda>d. data_pb_debug_print d (Some ''    '')) (msg_n_cars msg) (msg_cars msg);
          Some (''['' @ t @ ''] MessageT { opcode='' @ dec_int (sint (msg_opcode msg)) @ ''('' @ opcode_to_str (msg_opcode msg) @
            ''), c_type='' @ dec_int (sint (msg_c_type msg)) @ ''('' @ ctype_to_str (msg_c_type msg) @ '')'' @ nl @
            ''  result='' @ dec_int (sint (msg_result msg)) @ nl @ models @
            (if msg_data msg = None then ''  data: (null)'' @ nl else data_pb_debug_print (msg_data msg) (Some ''  '')) @
            cars @ ''}'' @ nl)
        })"

section \<open>A node of ZooKeeper\<close>

text \<open>
  \<open>rc\<close> is the error of \<open>zoo_get\<close> when it fails, \<open>stat\<close> what it stores otherwise: version, time of the last
  change and of the creation.  The path and the data overflow their buffers as in
  \<open>update_remote_list\<close>.
\<close>

definition get_node_data :: "zoo \<Rightarrow> int \<Rightarrow> int \<times> int \<times> int \<Rightarrow> string \<Rightarrow> string option" where
  "get_node_data zk rc stat path =
     (if 1024 \<le> length (''/chain/'' @ path) then None
      else case zk_get zk (''/chain/'' @ path) of
          None \<Rightarrow> Some (''Erro ao obter '' @ path @ '': '' @ dec_int rc @ nl)
        | Some data \<Rightarrow> do {
            data \<leftarrow> data;
            if 1048576 \<le> length data then None
            else let (version, mtime, ctime) = stat
              in Some (''Dados de '' @ path @ '':'' @ nl @
                ''  Conte'' @ utf8 [0xC3, 0xBA] @ ''do: '' @ takeWhile (\<lambda>c. of_char c \<noteq> (0 :: nat)) data @ nl @
                ''  Tamanho: '' @ dec_int (int (length data)) @ '' bytes'' @ nl @
                ''  Vers'' @ utf8 [0xC3, 0xA3] @ ''o: '' @ dec_int version @ nl @
                ''  mtime: '' @ dec_int mtime @ nl @ ''  ctime: '' @ dec_int ctime @ nl)
          })"

section \<open>Properties\<close>

lemma cells_text_defined:
  assumes "list_all (set_cell P) (cells n a)"
  shows "\<exists>t. array_text name line n a = Some t"
proof (cases a)
  case None
  then show ?thesis by (simp add: array_text_def)
next
  case (Some b)
  have "\<exists>x. arr_get i b = Some x" if "i < n" for i
    using assms that Some by (auto simp: cells_def list_all_iff set_cell_def split: option.splits)
  then have "\<exists>ys. those (map (\<lambda>i. map_option line (arr_get i b)) [0..<n]) = Some ys"
  proof (induction n)
    case (Suc n)
    then obtain ys x where "those (map (\<lambda>i. map_option line (arr_get i b)) [0..<n]) = Some ys" "arr_get n b = Some x"
      by fastforce
    moreover have "those (xs @ [Some y]) = map_option (\<lambda>ys. ys @ [y]) (those xs)" for xs and y :: string
      by (induction xs) (auto split: option.splits simp: option.map_comp o_def)
    ultimately show ?case by simp
  qed simp
  then show ?thesis using Some by (auto simp: array_text_def cells_text_def)
qed

text \<open>Printing a message that follows its type is defined; what the C code reads is there.\<close>

theorem debug_print_defined:
  assumes "message_typed msg"
  shows "\<exists>t. message_debug_print (Some msg) tag = Some t"
proof -
  have cells: "list_all (set_cell (\<lambda>_. True)) (cells (msg_n_models msg) (msg_models msg))"
    "list_all (set_cell pdata_ok) (cells (msg_n_cars msg) (msg_cars msg))"
    using assms by (simp_all add: message_typed_def)
  obtain models cars where
    "array_text ''models'' (\<lambda>s. ''    - '' @ quoted (or_else ''(null)'' s) @ nl) (msg_n_models msg) (msg_models msg) = Some models"
    "array_text ''cars'' (\<lambda>d. data_pb_debug_print d (Some ''    '')) (msg_n_cars msg) (msg_cars msg) = Some cars"
    using cells_text_defined[OF cells(1)] cells_text_defined[OF cells(2)] by blast
  then show ?thesis by (simp only: message_debug_print_def Let_def option.case Option.bind.simps) blast
qed

end
