(* ===== verification/ClientLoop.thy ===== *)
theory ClientLoop
  imports ClientRun
begin

text \<open>
  The loop of the client program: a session of typed commands that ends with \<open>quit\<close>, and what
  happens at the end of the input.
\<close>

section \<open>Sessions of typed lines\<close>

lemma cmd_shutdown:
  "cmd_size cd cs = Some cs' \<Longrightarrow> cs_shutdown cs' = cs_shutdown cs"
  "cmd_add cd rest cs = Some cs' \<Longrightarrow> cs_shutdown cs' = cs_shutdown cs"
  "cmd_remove cd rest cs = Some cs' \<Longrightarrow> cs_shutdown cs' = cs_shutdown cs"
  "cmd_get_by_marca cd rest cs = Some cs' \<Longrightarrow> cs_shutdown cs' = cs_shutdown cs"
  "cmd_get_by_year cd rest cs = Some cs' \<Longrightarrow> cs_shutdown cs' = cs_shutdown cs"
  "cmd_get_list_ordered cd cs = Some cs' \<Longrightarrow> cs_shutdown cs' = cs_shutdown cs"
  "cmd_get_model_list cd cs = Some cs' \<Longrightarrow> cs_shutdown cs' = cs_shutdown cs"
proof -
  show "cmd_size cd cs = Some cs' \<Longrightarrow> cs_shutdown cs' = cs_shutdown cs"
    by (auto simp: cmd_defs bind_eq_Some_conv)
  show "cmd_add cd rest cs = Some cs' \<Longrightarrow> cs_shutdown cs' = cs_shutdown cs"
    by (auto elim!: cmd_add_cases)
  show "cmd_remove cd rest cs = Some cs' \<Longrightarrow> cs_shutdown cs' = cs_shutdown cs"
    by (auto simp: cmd_defs bind_eq_Some_conv split: prod.splits if_splits)
  show "cmd_get_by_marca cd rest cs = Some cs' \<Longrightarrow> cs_shutdown cs' = cs_shutdown cs"
    by (fastforce simp: cmd_defs bind_eq_Some_conv dest: print_car_chain
        split: prod.splits if_splits option.splits)
  show "cmd_get_by_year cd rest cs = Some cs' \<Longrightarrow> cs_shutdown cs' = cs_shutdown cs"
    by (fastforce simp: cmd_defs bind_eq_Some_conv dest: print_destroy_chain
        split: prod.splits option.splits)
  show "cmd_get_list_ordered cd cs = Some cs' \<Longrightarrow> cs_shutdown cs' = cs_shutdown cs"
    by (auto simp: cmd_defs bind_eq_Some_conv)
  show "cmd_get_model_list cd cs = Some cs' \<Longrightarrow> cs_shutdown cs' = cs_shutdown cs"
    by (fastforce simp: cmd_defs bind_eq_Some_conv dest: print_models_same split: option.splits)
qed

lemma run_command_shutdown: "run_command cd input cs = Some cs' \<Longrightarrow> cs_shutdown cs' = cs_shutdown cs"
  by (cases "strtok input"; cases "fst (strtok input)")
    (auto simp: run_command_def cmd_help_def dest: cmd_shutdown split: if_splits)

text \<open>A line the user types and ends with a newline, and a session of such lines.\<close>

definition typed :: "string \<Rightarrow> input_turn" where
  "typed s = \<lparr>it_events = [], it_signal = False, it_line = Some (s @ nl)\<rparr>"

definition plain_line :: "string \<Rightarrow> bool" where
  "plain_line s \<longleftrightarrow> list_all (\<lambda>c. of_char c \<notin> {0, 10 :: nat}) s"

fun script :: "codec \<Rightarrow> string list \<Rightarrow> client \<Rightarrow> client option" where
  "script cd [] cs = Some cs"
| "script cd (l # ls) cs = Option.bind (run_command cd l (say ''Command: '' cs)) (script cd ls)"

lemma cut_typed: "plain_line s \<Longrightarrow> cut_line (s @ nl) = s"
  by (induction s) (auto simp: cut_line_def plain_line_def nl_def)

lemma input_step_typed:
  assumes "plain_line s" "\<not> cs_shutdown cs"
  shows "input_step cd (typed s) cs =
    (if s = ''quit'' then Some (False, say ''Command: '' cs)
     else map_option (Pair True) (run_command cd s (say ''Command: '' cs)))"
  using assms by (simp add: input_step_def typed_def cut_typed)

lemma loop_runs_script:
  assumes "\<forall>i < length ls. turns (n + i) = typed (ls ! i) \<and> plain_line (ls ! i) \<and> ls ! i \<noteq> ''quit''"
    and "turns (n + length ls) = typed ''quit''" "script cd ls cs = Some cs'" "\<not> cs_shutdown cs"
  shows "client_main_loop cd turns n cs = Some (say ''Command: '' cs') \<and> \<not> cs_shutdown cs'"
  using assms
proof (induction ls arbitrary: n cs)
  case Nil
  have "plain_line ''quit''" by (simp add: plain_line_def)
  with Nil show ?case by (subst client_main_loop.simps) (simp add: input_step_typed)
next
  case (Cons l ls)
  from Cons.prems(1) have first: "turns n = typed l" "plain_line l" "l \<noteq> ''quit''" by force+
  from Cons.prems(1) have rest: "\<forall>i < length ls. turns (Suc n + i) = typed (ls ! i) \<and> plain_line (ls ! i) \<and> ls ! i \<noteq> ''quit''"
    by force
  from Cons.prems(3) obtain cs1 where run: "run_command cd l (say ''Command: '' cs) = Some cs1" "script cd ls cs1 = Some cs'"
    by (auto simp: bind_eq_Some_conv)
  then have "\<not> cs_shutdown cs1" using run_command_shutdown[OF run(1)] Cons.prems(4) by simp
  with Cons.IH[OF rest _ run(2)] Cons.prems(2) first run(1) Cons.prems(4) show ?case
    by (subst client_main_loop.simps) (simp add: input_step_typed)
qed

lemma run_command_keeps:
  assumes "run_command cd input cs = Some cs'"
  shows "list_head (cs_chain cs') = list_head (cs_chain cs) \<and> list_tail (cs_chain cs') = list_tail (cs_chain cs) \<and>
    cc_zh (cs_chain cs') = cc_zh (cs_chain cs)"
  using assms by (cases "strtok input"; cases "fst (strtok input)")
    (auto simp: run_command_def cmd_help_def dest!: cmd_chain split: if_splits)

lemma script_keeps:
  "script cd ls cs = Some cs' \<Longrightarrow> list_head (cs_chain cs') = list_head (cs_chain cs) \<and>
     list_tail (cs_chain cs') = list_tail (cs_chain cs) \<and> cc_zh (cs_chain cs') = cc_zh (cs_chain cs)"
  by (induction ls arbitrary: cs) (fastforce simp: bind_eq_Some_conv dest: run_command_keeps)+

lemma zoo_init_client_ready:
  assumes "zoo_init_client cd os hps tps zk (Some host) cc0 m0 = Some (1, cc, m)"
  shows "list_head cc \<noteq> None \<and> list_tail cc \<noteq> None \<and> cc_zh cc = LiveHandle"
proof -
  have "cc_zh c2 = cc_zh c1" if "client_update cd os hps tps zk cs c1 m1 = Some (c2, m2)" for cs c1 c2 m1 m2
    using that by (auto simp: client_update_def bind_eq_Some_conv split: if_splits prod.splits)
  with assms show ?thesis
    by (fastforce simp: zoo_init_client_def bind_eq_Some_conv Let_def split: if_splits option.splits)
qed

section \<open>A concrete start\<close>

lemma read_all_chunk:
  assumes "k_in s = Recv bs # es" "bs \<noteq> []" "length buf = length bs" "n = int (length bs)"
  shows "read_all buf n s = Some (n, map Some bs, s\<lparr>k_in := es\<rparr>)"
proof -
  have "sys_read (length bs) s = Some (n, bs, s\<lparr>k_in := es\<rparr>)" using assms(1,4) by (simp add: sys_read_def)
  moreover have "arr_blit 0 bs buf = Some (map Some bs)" using assms(3) by (simp add: arr_blit_def)
  moreover have "read_loop (length bs) n a t = Some (n, a, t)" for a t
    using assms(4) by (subst read_loop.simps) simp
  ultimately show ?thesis
    using assms(2,4) unfolding read_all_def by (subst read_loop.simps) simp
qed

text \<open>A server that accepts, and a ZooKeeper that knows it as the only one.\<close>

definition ready_conn :: conn where
  "ready_conn = (chunk_conn [])\<lparr>k_in := [Recv [0, 2], Recv [101, 70]]\<rparr>"

definition ready_dialer :: dialer where
  "ready_dialer = \<lparr>dial_socket = 3, dial_pton = (\<lambda>_. 1), dial_connect = (\<lambda>_ _. 0)\<rparr>"

lemma ready_frame:
  "receive_frame demo_codec (ready_conn\<lparr>k_open := True\<rparr>) (demo_mem\<lparr>m_brk := n\<rparr>) =
     Some (Unpacked (Some (message_t_init\<lparr>msg_opcode := 101, msg_c_type := 70\<rparr>)), ready_conn\<lparr>k_in := [], k_open := True\<rparr>, demo_mem\<lparr>m_brk := Suc n\<rparr>)"
proof -
  have len: "ntohs_bytes [0, 2] = 2" "replicate 2 None = [None, None]"
    by (simp add: ntohs_bytes_def, simp add: numeral_2_eq_2)
  have "read_all [None, None] 2 (ready_conn\<lparr>k_open := True\<rparr>) =
      Some (2, map Some [0, 2], ready_conn\<lparr>k_in := [Recv [101, 70]], k_open := True\<rparr>)"
    "read_all [None, None] 2 (ready_conn\<lparr>k_in := [Recv [101, 70]], k_open := True\<rparr>) =
      Some (2, map Some [101, 70], ready_conn\<lparr>k_in := [], k_open := True\<rparr>)"
    using read_all_chunk[of "ready_conn\<lparr>k_open := True\<rparr>" "[0, 2]" "[Recv [101, 70]]" "[None, None]" 2]
      read_all_chunk[of "ready_conn\<lparr>k_in := [Recv [101, 70]], k_open := True\<rparr>" "[101, 70]" "[]" "[None, None]" 2]
    by (simp_all add: ready_conn_def)
  then show ?thesis
    by (simp add: receive_frame_def Let_def len malloc_block_def arr_all_def)
qed


lemma ready_connect:
  "rlist_connect demo_codec ready_dialer (Some ''10.0.0.1:5000'') ready_conn (demo_mem\<lparr>m_brk := n\<rparr>) =
  Some (Some \<lparr>server_address = ''10.0.0.1'', server_port = 5000, sockfd = 3\<rparr>, ready_conn\<lparr>k_in := [], k_open := True\<rparr>, demo_mem\<lparr>m_brk := n + 4\<rparr>)"
proof -
  have "atoi ''5000'' = 5000" by code_simp
  then show ?thesis
    by (simp add: rlist_connect_def malloc_block_def network_connect_def ready_dialer_def ready_frame Let_def)
qed

definition one_zoo :: zoo where
  "one_zoo = \<lparr>zk_connects = True, zk_root_exists = True, zk_root_created = True, zk_register = (\<lambda>_. None),
     zk_children = Some [''node-0000000001''], zk_get = (\<lambda>_. Some (Some ''10.0.0.1:5000''))\<rparr>"

definition demo_session :: client_chain where
  "demo_session = \<lparr>cc_zh = LiveHandle, list_head = Some \<lparr>server_address = ''10.0.0.1'', server_port = 5000, sockfd = 3\<rparr>,
     head_conn = ready_conn\<lparr>k_in := [], k_open := True\<rparr>,
     list_tail = Some \<lparr>server_address = ''10.0.0.1'', server_port = 5000, sockfd = 3\<rparr>,
     tail_conn = ready_conn\<lparr>k_in := [], k_open := True\<rparr>\<rparr>"

lemma demo_session_init:
  "zoo_init_client demo_codec ready_dialer (\<lambda>_. ready_conn) (\<lambda>_. ready_conn) one_zoo (Some ''zk:2181'')
     (cs_chain lone_client) demo_mem = Some (1, demo_session, demo_mem\<lparr>m_brk := 8\<rparr>)"
proof -
  have "node_number ''node-0000000001'' = Some 1" by code_simp
  then have scan: "ends_scan 0 [''node-0000000001''] ((INT_MAX, 0), (INT_MIN, 0)) = ((1, 0), (1, 0))" by simp
  have line: "first_line ''10.0.0.1:5000'' = ''10.0.0.1:5000''" by (simp add: first_line_def)
  have upd: "update_remote_list demo_codec ready_dialer (\<lambda>_. ready_conn) one_zoo ''node-0000000001'' end0 (demo_mem\<lparr>m_brk := n\<rparr>) =
      Some ((Some \<lparr>server_address = ''10.0.0.1'', server_port = 5000, sockfd = 3\<rparr>, ready_conn\<lparr>k_in := [], k_open := True\<rparr>),
        demo_mem\<lparr>m_brk := n + 4\<rparr>)" for end0 n
    by (simp add: update_remote_list_def one_zoo_def line ready_connect)
  have "update_remote_list demo_codec ready_dialer (\<lambda>_. ready_conn) one_zoo ''node-0000000001'' end0 demo_mem =
      Some ((Some \<lparr>server_address = ''10.0.0.1'', server_port = 5000, sockfd = 3\<rparr>, ready_conn\<lparr>k_in := [], k_open := True\<rparr>),
        demo_mem\<lparr>m_brk := 4\<rparr>)" for end0
    using upd[of end0 0] by (simp add: demo_mem_def empty_mem_def)
  moreover have "k_errno ready_conn = 0" by (simp add: ready_conn_def chunk_conn_def)
  ultimately show ?thesis using scan upd
    by (simp add: zoo_init_client_def one_zoo_def client_update_def demo_session_def lone_client_def del: ends_scan.simps)
qed

section \<open>Properties\<close>

text \<open>C28: A client that has reached both ends of the chain runs the commands typed one after the other up
  to \<open>quit\<close>; then it closes both connections and the session with ZooKeeper and exits with
  status 0.\<close>

theorem client_session:
  assumes "zoo_init_client cd os hps tps zk (Some host) (cs_chain cs) (cs_mem cs) = Some (1, cc, m)"
    and "\<forall>i < length ls. turns i = typed (ls ! i) \<and> plain_line (ls ! i) \<and> ls ! i \<noteq> ''quit''"
    and "turns (length ls) = typed ''quit''" "\<not> cs_shutdown cs"
    and "script cd ls (cmd_help (cs\<lparr>cs_chain := cc, cs_mem := m\<rparr>)) = Some cs1"
  shows "\<exists>cs2. client_main cd os hps tps zk True [prog, host] turns cs = Some (0, cs2) \<and>
    \<not> k_open (head_conn (cs_chain cs2)) \<and> \<not> k_open (tail_conn (cs_chain cs2)) \<and>
    cc_zh (cs_chain cs2) = ClosedHandle \<and> cs_mem cs2 = cs_mem cs1"
proof -
  have ends: "list_head (cs_chain cs1) \<noteq> None" "list_tail (cs_chain cs1) \<noteq> None" "cc_zh (cs_chain cs1) = LiveHandle"
    using script_keeps[OF assms(5)] zoo_init_client_ready[OF assms(1)] by (simp_all add: cmd_help_def)
  have "\<not> cs_shutdown (cmd_help (cs\<lparr>cs_chain := cc, cs_mem := m\<rparr>))" using assms(4) by (simp add: cmd_help_def)
  with loop_runs_script[of ls turns 0, OF _ _ assms(5)] assms(2,3) have
    "client_main_loop cd turns 0 (cmd_help (cs\<lparr>cs_chain := cc, cs_mem := m\<rparr>)) = Some (say ''Command: '' cs1)"
    by simp
  moreover obtain hs where "snd (sys_close (head_conn (cs_chain cs1))) = hs" "\<not> k_open hs"
    by (simp add: sys_close_def)
  moreover obtain ts where "snd (sys_close (tail_conn (cs_chain cs1))) = ts" "\<not> k_open ts"
    by (simp add: sys_close_def)
  ultimately show ?thesis
    using assms(1) ends by (auto simp: client_main_def client_stop_def rlist_disconnect_def zoo_clean_client_def Let_def
        split: prod.splits)
qed

theorem client_session_witness:
  "\<exists>cs2. client_main demo_codec ready_dialer (\<lambda>_. ready_conn) (\<lambda>_. ready_conn) one_zoo True [''list_client'', ''zk:2181'']
      (\<lambda>k. typed ([''help'', ''quit''] ! k)) lone_client = Some (0, cs2) \<and>
    \<not> k_open (head_conn (cs_chain cs2)) \<and> \<not> k_open (tail_conn (cs_chain cs2)) \<and> cc_zh (cs_chain cs2) = ClosedHandle"
proof -
  have "strtok ''help'' = (Some ''help'', [])" by code_simp
  then have run: "run_command demo_codec ''help'' cs = Some (cmd_help cs)" for cs by (simp add: run_command_def)
  show ?thesis
    using client_session[of demo_codec ready_dialer "\<lambda>_. ready_conn" "\<lambda>_. ready_conn" one_zoo "''zk:2181''" lone_client
        demo_session _ "[''help'']" "\<lambda>k. typed ([''help'', ''quit''] ! k)", OF demo_session_init[folded demo_client_sel(9)]] run
    by (simp add: plain_line_def lone_client_def) blast
qed

lemma loop_spins:
  "client_main_loop cd turns n cs = Some cs' \<Longrightarrow>
     \<forall>k \<ge> n. turns k = \<lparr>it_events = [], it_signal = False, it_line = None\<rparr> \<Longrightarrow> \<not> cs_shutdown cs \<Longrightarrow> False"
proof (induction rule: client_main_loop.raw_induct[rotated, consumes 1, case_names step])
  case (step self cd turns n cs cs')
  then have "input_step cd (turns n) cs = Some (True, say ''Command: '' cs)" by (simp add: input_step_def)
  with step(2) have "self cd turns (Suc n) (say ''Command: '' cs) = Some cs'" by simp
  from step(1)[OF this] step(3,4) show False by simp
qed

text \<open>C29: at the end of its input the client does not stop: without a signal it prints the prompt again and
  again and never returns.\<close>

theorem client_spins_at_end:
  assumes "\<forall>k \<ge> n. turns k = \<lparr>it_events = [], it_signal = False, it_line = None\<rparr>" "\<not> cs_shutdown cs"
  shows "client_main_loop cd turns n cs = None \<and>
    (\<forall>k. input_step cd (turns (n + k)) (say (concat (replicate k ''Command: '')) cs) =
       Some (True, say (concat (replicate (Suc k) ''Command: '')) cs))"
proof -
  have step: "input_step cd (turns k) cs = Some (True, say ''Command: '' cs)" if "n \<le> k" "\<not> cs_shutdown cs" for k cs
    using assms(1) that by (simp add: input_step_def)
  have "concat (replicate k ''Command: '') @ ''Command: '' = concat (replicate (Suc k) ''Command: '')" for k
    by (induction k) simp_all
  with step[of "n + k" "say (concat (replicate k ''Command: '')) cs" for k] assms(2)
  have "input_step cd (turns (n + k)) (say (concat (replicate k ''Command: '')) cs) =
      Some (True, say (concat (replicate (Suc k) ''Command: '')) cs)" for k
    by (simp add: say_say del: replicate.simps)
  moreover have "client_main_loop cd turns n cs = None"
    using loop_spins[OF _ assms] by (cases "client_main_loop cd turns n cs") auto
  ultimately show ?thesis by blast
qed

theorem client_spins_at_end_witness:
  "client_main_loop demo_codec (\<lambda>_. \<lparr>it_events = [], it_signal = False, it_line = None\<rparr>) 0 lone_client = None"
  using client_spins_at_end[of 0 "\<lambda>_. \<lparr>it_events = [], it_signal = False, it_line = None\<rparr>" lone_client demo_codec]
  by (simp add: lone_client_def)

end
