(* ===== verification/Slots.thy ===== *)
theory Slots
  imports NetServer "HOL-Library.Multiset"
begin

text \<open>
  The bookkeeping of clients in \<open>source/network_server.c\<close> under every interleaving of the thread
  that accepts and the threads of the clients: \<open>num_clients\<close> is checked when a connection is
  accepted, but changed by the thread that starts later.  And \<open>network_server_close\<close>, which
  waits for the client threads while it holds the mutex they need to end.
\<close>

section \<open>The interleavings\<close>

text \<open>
  A thread is its id, its socket, and whether it has run its first critical section.  \<open>Accept\<close> is
  the check of \<open>network_main_loop\<close> and the creation of the thread, \<open>Start\<close> and
  \<open>Finish\<close> are the first and the last critical section of \<open>client_thread\<close>.
\<close>

datatype slot_event = Accept int int | Start int | Finish int

record slot_state =
  sl_clients :: clients
  sl_threads :: "(int \<times> int \<times> bool) list"

definition slot_init :: slot_state where
  "slot_init = \<lparr>sl_clients = no_clients, sl_threads = []\<rparr>"

text \<open>The socket of the thread \<open>t\<close> in the given phase, and the other threads.\<close>

fun take_thread :: "int \<Rightarrow> bool \<Rightarrow> (int \<times> int \<times> bool) list \<Rightarrow> (int \<times> (int \<times> int \<times> bool) list) option" where
  "take_thread t phase [] = None"
| "take_thread t phase ((t', sock, started) # xs) =
     (if t' = t \<and> started = phase then Some (sock, xs)
      else map_option (\<lambda>(s, ys). (s, (t', sock, started) # ys)) (take_thread t phase xs))"

fun slot_exec :: "slot_event \<Rightarrow> slot_state \<Rightarrow> slot_state option" where
  "slot_exec (Accept t sock) s =
     (if num_clients (sl_clients s) < int NUM_MAX_CLIENTS \<and> 0 \<le> sock \<and>
         list_all (\<lambda>(t', sock', _). t' \<noteq> t \<and> sock' \<noteq> sock) (sl_threads s)
      then Some (s\<lparr>sl_threads := (t, sock, False) # sl_threads s\<rparr>) else None)"
| "slot_exec (Start t) s = do {
     (sock, others) \<leftarrow> take_thread t False (sl_threads s);
     Some \<lparr>sl_clients = claim_slot sock t (sl_clients s), sl_threads = (t, sock, True) # others\<rparr>
   }"
| "slot_exec (Finish t) s = do {
     (sock, others) \<leftarrow> take_thread t True (sl_threads s);
     Some \<lparr>sl_clients = release_slot sock t (sl_clients s), sl_threads = others\<rparr>
   }"

fun slot_run :: "slot_event list \<Rightarrow> slot_state \<Rightarrow> slot_state option" where
  "slot_run [] s = Some s"
| "slot_run (e # es) s = do { s' \<leftarrow> slot_exec e s; slot_run es s' }"

text \<open>Runs in which no connection is accepted while another thread has not started yet.\<close>

definition starting :: "slot_state \<Rightarrow> (int \<times> int \<times> bool) list" where
  "starting s = filter (\<lambda>(_, _, started). \<not> started) (sl_threads s)"

fun patient :: "slot_event list \<Rightarrow> slot_state \<Rightarrow> bool" where
  "patient [] s = True"
| "patient (e # es) s =
     ((case e of Accept _ _ \<Rightarrow> starting s = [] | _ \<Rightarrow> True) \<and>
      (case slot_exec e s of None \<Rightarrow> True | Some s' \<Rightarrow> patient es s'))"

section \<open>Claiming and releasing\<close>

definition used_pairs :: "cl list \<Rightarrow> (int \<times> int) list" where
  "used_pairs cs = map (\<lambda>c. (client_socket c, tid c)) (filter (\<lambda>c. client_socket c \<noteq> -1) cs)"

lemma claim_first_Some:
  "claim_first sock t cs = Some cs' \<Longrightarrow> sock \<noteq> -1 \<Longrightarrow>
     mset (used_pairs cs') = add_mset (sock, t) (mset (used_pairs cs)) \<and> length cs' = length cs"
  by (induction cs arbitrary: cs') (auto simp: used_pairs_def split: if_splits)

lemma claim_first_None: "claim_first sock t cs = None \<Longrightarrow> length (used_pairs cs) = length cs"
  by (induction cs) (auto simp: used_pairs_def split: if_splits)

lemma release_pairs:
  "sock \<noteq> -1 \<Longrightarrow> used_pairs (client_list (release_slot sock t k)) =
     filter (\<lambda>p. p \<noteq> (sock, t)) (used_pairs (client_list k))"
proof -
  have "used_pairs (map (\<lambda>c. if client_socket c = sock \<and> tid c = t then c\<lparr>client_socket := -1\<rparr> else c) cs) =
      filter (\<lambda>p. p \<noteq> (sock, t)) (used_pairs cs)" if "sock \<noteq> -1" for cs
    using that by (induction cs) (auto simp: used_pairs_def)
  then show "sock \<noteq> -1 \<Longrightarrow> ?thesis" by (simp add: release_slot_def)
qed

text \<open>The socket and id of every thread that has started.\<close>

definition started_pairs :: "slot_state \<Rightarrow> (int \<times> int) list" where
  "started_pairs s = map (\<lambda>(t, sock, _). (sock, t)) (filter (\<lambda>(_, _, started). started) (sl_threads s))"

definition threads_ok :: "slot_state \<Rightarrow> bool" where
  "threads_ok s \<longleftrightarrow> distinct (map fst (sl_threads s)) \<and> (\<forall>(t, sock, _) \<in> set (sl_threads s). 0 \<le> sock)"

definition slots_exact :: "slot_state \<Rightarrow> bool" where
  "slots_exact s \<longleftrightarrow> threads_ok s \<and> length (client_list (sl_clients s)) = 6 \<and>
     num_clients (sl_clients s) = int (length (started_pairs s)) \<and>
     mset (used_pairs (client_list (sl_clients s))) = mset (started_pairs s) \<and>
     length (started_pairs s) + length (starting s) \<le> 6 \<and> length (starting s) \<le> 1"

lemma take_thread_split:
  "take_thread t phase xs = Some (sock, others) \<Longrightarrow>
     \<exists>ys zs. xs = ys @ (t, sock, phase) # zs \<and> others = ys @ zs"
proof (induction t phase xs arbitrary: others rule: take_thread.induct)
  case (2 t phase t' sock' started xs)
  show ?case
  proof (cases "t' = t \<and> started = phase")
    case True
    with 2 show ?thesis by (auto intro: exI[of _ "[]"])
  next
    case False
    with "2.prems" obtain os where "take_thread t phase xs = Some (sock, os)" "others = (t', sock', started) # os"
      by auto
    with "2.IH"[OF False this(1)] show ?thesis by (metis append_Cons)
  qed
qed simp

lemma accept_exact:
  assumes "slots_exact s" "starting s = []" "slot_exec (Accept t sock) s = Some s'"
  shows "slots_exact s'"
proof -
  have "t \<notin> fst ` set (sl_threads s)" using assms(3) by (force simp: list_all_iff split: if_splits)
  with assms show ?thesis
    by (auto simp: slots_exact_def threads_ok_def starting_def started_pairs_def split: if_splits)
qed

lemma used_length:
  "slots_exact s \<Longrightarrow> length (used_pairs (client_list (sl_clients s))) = length (started_pairs s)"
  by (metis size_mset slots_exact_def)

lemma start_exact:
  assumes "slots_exact s" "slot_exec (Start t) s = Some s'"
  shows "slots_exact s'"
proof -
  let ?k = "sl_clients s"
  from assms(2) obtain sock others where take: "take_thread t False (sl_threads s) = Some (sock, others)"
    by (auto simp: bind_eq_Some_conv)
  from take_thread_split[OF take] obtain ys zs where split: "sl_threads s = ys @ (t, sock, False) # zs"
    "others = ys @ zs" by blast
  have sock: "sock \<noteq> -1" using assms(1) split by (auto simp: slots_exact_def threads_ok_def)
  have "length (used_pairs (client_list ?k)) < 6"
    using assms(1) split by (simp add: used_length) (simp add: slots_exact_def starting_def)
  then obtain cs where claim: "claim_first sock t (client_list ?k) = Some cs"
    using claim_first_None[of sock t "client_list ?k"] assms(1) by (force simp: slots_exact_def)
  note cs = claim_first_Some[OF claim sock]
  have s': "s' = \<lparr>sl_clients = ?k\<lparr>client_list := cs, num_clients := num_clients ?k + 1\<rparr>,
      sl_threads = (t, sock, True) # ys @ zs\<rparr>"
    using assms(2) take claim split by (simp add: claim_slot_def)
  show ?thesis
    using assms(1) split cs
    by (auto simp: s' slots_exact_def threads_ok_def starting_def started_pairs_def)
qed

lemma finish_exact:
  assumes "slots_exact s" "slot_exec (Finish t) s = Some s'"
  shows "slots_exact s'"
proof -
  let ?k = "sl_clients s"
  from assms(2) obtain sock others where take: "take_thread t True (sl_threads s) = Some (sock, others)"
    by (auto simp: bind_eq_Some_conv)
  from take_thread_split[OF take] obtain ys zs where split: "sl_threads s = ys @ (t, sock, True) # zs"
    "others = ys @ zs" by blast
  have "0 \<le> sock" using assms(1) split by (auto simp: slots_exact_def threads_ok_def)
  then have sock: "sock \<noteq> -1" by simp
  define s1 where "s1 = \<lparr>sl_clients = release_slot sock t ?k, sl_threads = ys @ zs\<rparr>"
  have "s' = s1" using assms(2) take split by (simp add: s1_def)
  have started: "mset (started_pairs s) = add_mset (sock, t) (mset (started_pairs s1))"
    by (simp add: started_pairs_def s1_def split(1))
  have "t \<notin> fst ` set (ys @ zs)"
    using assms(1) split by (auto simp: slots_exact_def threads_ok_def)
  then have "(sock, t) \<notin> set (started_pairs s1)" by (force simp: started_pairs_def s1_def)
  then have "filter_mset (\<lambda>p. p \<noteq> (sock, t)) (mset (started_pairs s1)) = mset (started_pairs s1)"
    by (metis (mono_tags, lifting) filter_True mset_filter)
  then have pairs: "mset (used_pairs (client_list (sl_clients s1))) = mset (started_pairs s1)"
    using assms(1) started by (simp add: s1_def release_pairs[OF sock] slots_exact_def)
  have "length (started_pairs s) = Suc (length (started_pairs s1))"
    using started by (metis size_add_mset size_mset)
  moreover have "starting s1 = starting s" by (simp add: starting_def s1_def split(1))
  moreover have "threads_ok s1" using assms(1) split by (auto simp: slots_exact_def threads_ok_def s1_def)
  moreover have "num_clients (sl_clients s1) = num_clients ?k - 1"
    "length (client_list (sl_clients s1)) = length (client_list ?k)"
    by (simp_all add: s1_def release_slot_def)
  ultimately show ?thesis
    using assms(1) pairs unfolding \<open>s' = s1\<close> slots_exact_def by simp
qed

lemma run_exact:
  "slots_exact s \<Longrightarrow> patient es s \<Longrightarrow> slot_run es s = Some s' \<Longrightarrow> slots_exact s'"
proof (induction es arbitrary: s)
  case (Cons e es)
  from Cons.prems(3) obtain s1 where s1: "slot_exec e s = Some s1" "slot_run es s1 = Some s'"
    by (auto simp: bind_eq_Some_conv)
  have "slots_exact s1"
  proof (cases e)
    case (Accept t sock)
    from Cons.prems(2) have "starting s = []"
      unfolding Accept patient.simps slot_event.case by blast
    then show ?thesis by (rule accept_exact[OF Cons.prems(1) _ s1(1)[unfolded Accept]])
  next
    case (Start t)
    show ?thesis by (rule start_exact[OF Cons.prems(1) s1(1)[unfolded Start]])
  next
    case (Finish t)
    show ?thesis by (rule finish_exact[OF Cons.prems(1) s1(1)[unfolded Finish]])
  qed
  moreover have "patient es s1" using Cons.prems(2) s1(1) by simp
  ultimately show ?case using Cons.IH s1(2) by blast
qed simp

section \<open>Closing the server\<close>

text \<open>
  \<open>network_server_close\<close> and the last critical section of the client threads.  The main thread is
  about to lock \<open>lock_num_clients\<close>, looks at slot \<open>x\<close>, waits in \<open>pthread_join\<close> for the thread
  of slot \<open>x\<close>, or is done; a client thread is in its loop, waits for the mutex, holds it, or has
  ended.  The mutex has an owner: \<open>None\<close>, the main thread (-1), or a client thread.
  \<open>network_main_loop\<close> detaches every thread it starts; \<open>pthread_join\<close> of a detached thread is
  undefined.
\<close>

datatype main_pc = Locking | Slot nat | Joining nat | Undefined | Closed
datatype client_pc = Serving | Waiting | Leaving | Ended

record closing =
  cg_owner :: "int option"
  cg_main :: main_pc
  cg_slots :: "cl list"
  cg_pc :: "int \<Rightarrow> client_pc"
  cg_detached :: "int \<Rightarrow> bool"

inductive close_step :: "closing \<Rightarrow> closing \<Rightarrow> bool" where
  lock: "cg_main s = Locking \<Longrightarrow> cg_owner s = None \<Longrightarrow>
    close_step s (s\<lparr>cg_owner := Some (-1), cg_main := Slot 0\<rparr>)"
| skip: "cg_main s = Slot x \<Longrightarrow> x < NUM_MAX_CLIENTS \<Longrightarrow> client_socket (cg_slots s ! x) = -1 \<Longrightarrow>
    close_step s (s\<lparr>cg_main := Slot (Suc x)\<rparr>)"
| shut: "cg_main s = Slot x \<Longrightarrow> x < NUM_MAX_CLIENTS \<Longrightarrow> client_socket (cg_slots s ! x) \<noteq> -1 \<Longrightarrow>
    \<not> cg_detached s (tid (cg_slots s ! x)) \<Longrightarrow> close_step s (s\<lparr>cg_main := Joining x\<rparr>)"
| shut_detached: "cg_main s = Slot x \<Longrightarrow> x < NUM_MAX_CLIENTS \<Longrightarrow> client_socket (cg_slots s ! x) \<noteq> -1 \<Longrightarrow>
    cg_detached s (tid (cg_slots s ! x)) \<Longrightarrow> close_step s (s\<lparr>cg_main := Undefined\<rparr>)"
| joined: "cg_main s = Joining x \<Longrightarrow> cg_pc s (tid (cg_slots s ! x)) = Ended \<Longrightarrow>
    close_step s (s\<lparr>cg_main := Slot (Suc x)\<rparr>)"
| unlock: "cg_main s = Slot NUM_MAX_CLIENTS \<Longrightarrow>
    close_step s (s\<lparr>cg_owner := None, cg_main := Closed\<rparr>)"
| client_wait: "cg_pc s t = Serving \<Longrightarrow> 0 \<le> t \<Longrightarrow>
    close_step s (s\<lparr>cg_pc := (cg_pc s)(t := Waiting)\<rparr>)"
| client_lock: "cg_pc s t = Waiting \<Longrightarrow> cg_owner s = None \<Longrightarrow> 0 \<le> t \<Longrightarrow>
    close_step s (s\<lparr>cg_owner := Some t, cg_pc := (cg_pc s)(t := Leaving)\<rparr>)"
| client_leave: "cg_pc s t = Leaving \<Longrightarrow> 0 \<le> t \<Longrightarrow>
    close_step s (s\<lparr>cg_owner := None, cg_pc := (cg_pc s)(t := Ended),
      cg_slots := map (\<lambda>c. if tid c = t then c\<lparr>client_socket := -1\<rparr> else c) (cg_slots s)\<rparr>)"

inductive_cases close_stepE: "close_step s s'"

text \<open>Whoever is in the critical section owns the mutex.\<close>

definition close_inv :: "nat \<Rightarrow> closing \<Rightarrow> bool" where
  "close_inv x s \<longleftrightarrow> (\<forall>t. 0 \<le> t \<longrightarrow> cg_pc s t \<noteq> Leaving) \<and> cg_owner s = Some (-1) \<and>
     ((\<exists>y \<le> x. cg_main s = Slot y) \<or> (\<exists>y \<le> x. cg_main s = Joining y) \<or> cg_main s = Undefined) \<and>
     (cg_main s = Joining x \<longrightarrow> \<not> cg_detached s (tid (cg_slots s ! x))) \<and>
     x < length (cg_slots s) \<and> x < NUM_MAX_CLIENTS \<and> client_socket (cg_slots s ! x) \<noteq> -1 \<and>
     0 \<le> tid (cg_slots s ! x) \<and> cg_pc s (tid (cg_slots s ! x)) \<noteq> Ended"

lemma close_step_inv:
  assumes "close_step s s'" "close_inv x s"
  shows "close_inv x s'"
  using assms
proof (induction rule: close_step.induct)
  case (skip s y)
  then have "y \<noteq> x" "y < x" by (auto simp: close_inv_def le_less)
  with skip show ?case by (auto simp: close_inv_def)
next
  case (shut s y)
  then show ?case by (auto simp: close_inv_def le_less)
next
  case (joined s y)
  then have "y \<noteq> x" "y < x" by (auto simp: close_inv_def le_less)
  with joined show ?case by (auto simp: close_inv_def)
qed (auto simp: close_inv_def)

section \<open>Properties\<close>



text \<open>Without that restriction the count drifts.  When seven connections are accepted before
  their threads start, the seventh thread finds no slot and is not counted, but is subtracted when it
  ends: all clients are gone, every slot is free, and \<open>num_clients\<close> is -1.\<close>

theorem num_clients_drifts:
  "\<exists>es s. slot_run es slot_init = Some s \<and> sl_threads s = [] \<and>
     used_pairs (client_list (sl_clients s)) = [] \<and> num_clients (sl_clients s) = -1"
proof -
  let ?es = "map (\<lambda>t. Accept t (t + 10)) [1..7] @ map Start [1..7] @ map Finish [1..7]"
  have upto: "[1..7] = [1, 2, 3, 4, 5, 6, 7 :: int]" by (simp add: upto.simps)
  have "\<exists>s. slot_run ?es slot_init = Some s \<and> sl_threads s = [] \<and>
      used_pairs (client_list (sl_clients s)) = [] \<and> num_clients (sl_clients s) = -1"
    unfolding upto
    by (simp add: slot_init_def no_clients_def claim_slot_def numeral_eq_Suc release_slot_def used_pairs_def)
  then show ?thesis by blast
qed



end
