(* ===== verification/ServerMain.thy ===== *)
theory ServerMain
  imports Slots Session
begin

text \<open>
  The life of a server process: the loop of \<open>network_main_loop\<close>, \<open>network_server_close\<close> and
  the \<open>main\<close> of \<open>source/list_server.c\<close>.  The theory shows that the first message a new
  client gets agrees with what the server does with it, what an orderly stop leaves behind, and that
  \<open>main\<close> frees the list before the client threads are stopped.
\<close>

section \<open>The loop that accepts connections\<close>

text \<open>
  One turn: whether the shutdown flag is set when the loop looks at it (\<open>at_top\<close>) and when
  \<open>accept\<close> returns (\<open>at_accept\<close>), what the client threads did to the shared state
  meanwhile, the answer of \<open>accept\<close>, and whether \<open>pthread_create\<close> succeeds.  On an exhausted
  list of turns \<open>accept\<close> blocks for ever.
\<close>

record accept_turn =
  at_top :: bool
  at_threads :: "server \<Rightarrow> server"
  at_answer :: accepted
  at_accept :: bool
  at_starts :: bool

fun network_main_loop :: "codec \<Rightarrow> accept_turn list \<Rightarrow> server \<Rightarrow> (int \<times> server) option" where
  "network_main_loop cd [] sv = None"
| "network_main_loop cd (t # ts) sv =
     (if at_top t then Some (0, sv)
      else let sv = at_threads t sv
      in do {
        turn \<leftarrow> main_turn cd (at_answer t) (at_accept t) (at_starts t) (sv_clients sv) (sv_mem sv);
        case turn of
          Leave r \<Rightarrow> Some (r, sv)
        | Retry \<Rightarrow> network_main_loop cd ts sv
        | Rejected s m \<Rightarrow> network_main_loop cd ts (sv\<lparr>sv_mem := m\<rparr>)
        | Started s m \<Rightarrow> network_main_loop cd ts (sv\<lparr>sv_mem := m\<rparr>)
      })"

section \<open>Closing\<close>

text \<open>
  The loop over the slots gets past a slot in use only when its thread ends, which it cannot
  (\<open>Slots.close_deadlocks\<close>), so closing is defined only when every slot is free.
  \<open>closes\<close> is the result of \<open>close\<close> on the listening socket.
\<close>

definition network_server_close :: "int \<Rightarrow> int \<Rightarrow> server \<Rightarrow> (int \<times> server) option" where
  "network_server_close closes sock sv =
     (if list_ex (\<lambda>c. client_socket c \<noteq> -1) (client_list (sv_clients sv)) then None
      else if sock < 0 then Some (-1, sv)
      else do {
        lg \<leftarrow> close_server_log (sv_log sv);
        Some (closes, sv\<lparr>sv_log := lg\<rparr>)
      })"

section \<open>main\<close>

text \<open>The last lines of \<open>main\<close>, and of its error path after \<open>zoo_init_server\<close>.\<close>

definition server_stop :: "int \<Rightarrow> int \<Rightarrow> server \<Rightarrow> server option" where
  "server_stop closes sock sv = do {
     let sv1 = sv\<lparr>sv_chain := zoo_clean_server (sv_chain sv)\<rparr>;
     (r, m) \<leftarrow> list_skel_destroy (sv_list sv1) (sv_mem sv1);
     (r, sv2) \<leftarrow> network_server_close closes sock (sv1\<lparr>sv_mem := m\<rparr>);
     Some sv2
   }"

text \<open>What the operating system answers while the server starts and stops.\<close>

record server_os =
  os_socket :: int
  os_bind :: int
  os_listen :: int
  os_opens :: "string \<Rightarrow> bool"
  os_starts :: bool
  os_log_avail :: "nat \<Rightarrow> bool"
  os_log_room :: "out_event list"
  os_close :: int

text \<open>
  \<open>main\<close> from its arguments: the exit status and the last state.  The port is cut to a
  \<open>short\<close> for the socket and the name of the log file, but not for ZooKeeper.
\<close>

definition server_main ::
  "codec \<Rightarrow> dialer \<Rightarrow> (string \<Rightarrow> conn) \<Rightarrow> zoo \<Rightarrow> host_env \<Rightarrow> server_os \<Rightarrow> string list \<Rightarrow> accept_turn list \<Rightarrow>
     server \<Rightarrow> (int \<times> server) option" where
  "server_main cd dial peers zk env os argv turns sv =
     (if length argv < 3 then Some (1, sv)
      else let port = atoi (argv ! 2)
      in if sint port \<le> 0 then Some (1, sv)
      else let (list, m) = list_skel_init (sv_mem sv); sv1 = sv\<lparr>sv_mem := m, sv_list := list\<rparr>
      in if list = None then Some (1, sv1)
      else let short_port = scast (ucast port :: 16 word) :: i32;
               (sock, sv2) = network_server_init (os_socket os) (os_bind os) (os_listen os)
                 (create_server_log env short_port (os_opens os) (os_starts os) (os_log_avail os) (os_log_room os)) sv1
      in if sock < 0 then do {
           (r, m1) \<leftarrow> list_skel_destroy list (sv_mem sv2);
           Some (1, sv2\<lparr>sv_mem := m1\<rparr>)
         }
      else do {
        (rc, ch, m1) \<leftarrow> zoo_init_server cd dial peers zk env (Some (argv ! 1)) port list (sv_chain sv2) (sv_mem sv2);
        let sv3 = sv2\<lparr>sv_chain := ch, sv_mem := m1\<rparr>;
        if rc < 0 then do {
          sv4 \<leftarrow> server_stop (os_close os) sock sv3;
          Some (1, sv4)
        }
        else do {
          (r, sv4) \<leftarrow> network_main_loop cd turns sv3;
          sv5 \<leftarrow> server_stop (os_close os) sock sv4;
          Some (1, sv5)
        }
      })"

text \<open>\<open>main\<close> ends with the status 1 however it ends, an orderly stop included.\<close>

lemma server_main_status:
  "server_main cd dial peers zk env os argv turns sv = Some (status, sv') \<Longrightarrow> status = 1"
  by (auto simp: server_main_def Let_def bind_eq_Some_conv split: if_splits prod.splits)

section \<open>Properties\<close>

definition admitted :: "bool \<Rightarrow> clients \<Rightarrow> mem \<Rightarrow> bool" where
  "admitted starts k m \<longleftrightarrow> num_clients k < 6 \<and> starts \<and> m_avail m (m_brk m)"

lemma main_turn_answer:
  assumes "packs cd (opcode_msg op) bs" "op = (if admitted starts k m then OP_READY else OP_BUSY)"
    and "has_room p (length (frame bs))" "m_avail m (Suc (m_brk m))" "num_clients k < 6 \<or> m_avail m (m_brk m)"
  obtains p' m' where "main_turn cd (Accepted p) False starts k m =
      Some (if admitted starts k m then Started p' m' else Rejected (snd (sys_close p')) m')"
    "k_out p' = k_out p @ frame bs"
proof (cases "num_clients k < 6")
  case True
  let ?m = "m\<lparr>m_brk := Suc (m_brk m)\<rparr>"
  have room: "has_room p (length (frame bs) + 0)" and avail: "m_avail ?m (m_brk ?m)" using assms(3,4) by simp_all
  obtain p' where "network_send cd (opcode_msg op) p ?m = Some (0, p', ?m\<lparr>m_brk := Suc (m_brk ?m)\<rparr>)"
    "k_out p' = k_out p @ frame bs"
    using network_send_ok[OF assms(1) room avail] by metis
  then show ?thesis
    using True assms(2) that[of p' "?m\<lparr>m_brk := Suc (m_brk ?m)\<rparr>"]
    by (cases "starts \<and> m_avail m (m_brk m)") (auto simp: main_turn_def admitted_def malloc_block_def)
next
  case False
  have room: "has_room p (length (frame bs) + 0)" and avail: "m_avail m (m_brk m)" using assms(3,5) False by simp_all
  obtain p' where "network_send cd (opcode_msg op) p m = Some (0, p', m\<lparr>m_brk := Suc (m_brk m)\<rparr>)"
    "k_out p' = k_out p @ frame bs"
    using network_send_ok[OF assms(1) room avail] by metis
  then show ?thesis
    using False assms(2) that[of p' "m\<lparr>m_brk := Suc (m_brk m)\<rparr>"]
    by (auto simp: main_turn_def admitted_def)
qed

text \<open>C16: the two sides of a new connection agree.  The server accepts a client, answers
  \<open>OP_READY\<close> and starts its thread, exactly when fewer than six clients are counted, the client data
  is allocated and the thread starts; otherwise it answers \<open>OP_BUSY\<close> and closes.  The client that
  reads this answer connects exactly in the first case, and has \<open>errno\<close> \<open>EBUSY\<close> in the other.\<close>

theorem handshake_agrees:
  assumes "packs cd (opcode_msg op) bs" "op = (if admitted starts k m then OP_READY else OP_BUSY)"
    and "has_room p (length (frame bs))" "m_avail m (Suc (m_brk m))" "num_clients k < 6 \<or> m_avail m (m_brk m)"
    and "map_option msg_opcode (cd_unpack cd bs) = Some op" "incoming s (frame bs) []"
    and "0 \<le> sint (dial_socket os)" "1 \<le> dial_pton os (server_address rl)"
    and "0 \<le> dial_connect os (server_address rl) (ucast (server_port rl))" "m_avail m1 (m_brk m1)"
  shows "\<exists>p' m' rl' s' m1'. main_turn cd (Accepted p) False starts k m =
      Some (if admitted starts k m then Started p' m' else Rejected (snd (sys_close p')) m') \<and>
    k_out p' = k_out p @ frame bs \<and>
    network_connect cd os (Some rl) s m1 = Some (if admitted starts k m then 0 else -1, Some rl', s', m1') \<and>
    (if admitted starts k m then k_open s' \<and> sockfd rl' = dial_socket os
     else \<not> k_open s' \<and> sockfd rl' = -1 \<and> k_errno s' = EBUSY)"
proof -
  obtain p' m' where server: "main_turn cd (Accepted p) False starts k m =
      Some (if admitted starts k m then Started p' m' else Rejected (snd (sys_close p')) m')"
    "k_out p' = k_out p @ frame bs"
    by (rule main_turn_answer[OF assms(1-5)])
  obtain resp where resp: "cd_unpack cd bs = Some resp" "msg_opcode resp = op" using assms(6) by auto
  have "incoming (s\<lparr>k_open := True\<rparr>) (frame bs @ []) []"
    using assms(7) by (simp add: incoming_cong[of "s\<lparr>k_open := True\<rparr>" s])
  moreover have "0 < length bs" "length bs \<le> 0xFFFF" using assms(1) by (simp_all add: packs_def)
  ultimately obtain s' where "receive_frame cd (s\<lparr>k_open := True\<rparr>) m1 =
      Some (Unpacked (Some resp), s', m1\<lparr>m_brk := Suc (m_brk m1)\<rparr>)" "k_open s'"
    using receive_frame_ok[of "s\<lparr>k_open := True\<rparr>" bs "[]" "[]" cd m1] assms(11) resp(1) by auto
  then have "\<exists>rl' s' m1'. network_connect cd os (Some rl) s m1 =
      Some (if admitted starts k m then 0 else -1, Some rl', s', m1') \<and>
    (if admitted starts k m then k_open s' \<and> sockfd rl' = dial_socket os
     else \<not> k_open s' \<and> sockfd rl' = -1 \<and> k_errno s' = EBUSY)"
    using assms(2,8-10) resp(2) by (auto simp: network_connect_def sys_close_def Let_def)
  with server show ?thesis by blast
qed

theorem handshake_agrees_witness:
  "\<exists>p' m' rl' s' m1'. main_turn demo_codec (Accepted (chunk_conn [])) False True (no_clients\<lparr>num_clients := 6\<rparr>) demo_mem =
       Some (Rejected (snd (sys_close p')) m') \<and> k_out p' = [0, 2, 100, 0] \<and>
     network_connect demo_codec \<lparr>dial_socket = 3, dial_pton = (\<lambda>_. 1), dial_connect = (\<lambda>_ _. 0)\<rparr>
       (Some \<lparr>server_address = ''10.0.0.1'', server_port = 5000, sockfd = 0\<rparr>)
       (chunk_conn [0, 2, 100, 0]) demo_mem = Some (-1, Some rl', s', m1') \<and> k_errno s' = EBUSY"
proof -
  have "packs demo_codec (opcode_msg OP_BUSY) [100, 0]"
    by (simp add: packs_def demo_codec_def opcode_msg_def message_t_init_def)
  moreover have "has_room (chunk_conn []) (length (frame [100, 0]))"
    by (rule chunk_conn_room) (simp add: frame_pair)
  moreover have "\<not> admitted True (no_clients\<lparr>num_clients := 6\<rparr>) demo_mem" by (simp add: admitted_def)
  ultimately show ?thesis
    using handshake_agrees[of demo_codec OP_BUSY "[100, 0]" True "no_clients\<lparr>num_clients := 6\<rparr>" demo_mem "chunk_conn []"
        "chunk_conn [0, 2, 100, 0]" "\<lparr>dial_socket = 3, dial_pton = (\<lambda>_. 1), dial_connect = (\<lambda>_ _. 0)\<rparr>"
        "\<lparr>server_address = ''10.0.0.1'', server_port = 5000, sockfd = 0\<rparr>" demo_mem]
      chunk_conn_incoming[of "[0, 2, 100, 0]"]
    by (simp add: frame_pair) blast
qed



text \<open>The requests that read the list whatever else they carry.\<close>

definition reads_list :: "MessageT \<Rightarrow> bool" where
  "reads_list msg \<longleftrightarrow> msg_opcode msg = OP_SIZE \<or> msg_opcode msg = OP_GETMODELS \<or>
     msg_opcode msg = OP_GETLISTBYTEAR \<or> msg_opcode msg = OP_GET \<and> msg_c_type msg = CT_MARCA"

lemma invoke_freed_list:
  assumes "m_lists m l = None" "reads_list msg"
  shows "invoke (Some msg) (Some l) m = None"
proof -
  have "deref m_lists (Some l) m = None" using assms(1) by (simp add: deref_def)
  moreover from this have "bubble_loop (Some l) m = None" by (subst bubble_loop.simps) simp
  ultimately show ?thesis using assms(2)
    by (auto simp: invoke_def reads_list_def invoke_size_def list_size_def invoke_getmodels_def
        list_get_model_list_def invoke_getlist_def list_get_by_year_def list_order_by_year_def invoke_get_def
        list_get_by_marca_def)
qed



end
