(* ===== verification/Spec2Isabelle.thy ===== *)
theory Spec2Isabelle
  imports Threads ChainOrder Proto3 DebugPrint ClientLoop ServerMain
begin

text \<open>
  A verification of List_Server: a replicated list of cars, kept by a chain of servers and used by
  an interactive client.

  \<^bold>\<open>The program\<close>

  A server process (\<open>source/list_server.c\<close>) keeps one linked list of cars (\<open>source/list.c\<close>,
  \<open>source/data.c\<close>).  It accepts up to six clients, each served by a thread
  (\<open>source/network_server.c\<close>) that reads a framed message, writes a line to the server log, lets
  the skeleton (\<open>invoke\<close> in \<open>source/list_skel.c\<close>) change the list and build the reply, and sends
  it.  The servers register with ZooKeeper and form a chain (\<open>source/chain_server.c\<close>): a request that
  changes the list is forwarded to the successor first and applied locally when the successor
  answered.  A client (\<open>source/list_client.c\<close>) keeps a connection to both ends of the chain
  (\<open>source/chain_client.c\<close>), sends its writes to the head and its reads to the tail through the stub
  (\<open>source/client_stub.c\<close>, \<open>source/network_client.c\<close>, \<open>source/message-private.c\<close>).

  \<^bold>\<open>How the code is modelled\<close>

  The C integers are machine words, a \<open>float\<close> its 32 bits, a \<open>char *\<close> that a callee only reads
  a string option.  Undefined behaviour (a NULL or dangling dereference, a double free, the read of an
  uninitialised cell, signed overflow) and a call that never returns are \<open>None\<close> of an option; so
  a theorem that says \<open>= Some ...\<close> says that the code returns and does nothing undefined.  Memory is
  a record with one store per kind of block and an allocator whose every answer is arbitrary
  (\<open>CMem\<close>).  Loops on pointers are \<open>partial_function (option)\<close>; that they end is part of each
  theorem.  System calls answer from scripts (a connection carries what the next \<open>read\<close> and
  \<open>write\<close> calls do, partial and interrupted ones included).  Critical sections are single steps, and
  interleavings are sequences of them.

  Parameters, because their code is not in the repository: the packing and unpacking of messages
  (\<open>codec\<close>, by the protobuf-c library that \<open>sdmessage.pb-c.c\<close> calls), the answers of ZooKeeper
  (\<open>zoo\<close>), of \<open>socket\<close>, \<open>inet_pton\<close> and \<open>connect\<close> (\<open>dialer\<close>) and of the
  operating system at start and stop (\<open>server_os\<close>), the peers behind an address, and what a user
  types.  Theorems about an exchange assume of the codec only that the two messages at hand are packed
  into 1 to 65535 bytes and unpacked to messages with the same fields (\<open>packs\<close>, \<open>carried\<close>,
  \<open>carries\<close>), or that what it unpacks follows the type of messages (\<open>typed_codec\<close>).  \<open>Proto3\<close> has one
  codec for which all of this holds: the documented encoding, driven by the generated tables.

  \<^bold>\<open>The theories\<close>

  \<^item> \<open>Prelude\<close>, \<open>CMem\<close>, \<open>CText\<close>: integers, arrays, memory (with the locale
    \<open>heap_cells\<close> of a store), the number and text functions of the C library.
  \<^item> \<open>DataC\<close>: \<open>data.c\<close>.  Creation and replacement are all or nothing.
  \<^item> \<open>ListC\<close>: \<open>list.c\<close>.  \<open>ListRep\<close> says when the memory holds a list of cars; \<open>ListAdd\<close>,
    \<open>ListRemove\<close>, \<open>ListQuery\<close> and \<open>ListOrder\<close> show what each operation does to that list, for
    every answer of the allocator; \<open>BubbleSort\<close> is the sorting of the abstract list.
  \<^item> \<open>Message\<close>, \<open>SkelC\<close>: the messages and \<open>list_skel.c\<close>.  \<open>SkelSpec\<close> is the abstract
    service, \<open>SkelRefine\<close> its refinement by \<open>invoke\<close>, through the locale of \<open>Simulation\<close>;
    \<open>WellFormed\<close> is the type of messages.
  \<^item> \<open>Descriptors\<close>, \<open>Varint\<close>, \<open>Proto3\<close>: the tables and functions of \<open>sdmessage.pb-c.c\<close>.  The
    tables are exact (every lookup by number or name finds its entry and nothing else) and carry every
    message there and back; what the transport needs of a codec is the locale \<open>message_codec\<close>.
  \<^item> \<open>NetIO\<close>, \<open>NetFrame\<close>: \<open>message-private.c\<close> and the framing of \<open>network_client.c\<close> and
    \<open>network_server.c\<close>.
  \<^item> \<open>ServerLog\<close>, \<open>LogQueue\<close>: the log and its queue, an interpretation of the queue contract of
    \<open>Fifo\<close>.
  \<^item> \<open>NetServer\<close>, \<open>Session\<close>, \<open>Slots\<close>: the threads of the clients; a whole session refines
    the abstract service; the slots and the counter of clients under every interleaving.
  \<^item> \<open>Threads\<close>: client threads, log writer and ZooKeeper watcher as one step relation, a step for
    every critical section.  Its invariant explains the list by the requests in the order of
    \<open>lock_list\<close>, and the output of every connection by the replies to its own requests.
  \<^item> \<open>ServerMain\<close>: the accepting loop, closing, and \<open>list_server.c\<close>.
  \<^item> \<open>HostAddr\<close>, \<open>ChainServer\<close>, \<open>ChainLinks\<close>, \<open>Chain\<close>: \<open>chain_server.c\<close>, the links
    between neighbours, and the replication of writes along a chain of any length.  \<open>ChainWire\<close> runs the
    chain over its connections: each server makes its turn of \<open>client_thread\<close> and reads from its
    successor what the turn of that one writes.  \<open>ChainOrder\<close>: the successors that the servers
    choose pass all registered servers in order.
  \<^item> \<open>ClientStub\<close>, \<open>CarArray\<close>, \<open>Remote\<close>: \<open>client_stub.c\<close>, and its operations against the
    thread of a server.
  \<^item> \<open>ChainClient\<close>: \<open>chain_client.c\<close>; the client's two ends are the ends of the servers' chain.
  \<^item> \<open>ListClient\<close>, \<open>ClientRun\<close>, \<open>ClientCommands\<close>, \<open>ClientLoop\<close>: \<open>list_client.c\<close>, and
    what its user gets from every command.
  \<^item> \<open>DebugPrint\<close>: the printers that nothing calls, of \<open>client_stub.c\<close> and \<open>chain_client.c\<close>.

  \<^bold>\<open>What the properties show\<close>

  The list operations are correct for every allocator; \<open>invoke\<close> refines an abstract service and so
  do a session of a thread and, for writes, a chain of servers.  On top of this a command the user
  types has the effect on the server's list, and prints the text, that the abstract list
  prescribes, and leaves the client's memory as it was; an \<open>add\<close> typed at a client of the head is on
  every server of the chain when the user reads that it was done.  The threads of a server are
  linearisable: under every interleaving the list and the replies are those of the service that takes
  the requests one by one.  Transport, log and queue lose nothing when the
  calls below them do not fail.  Some theorems show that the code does not do what it means to: reads
  that sort one replica only, a rejected write that is applied, a shutdown that waits for threads that
  need its mutex or frees the list they use, a log line that crashes on a malformed request, a client
  that never leaves its loop at the end of its input.

  \<^bold>\<open>Bounds\<close>

  The size of a list is an \<open>int\<close>: theorems that add to it assume fewer than 2147483647 cars.
  The one fuel is that of \<open>dec_wires\<close>, the number of bytes, which is at least the number of fields
  (\<open>enc_wires_length\<close>).  The loop of the accepting thread takes the list of its turns, the loop of the
  client an infinite sequence of them.

  \<^bold>\<open>Not modelled\<close>

  The protobuf-c library (a parameter); of the generated tables \<open>sizeof\<close>, the pointers to the init
  functions and the reserved words; messages on
  the standard error; condition variables, whose waits are covered by letting a thread run only when
  its condition holds; weak memory (the unprotected reads of \<open>num_clients\<close> and of the shutdown flags
  happen at the boundary of a step).  ZooKeeper events in the middle of a critical section of
  \<open>rls_lock\<close> wait for its end, as in the code.  The run-time behaviour of the chain under failures
  of servers is shown only for one step of \<open>update\<close> at a time, and a chain over its connections for
  one request at a time.
\<close>

end
